(* ===== verification/Wire_Prelude.thy ===== *)
theory Wire_Prelude
  imports Main "HOL-Library.Sublist" "HOL-Library.Char_ord" "HOL-Library.List_Lexorder"
    "HOL-Library.Product_Lexorder" "HOL-Library.Multiset"
begin

text \<open>
  What the components share: Go strings as lists of bytes (\<open>char\<close> is an 8-bit byte, as
  Go's \<open>byte\<close> is), the functions of Go's \<open>strings\<close> package the program calls, slices,
  decimal printing, and the lemmas about them that carry the component proofs.

  \<open>strings.ToLower\<close>, \<open>ToUpper\<close>, \<open>TrimSpace\<close> and \<open>Fields\<close> are modelled on ASCII: a
  byte from 128 up is left as it is and is no blank. Go maps letters beyond ASCII by the Unicode
  tables, which can also change the length of the text; on ASCII the two agree.
\<close>

section \<open>Bytes\<close>

definition byte :: "char \<Rightarrow> nat" where
  "byte c = of_char c"

definition newline :: char where
  "newline = CHR 0x0A"

definition blank4 :: "char \<Rightarrow> bool" where
  "blank4 c \<longleftrightarrow> c = CHR 0x20 \<or> c = CHR 0x09 \<or> c = CHR 0x0A \<or> c = CHR 0x0D"

text \<open>The ASCII blanks of \<open>unicode.IsSpace\<close>: tab, newline, vertical tab, form feed, return, space.\<close>

definition is_space :: "char \<Rightarrow> bool" where
  "is_space c \<longleftrightarrow> blank4 c \<or> c = CHR 0x0B \<or> c = CHR 0x0C"

definition lower_byte :: "char \<Rightarrow> char" where
  "lower_byte c = (if 65 \<le> byte c \<and> byte c \<le> 90 then char_of (byte c + 32) else c)"

definition upper_byte :: "char \<Rightarrow> char" where
  "upper_byte c = (if 97 \<le> byte c \<and> byte c \<le> 122 then char_of (byte c - 32) else c)"

definition is_digit :: "char \<Rightarrow> bool" where
  "is_digit c \<longleftrightarrow> 48 \<le> byte c \<and> byte c \<le> 57"

definition is_alpha :: "char \<Rightarrow> bool" where
  "is_alpha c \<longleftrightarrow> 97 \<le> byte c \<and> byte c \<le> 122 \<or> 65 \<le> byte c \<and> byte c \<le> 90"

lemma byte_less [simp]: "byte c < 256"
  by (simp add: byte_def)

lemma char_of_byte [simp]: "char_of (byte c) = c"
  by (simp add: byte_def)

lemma byte_char_of: "n < 256 \<Longrightarrow> byte (char_of n) = n"
  by (simp add: byte_def)

lemma byte_eq_iff: "byte a = byte b \<longleftrightarrow> a = b"
  by (metis char_of_byte)

lemma lower_byte_lower [simp]: "lower_byte (lower_byte c) = lower_byte c"
proof (cases "65 \<le> byte c \<and> byte c \<le> 90")
  case True
  then have "byte (char_of (byte c + 32)) = byte c + 32"
    by (intro byte_char_of) simp
  with True show ?thesis by (simp add: lower_byte_def)
qed (auto simp: lower_byte_def)

subsection \<open>Evaluation on the bits of a byte\<close>

lemma byte_Char:
  "byte (Char b0 b1 b2 b3 b4 b5 b6 b7) =
     (if b0 then 1 else 0) + (if b1 then 2 else 0) + (if b2 then 4 else 0) + (if b3 then 8 else 0) +
     (if b4 then 16 else 0) + (if b5 then 32 else 0) + (if b6 then 64 else 0) + (if b7 then 128 else 0)"
  by (simp add: byte_def horner_sum_simps)

lemma is_digit_code [code]:
  "is_digit (Char b0 b1 b2 b3 b4 b5 b6 b7) \<longleftrightarrow> \<not> b7 \<and> \<not> b6 \<and> b5 \<and> b4 \<and> \<not> (b3 \<and> (b2 \<or> b1))"
  unfolding is_digit_def byte_Char
  by (cases b7; cases b6; cases b5; cases b4; cases b3; cases b2; cases b1; cases b0) simp_all

definition letter_bits :: "bool \<Rightarrow> bool \<Rightarrow> bool \<Rightarrow> bool \<Rightarrow> bool \<Rightarrow> bool" where
  "letter_bits b0 b1 b2 b3 b4 \<longleftrightarrow> (b0 \<or> b1 \<or> b2 \<or> b3 \<or> b4) \<and> \<not> (b4 \<and> b3 \<and> (b2 \<or> b1 \<and> b0))"

lemma is_alpha_code [code]:
  "is_alpha (Char b0 b1 b2 b3 b4 b5 b6 b7) \<longleftrightarrow> \<not> b7 \<and> b6 \<and> letter_bits b0 b1 b2 b3 b4"
  unfolding is_alpha_def byte_Char letter_bits_def
  by (cases b7; cases b6; cases b5; cases b4; cases b3; cases b2; cases b1; cases b0) simp_all

lemma lower_byte_code [code]:
  "lower_byte (Char b0 b1 b2 b3 b4 b5 b6 b7) =
     (if \<not> b7 \<and> b6 \<and> \<not> b5 \<and> letter_bits b0 b1 b2 b3 b4 then Char b0 b1 b2 b3 b4 True b6 b7
      else Char b0 b1 b2 b3 b4 b5 b6 b7)"
proof -
  have "lower_byte (Char b0 b1 b2 b3 b4 b5 b6 b7) = Char b0 b1 b2 b3 b4 True b6 b7"
    if "\<not> b7 \<and> b6 \<and> \<not> b5 \<and> letter_bits b0 b1 b2 b3 b4"
  proof -
    from that have r: "65 \<le> byte (Char b0 b1 b2 b3 b4 b5 b6 b7) \<and> byte (Char b0 b1 b2 b3 b4 b5 b6 b7) \<le> 90"
      unfolding byte_Char letter_bits_def
      by (cases b4; cases b3; cases b2; cases b1; cases b0) simp_all
    have "byte (Char b0 b1 b2 b3 b4 True b6 b7) = byte (Char b0 b1 b2 b3 b4 b5 b6 b7) + 32"
      using that by (simp add: byte_Char)
    then have "byte (Char b0 b1 b2 b3 b4 True b6 b7) = byte (lower_byte (Char b0 b1 b2 b3 b4 b5 b6 b7))"
      using r by (simp add: lower_byte_def byte_char_of)
    then show ?thesis by (simp only: byte_eq_iff)
  qed
  moreover have "\<not> (65 \<le> byte (Char b0 b1 b2 b3 b4 b5 b6 b7) \<and> byte (Char b0 b1 b2 b3 b4 b5 b6 b7) \<le> 90)"
    if "\<not> (\<not> b7 \<and> b6 \<and> \<not> b5 \<and> letter_bits b0 b1 b2 b3 b4)"
    using that unfolding byte_Char letter_bits_def
    by (cases b7; cases b6; cases b5; cases b4; cases b3; cases b2; cases b1; cases b0) simp_all
  ultimately show ?thesis by (auto simp: lower_byte_def)
qed

section \<open>Slices and searches\<close>

text \<open>\<open>s[a:b]\<close>, and \<open>s[a:]\<close> as \<open>drop a s\<close>.\<close>

definition substr :: "'a list \<Rightarrow> nat \<Rightarrow> nat \<Rightarrow> 'a list" where
  "substr s a b = take (b - a) (drop a s)"

fun has_prefix :: "string \<Rightarrow> string \<Rightarrow> bool" where
  "has_prefix s [] = True"
| "has_prefix [] (x # p) = False"
| "has_prefix (y # s) (x # p) = (y = x \<and> has_prefix s p)"

definition has_suffix :: "string \<Rightarrow> string \<Rightarrow> bool" where
  "has_suffix s p = has_prefix (rev s) (rev p)"

text \<open>\<open>strings.Index\<close>: the least index at which \<open>t\<close> occurs, \<open>None\<close> for -1.\<close>

fun index_of :: "string \<Rightarrow> string \<Rightarrow> nat option" where
  "index_of [] t = (if t = [] then Some 0 else None)"
| "index_of (c # s) t = (if has_prefix (c # s) t then Some 0 else map_option Suc (index_of s t))"

definition contains_str :: "string \<Rightarrow> string \<Rightarrow> bool" where
  "contains_str s t \<longleftrightarrow> index_of s t \<noteq> None"

text \<open>\<open>strings.IndexByte\<close>.\<close>

fun index_byte :: "string \<Rightarrow> char \<Rightarrow> nat option" where
  "index_byte [] c = None"
| "index_byte (x # s) c = (if x = c then Some 0 else map_option Suc (index_byte s c))"

lemma has_prefix_iff: "has_prefix s p \<longleftrightarrow> (\<exists>t. s = p @ t)"
  by (induction s p rule: has_prefix.induct) auto

lemma has_prefix_take: "has_prefix s p \<longleftrightarrow> take (length p) s = p"
  by (metis append_eq_conv_conj append_take_drop_id has_prefix_iff)

lemma has_prefix_length: "has_prefix s p \<Longrightarrow> length p \<le> length s"
  by (auto simp: has_prefix_iff)

lemma index_of_SomeD: "index_of s t = Some k \<Longrightarrow> has_prefix (drop k s) t \<and> k + length t \<le> length s"
proof (induction s arbitrary: k)
  case Nil
  then show ?case by (auto split: if_splits)
next
  case (Cons c s)
  then show ?case by (auto split: if_splits dest: has_prefix_length)
qed

lemma index_of_least: "index_of s t = Some k \<Longrightarrow> j < k \<Longrightarrow> \<not> has_prefix (drop j s) t"
proof (induction s arbitrary: k j)
  case Nil
  then show ?case by (auto split: if_splits)
next
  case (Cons c s)
  show ?case
  proof (cases "has_prefix (c # s) t")
    case False
    with Cons.prems obtain k' where "index_of s t = Some k'" "k = Suc k'" by auto
    with Cons False show ?thesis by (cases j) auto
  qed (use Cons.prems in simp)
qed

lemma index_of_NoneD: "index_of s t = None \<Longrightarrow> \<not> has_prefix (drop j s) t"
proof (induction s arbitrary: j)
  case Nil
  then show ?case by (cases t) (auto split: if_splits)
next
  case (Cons c s)
  then show ?case by (cases j) (auto split: if_splits)
qed

lemma contains_str_iff: "contains_str s t \<longleftrightarrow> (\<exists>a b. s = a @ t @ b)"
proof
  assume "contains_str s t"
  then obtain k where "index_of s t = Some k" by (auto simp: contains_str_def)
  then have "has_prefix (drop k s) t" by (simp add: index_of_SomeD)
  then obtain b where "drop k s = t @ b" by (auto simp: has_prefix_iff)
  then have "s = take k s @ t @ b" by (metis append_take_drop_id)
  then show "\<exists>a b. s = a @ t @ b" by blast
next
  assume "\<exists>a b. s = a @ t @ b"
  then obtain a b where s: "s = a @ t @ b" by blast
  have "has_prefix (drop (length a) s) t" by (simp add: s has_prefix_iff)
  then show "contains_str s t" by (metis contains_str_def index_of_NoneD)
qed

lemma index_byte_SomeD: "index_byte s c = Some k \<Longrightarrow> k < length s \<and> s ! k = c"
proof (induction s arbitrary: k)
  case (Cons x s)
  then show ?case by (auto split: if_splits)
qed simp

lemma length_slice [simp]: "length (substr s a b) = min (b - a) (length s - a)"
  by (simp add: substr_def)

lemma slice_empty [simp]: "substr s a a = []"
  by (simp add: substr_def)

lemma slice_0 [simp]: "substr s 0 (length s) = s"
  by (simp add: substr_def)

lemma slice_append: "a \<le> b \<Longrightarrow> b \<le> c \<Longrightarrow> substr s a b @ substr s b c = substr s a c"
  by (simp add: substr_def) (metis Nat.diff_add_assoc2 add_diff_inverse_nat diff_add_inverse2
      drop_drop le_add_diff_inverse2 leD take_add)

lemma nth_slice: "i < b - a \<Longrightarrow> a + i < length s \<Longrightarrow> substr s a b ! i = s ! (a + i)"
  by (simp add: substr_def)

text \<open>Where the first index with \<open>P\<close> from \<open>a\<close> on can be.\<close>

lemma ex_from_first:
  fixes P :: "nat \<Rightarrow> bool"
  assumes "a \<le> n" and "\<And>i. a \<le> i \<Longrightarrow> i < n \<Longrightarrow> \<not> P i"
  shows "(\<exists>i \<ge> a. P i) \<longleftrightarrow> P n \<or> (\<exists>i \<ge> Suc n. P i)"
proof
  assume "\<exists>i \<ge> a. P i"
  then obtain i where i: "a \<le> i" "P i" by blast
  with assms(2) have "n \<le> i" by (meson not_le)
  with i show "P n \<or> (\<exists>i \<ge> Suc n. P i)"
    by (cases "i = n") (auto intro: exI [of _ i])
next
  assume "P n \<or> (\<exists>i \<ge> Suc n. P i)"
  with assms(1) show "\<exists>i \<ge> a. P i" by (meson Suc_leD le_trans)
qed

section \<open>Case and blanks\<close>

definition to_lower :: "string \<Rightarrow> string" where
  "to_lower s = map lower_byte s"

definition to_upper :: "string \<Rightarrow> string" where
  "to_upper s = map upper_byte s"

text \<open>\<open>strings.EqualFold\<close>, on ASCII.\<close>

definition equal_fold :: "string \<Rightarrow> string \<Rightarrow> bool" where
  "equal_fold s t \<longleftrightarrow> to_lower s = to_lower t"

definition trim_left :: "(char \<Rightarrow> bool) \<Rightarrow> string \<Rightarrow> string" where
  "trim_left p s = dropWhile p s"

definition trim_right :: "(char \<Rightarrow> bool) \<Rightarrow> string \<Rightarrow> string" where
  "trim_right p s = rev (dropWhile p (rev s))"

definition trim_space :: "string \<Rightarrow> string" where
  "trim_space s = trim_right is_space (trim_left is_space s)"

lemma length_to_lower [simp]: "length (to_lower s) = length s"
  by (simp add: to_lower_def)

lemma to_lower_lower [simp]: "to_lower (to_lower s) = to_lower s"
  by (simp add: to_lower_def)

lemma to_lower_Nil [simp]: "to_lower [] = []"
  by (simp add: to_lower_def)

lemma nth_to_lower: "i < length s \<Longrightarrow> to_lower s ! i = lower_byte (s ! i)"
  by (simp add: to_lower_def)

lemma length_dropWhile: "length (dropWhile p s) \<le> length s"
  by (induction s) auto

lemma length_trim_left: "length (trim_left p s) \<le> length s"
  by (simp add: trim_left_def length_dropWhile)

lemma length_trim_right: "length (trim_right p s) \<le> length s"
  by (simp add: trim_right_def) (metis length_dropWhile length_rev)

lemma trim_left_suffix: "\<exists>u. s = u @ trim_left p s \<and> list_all p u"
  by (rule exI [of _ "takeWhile p s"])
    (auto simp: trim_left_def list_all_iff dest: set_takeWhileD)

lemma trim_right_prefix: "\<exists>u. s = trim_right p s @ u \<and> list_all p u"
proof (rule exI [of _ "rev (takeWhile p (rev s))"], intro conjI)
  have "rev s = takeWhile p (rev s) @ dropWhile p (rev s)" by simp
  then have "rev (rev s) = rev (takeWhile p (rev s) @ dropWhile p (rev s))" by (rule arg_cong)
  then show "s = trim_right p s @ rev (takeWhile p (rev s))"
    unfolding trim_right_def by (simp only: rev_append rev_rev_ident)
  show "list_all p (rev (takeWhile p (rev s)))"
    by (auto simp: list_all_iff dest: set_takeWhileD)
qed

section \<open>Decimal printing\<close>

text \<open>\<open>strconv.Itoa\<close> and \<open>%d\<close>.\<close>

definition digit_char :: "nat \<Rightarrow> char" where
  "digit_char d = char_of (48 + d)"

fun nat_to_string :: "nat \<Rightarrow> string" where
  "nat_to_string n =
     (if n < 10 then [digit_char n] else nat_to_string (n div 10) @ [digit_char (n mod 10)])"

declare nat_to_string.simps [simp del]

lemma nat_to_string_not_Nil: "nat_to_string n \<noteq> []"
  by (subst nat_to_string.simps) simp

lemma nat_to_string_bytes: "list_all is_digit (nat_to_string n)"
proof (induction n rule: nat_to_string.induct)
  case (1 n)
  have "is_digit (digit_char d)" if "d < 10" for d
    using that by (simp add: is_digit_def digit_char_def byte_char_of)
  with 1 show ?case by (subst nat_to_string.simps) simp
qed

definition int_to_string :: "int \<Rightarrow> string" where
  "int_to_string z = (if z < 0 then CHR ''-'' # nat_to_string (nat (- z)) else nat_to_string (nat z))"

text \<open>\<open>strings.Join\<close>.\<close>

fun join_with :: "string \<Rightarrow> string list \<Rightarrow> string" where
  "join_with sep [] = []"
| "join_with sep [x] = x"
| "join_with sep (x # y # ys) = x @ sep @ join_with sep (y # ys)"

lemma join_with_Cons: "ys \<noteq> [] \<Longrightarrow> join_with sep (x # ys) = x @ sep @ join_with sep ys"
  by (cases ys) auto

text \<open>\<open>strings.Fields\<close>: the maximal runs of non-blank bytes.\<close>

function text_fields :: "string \<Rightarrow> string list" where
  "text_fields s =
     (case dropWhile is_space s of
        [] \<Rightarrow> []
      | c # r \<Rightarrow> takeWhile (\<lambda>x. \<not> is_space x) (c # r) # text_fields (dropWhile (\<lambda>x. \<not> is_space x) (c # r)))"
  by pat_completeness auto
termination
proof (relation "measure length", goal_cases)
  case (2 s c r)
  then have "\<not> is_space c" by (metis dropWhile_eq_Cons_conv)
  moreover have "length (c # r) \<le> length s" by (metis 2 length_dropWhile)
  ultimately show ?case
    by (simp add: le_imp_less_Suc [THEN less_le_trans, of _ "length r"] length_dropWhile)
qed simp

declare text_fields.simps [simp del]

section \<open>Quoting\<close>

definition hex_digit :: "nat \<Rightarrow> char" where
  "hex_digit n = (if n < 10 then char_of (48 + n) else char_of (87 + n))"

text \<open>\<open>%q\<close>, on ASCII.\<close>

definition quote_byte :: "char \<Rightarrow> string" where
  "quote_byte c =
     (if c = CHR 0x22 \<or> c = CHR 0x5C then [CHR 0x5C, c]
      else if c = CHR 0x07 then [CHR 0x5C, CHR ''a'']
      else if c = CHR 0x08 then [CHR 0x5C, CHR ''b'']
      else if c = CHR 0x0C then [CHR 0x5C, CHR ''f'']
      else if c = CHR 0x0A then [CHR 0x5C, CHR ''n'']
      else if c = CHR 0x0D then [CHR 0x5C, CHR ''r'']
      else if c = CHR 0x09 then [CHR 0x5C, CHR ''t'']
      else if c = CHR 0x0B then [CHR 0x5C, CHR ''v'']
      else if byte c < 32 \<or> byte c = 127 then
        [CHR 0x5C, CHR ''x'', hex_digit (byte c div 16), hex_digit (byte c mod 16)]
      else [c])"

definition go_quote :: "string \<Rightarrow> string" where
  "go_quote s = [CHR 0x22] @ concat (List.map quote_byte s) @ [CHR 0x22]"

section \<open>Addresses\<close>

definition last_index_byte :: "string \<Rightarrow> char \<Rightarrow> nat option" where
  "last_index_byte s c = map_option (\<lambda>k. length s - 1 - k) (index_byte (rev s) c)"

text \<open>\<open>net.SplitHostPort\<close>: the host and the port, \<open>None\<close> for an error.\<close>

definition split_host_port :: "string \<Rightarrow> (string \<times> string) option" where
  "split_host_port s =
     (case last_index_byte s (CHR '':'') of
        None \<Rightarrow> None
      | Some i \<Rightarrow>
          if hd s = CHR ''['' then
            (case index_byte s (CHR '']'') of
               None \<Rightarrow> None
             | Some e \<Rightarrow>
                 if e + 1 \<noteq> i then None
                 else if CHR ''['' \<in> set (drop 1 s) \<or> CHR '']'' \<in> set (drop (e + 1) s) then None
                 else Some (substr s 1 e, drop (i + 1) s))
          else if CHR '':'' \<in> set (take i s) then None
          else if CHR ''['' \<in> set s \<or> CHR '']'' \<in> set s then None
          else Some (take i s, drop (i + 1) s))"

end
