(* ===== verification/Sqltext.thy ===== *)
theory Sqltext
  imports Wire_Prelude
begin

text \<open>
  The package \<open>internal/sqltext\<close>: the lexical scan that decides which bytes of a statement are
  code (\<open>scanMask\<close>), and what is built on it: splitting into statements, redaction, splitting a
  list on top-level commas and token search.

  The scanning loops keep their index \<open>i\<close> into the text, so \<open>s ! i\<close> is Go's \<open>sql[i]\<close> and is
  read only behind the code's own bound check. An inner loop that advances \<open>i\<close> is a function
  returning the index it stops at; the outer loop is \<open>scan_from\<close>, whose result is the mask of
  the bytes from \<open>i\<close> on.
\<close>

section \<open>Definitions\<close>

datatype dialect = Postgres | MySQL

definition is_ident_byte :: "char \<Rightarrow> bool" where
  "is_ident_byte b \<longleftrightarrow> b = CHR ''_'' \<or> is_alpha b \<or> is_digit b"

subsection \<open>The regions that are not code\<close>

function line_end :: "string \<Rightarrow> nat \<Rightarrow> nat" where
  "line_end s i = (if i < length s \<and> s ! i \<noteq> newline then line_end s (Suc i) else i)"
  by pat_completeness auto
termination
  by (relation "measure (\<lambda>(s, i). length s - i)") auto

function block_end :: "dialect \<Rightarrow> string \<Rightarrow> nat \<Rightarrow> nat \<Rightarrow> nat" where
  "block_end d s depth i =
     (if i < length s \<and> 0 < depth then
        (if s ! i = CHR ''*'' \<and> i + 1 < length s \<and> s ! (i + 1) = CHR ''/''
         then block_end d s (depth - 1) (i + 2)
         else if d = Postgres \<and> s ! i = CHR ''/'' \<and> i + 1 < length s \<and> s ! (i + 1) = CHR ''*''
         then block_end d s (depth + 1) (i + 2)
         else block_end d s depth (i + 1))
      else i)"
  by pat_completeness auto
termination
  by (relation "measure (\<lambda>(d, s, depth, i). length s - i)") auto

function quote_end :: "string \<Rightarrow> char \<Rightarrow> bool \<Rightarrow> nat \<Rightarrow> nat" where
  "quote_end s q esc i =
     (if i < length s then
        (if esc \<and> s ! i = CHR 0x5C \<and> i + 1 < length s then quote_end s q esc (i + 2)
         else if s ! i = q then
           (if i + 1 < length s \<and> s ! (i + 1) = q then quote_end s q esc (i + 2) else i + 1)
         else quote_end s q esc (i + 1))
      else i)"
  by pat_completeness auto
termination
  by (relation "measure (\<lambda>(s, q, esc, i). length s - i)") auto

text \<open>The end of the run of identifier bytes from \<open>j\<close>: the loop that reads a dollar-quote tag.\<close>

function tag_end :: "string \<Rightarrow> nat \<Rightarrow> nat" where
  "tag_end s j = (if j < length s \<and> is_ident_byte (s ! j) then tag_end s (Suc j) else j)"
  by pat_completeness auto
termination
  by (relation "measure (\<lambda>(s, j). length s - j)") auto

declare line_end.simps [simp del] block_end.simps [simp del]
  quote_end.simps [simp del] tag_end.simps [simp del]

definition backslash_escapes :: "dialect \<Rightarrow> string \<Rightarrow> nat \<Rightarrow> bool" where
  "backslash_escapes d s at =
     (let quote = s ! at in
      if d = MySQL then quote \<noteq> CHR 0x60
      else if quote \<noteq> CHR 0x27 \<or> at = 0 then False
      else if s ! (at - 1) \<noteq> CHR ''E'' \<and> s ! (at - 1) \<noteq> CHR ''e'' then False
      else at < 2 \<or> \<not> is_ident_byte (s ! (at - 2)))"

definition starts_line_comment :: "dialect \<Rightarrow> string \<Rightarrow> nat \<Rightarrow> bool" where
  "starts_line_comment d s i \<longleftrightarrow>
     (s ! i = CHR ''-'' \<and> i + 1 < length s \<and> s ! (i + 1) = CHR ''-'') \<or>
     (d = MySQL \<and> s ! i = CHR ''#'')"

definition starts_block_comment :: "string \<Rightarrow> nat \<Rightarrow> bool" where
  "starts_block_comment s i \<longleftrightarrow>
     s ! i = CHR ''/'' \<and> i + 1 < length s \<and> s ! (i + 1) = CHR ''*''"

definition starts_quote :: "dialect \<Rightarrow> bool \<Rightarrow> char \<Rightarrow> bool" where
  "starts_quote d protect c \<longleftrightarrow>
     c = CHR 0x27 \<or> (protect \<and> (c = CHR 0x22 \<or> (d = MySQL \<and> c = CHR 0x60)))"

definition starts_dollar :: "dialect \<Rightarrow> string \<Rightarrow> nat \<Rightarrow> bool" where
  "starts_dollar d s i \<longleftrightarrow>
     d = Postgres \<and> s ! i = CHR ''$'' \<and>
     tag_end s (Suc i) < length s \<and> s ! tag_end s (Suc i) = CHR ''$''"

definition dollar_end :: "string \<Rightarrow> nat \<Rightarrow> nat" where
  "dollar_end s i =
     (let j = tag_end s (Suc i); tag = substr s i (j + 1); rest = i + length tag in
      case index_of (drop rest s) tag of
        None \<Rightarrow> length s
      | Some idx \<Rightarrow> rest + idx + length tag)"

text \<open>
  One turn of the outer loop at \<open>i\<close>: \<open>None\<close> when the byte is code, otherwise the index just past
  the literal, quoted identifier or comment that opens there.
\<close>

definition region_end :: "dialect \<Rightarrow> bool \<Rightarrow> string \<Rightarrow> nat \<Rightarrow> nat option" where
  "region_end d protect s i =
     (if starts_line_comment d s i then Some (line_end s i)
      else if starts_block_comment s i then Some (block_end d s 1 (i + 2))
      else if starts_quote d protect (s ! i)
        then Some (quote_end s (s ! i) (backslash_escapes d s i) (i + 1))
      else if starts_dollar d s i then Some (dollar_end s i)
      else None)"

subsection \<open>Bounds of the loops\<close>

lemma line_end_bounds: "i \<le> length s \<Longrightarrow> i \<le> line_end s i \<and> line_end s i \<le> length s"
  by (induction s i rule: line_end.induct) (subst (1 2) line_end.simps, auto)

lemma block_end_bounds:
  "i \<le> length s \<Longrightarrow> i \<le> block_end d s depth i \<and> block_end d s depth i \<le> length s"
proof (induction d s depth i rule: block_end.induct)
  case (1 d s depth i)
  show ?case
    by (subst (1 2) block_end.simps) (use 1 in auto)
qed

lemma quote_end_bounds:
  "i \<le> length s \<Longrightarrow> i \<le> quote_end s q esc i \<and> quote_end s q esc i \<le> length s"
proof (induction s q esc i rule: quote_end.induct)
  case (1 s q esc i)
  show ?case
    by (subst (1 2) quote_end.simps) (use 1 in auto)
qed

lemma tag_end_bounds: "j \<le> length s \<Longrightarrow> j \<le> tag_end s j \<and> tag_end s j \<le> length s"
  by (induction s j rule: tag_end.induct) (subst (1 2) tag_end.simps, auto)

lemma starts_line_comment_progress:
  assumes "starts_line_comment d s i" and "i < length s"
  shows "i < line_end s i"
proof -
  have "s ! i \<noteq> newline"
    using assms(1) by (auto simp: starts_line_comment_def newline_def)
  then have "line_end s i = line_end s (Suc i)"
    using assms(2) by (subst line_end.simps) simp
  then show ?thesis
    using line_end_bounds [of "Suc i" s] assms(2) by simp
qed

lemma dollar_end_bounds:
  assumes "starts_dollar d s i" and "i < length s"
  shows "i < dollar_end s i \<and> dollar_end s i \<le> length s"
proof -
  define j where "j = tag_end s (Suc i)"
  have j: "Suc i \<le> j" "j < length s"
    using assms tag_end_bounds [of "Suc i" s] by (auto simp: j_def starts_dollar_def)
  then have len: "length (substr s i (j + 1)) = j + 1 - i" by simp
  show ?thesis
    using j len by (auto simp: dollar_end_def Let_def j_def [symmetric]
        dest!: index_of_SomeD split: option.splits)
qed

lemma region_end_bounds:
  assumes "region_end d p s i = Some j" and "i < length s"
  shows "i < j \<and> j \<le> length s"
proof -
  note bounds = line_end_bounds [of i s] block_end_bounds [of "i + 2" s d 1]
    quote_end_bounds [of "i + 1" s "s ! i" "backslash_escapes d s i"]
  show ?thesis
    using assms bounds starts_line_comment_progress [of d s i] dollar_end_bounds [of d s i]
    by (auto simp: region_end_def starts_block_comment_def split: if_splits)
qed

function scan_from :: "dialect \<Rightarrow> bool \<Rightarrow> string \<Rightarrow> nat \<Rightarrow> bool list" where
  "scan_from d protect s i =
     (if i < length s then
        (case region_end d protect s i of
           None \<Rightarrow> True # scan_from d protect s (Suc i)
         | Some j \<Rightarrow> replicate (j - i) False @ scan_from d protect s j)
      else [])"
  by pat_completeness auto
termination
  by (relation "measure (\<lambda>(d, protect, s, i). length s - i)")
    (auto dest: region_end_bounds)

declare scan_from.simps [simp del]

definition scan_mask :: "dialect \<Rightarrow> string \<Rightarrow> bool \<Rightarrow> bool list" where
  "scan_mask d s protect = scan_from d protect s 0"

definition code_mask :: "dialect \<Rightarrow> string \<Rightarrow> bool list" where
  "code_mask d s = scan_mask d s True"

subsection \<open>Statements, redaction, commas\<close>

definition segment_has_code :: "string \<Rightarrow> bool list \<Rightarrow> nat \<Rightarrow> nat \<Rightarrow> bool" where
  "segment_has_code s m a b = list_ex (\<lambda>i. m ! i \<and> \<not> blank4 (s ! i)) [a..<b]"

definition flush_segment :: "string \<Rightarrow> bool list \<Rightarrow> nat \<Rightarrow> nat \<Rightarrow> string list" where
  "flush_segment s m a b =
     (if segment_has_code s m a b then [trim_space (substr s a b)] else [])"

function statements_from :: "string \<Rightarrow> bool list \<Rightarrow> nat \<Rightarrow> nat \<Rightarrow> string list" where
  "statements_from s m start i =
     (if i < length s then
        (if s ! i = CHR '';'' \<and> m ! i
         then flush_segment s m start i @ statements_from s m (Suc i) (Suc i)
         else statements_from s m start (Suc i))
      else flush_segment s m start (length s))"
  by pat_completeness auto
termination
  by (relation "measure (\<lambda>(s, m, start, i). length s - i)") auto

declare statements_from.simps [simp del]

definition statements :: "dialect \<Rightarrow> string \<Rightarrow> string list" where
  "statements d s = statements_from s (code_mask d s) 0 0"

definition is_multi_statement :: "dialect \<Rightarrow> string \<Rightarrow> bool" where
  "is_multi_statement d s \<longleftrightarrow> 1 < length (statements d s)"

definition redact_byte :: "bool \<Rightarrow> char \<Rightarrow> char" where
  "redact_byte code c = (if code then c else if c = newline then newline else CHR 0x20)"

definition redact :: "dialect \<Rightarrow> string \<Rightarrow> string" where
  "redact d s = map2 redact_byte (code_mask d s) s"

function split_commas_from :: "string \<Rightarrow> bool list \<Rightarrow> nat \<Rightarrow> nat \<Rightarrow> nat \<Rightarrow> string list" where
  "split_commas_from s m depth start i =
     (if i < length s then
        (if \<not> m ! i then split_commas_from s m depth start (Suc i)
         else if s ! i = CHR ''('' then split_commas_from s m (depth + 1) start (Suc i)
         else if s ! i = CHR '')'' then split_commas_from s m (depth - 1) start (Suc i)
         else if s ! i = CHR '','' \<and> depth = 0
           then substr s start i # split_commas_from s m depth (Suc i) (Suc i)
         else split_commas_from s m depth start (Suc i))
      else [drop start s])"
  by pat_completeness auto
termination
  by (relation "measure (\<lambda>(s, m, depth, start, i). length s - i)") auto

declare split_commas_from.simps [simp del]

definition split_top_level_commas :: "dialect \<Rightarrow> string \<Rightarrow> string list" where
  "split_top_level_commas d s = split_commas_from s (code_mask d s) 0 0 0"

subsection \<open>Token search\<close>

function contains_token_from :: "string \<Rightarrow> string \<Rightarrow> nat \<Rightarrow> bool" where
  "contains_token_from s tok from =
     (if tok = [] then False else
      case index_of (drop from s) tok of
        None \<Rightarrow> False
      | Some k \<Rightarrow>
          (let idx = k + from; end = idx + length tok;
               leftOK = (idx = 0 \<or> \<not> is_ident_byte (s ! (idx - 1)));
               rightOK = (end = length s \<or> \<not> is_ident_byte (tok ! (length tok - 1)) \<or>
                          \<not> is_ident_byte (s ! end)) in
           if leftOK \<and> rightOK then True else contains_token_from s tok (idx + 1)))"
  by pat_completeness auto
termination
  by (relation "measure (\<lambda>(s, tok, from). length s - from)")
    (auto dest!: index_of_SomeD simp flip: length_greater_0_conv)

declare contains_token_from.simps [simp del]

definition contains_token :: "string \<Rightarrow> string \<Rightarrow> bool" where
  "contains_token s tok = contains_token_from s tok 0"

text \<open>The blanks skipped after a keyword: the index of the next byte that is none.\<close>

function skip_blanks :: "string \<Rightarrow> nat \<Rightarrow> nat" where
  "skip_blanks s i = (if i < length s \<and> blank4 (s ! i) then skip_blanks s (Suc i) else i)"
  by pat_completeness auto
termination
  by (relation "measure (\<lambda>(s, i). length s - i)") auto

declare skip_blanks.simps [simp del]

text \<open>
  \<open>hasStatementToken\<close>. Its callers pass the non-empty words of \<open>writeTokens\<close>; the guard on an
  empty \<open>tok\<close>, with which the Go loop would run past the end of the text, makes it total.
\<close>

function has_statement_token_from :: "string \<Rightarrow> string \<Rightarrow> nat \<Rightarrow> bool" where
  "has_statement_token_from s tok from =
     (if tok = [] then False else
      case index_of (drop from s) tok of
        None \<Rightarrow> False
      | Some k \<Rightarrow>
          (let idx = k + from; end = idx + length tok; next = skip_blanks s end in
           if 0 < idx \<and> is_ident_byte (s ! (idx - 1)) then has_statement_token_from s tok (idx + 1)
           else if end < length s \<and> is_ident_byte (s ! end)
             then has_statement_token_from s tok (idx + 1)
           else if next < length s \<and> s ! next = CHR ''(''
             then has_statement_token_from s tok (idx + 1)
           else True))"
  by pat_completeness auto
termination
  by (relation "measure (\<lambda>(s, tok, from). length s - from)")
    (auto dest!: index_of_SomeD simp flip: length_greater_0_conv)

declare has_statement_token_from.simps [simp del]

definition has_statement_token :: "string \<Rightarrow> string \<Rightarrow> bool" where
  "has_statement_token s tok = has_statement_token_from s tok 0"

section \<open>The mask\<close>

lemma length_scan_from [simp]: "length (scan_from d p s i) = length s - i"
proof (induction d p s i rule: scan_from.induct)
  case (1 d p s i)
  show ?case
    by (subst scan_from.simps) (auto split: option.split simp: "1.IH" dest: region_end_bounds)
qed

lemma length_code_mask [simp]: "length (code_mask d s) = length s"
  by (simp add: code_mask_def scan_mask_def)

text \<open>
  A code byte is one at which the scanner found no region to skip, and the scanner goes on right
  after it: what the mask says from there on is the scan started there.
\<close>

lemma scan_from_code:
  assumes "i + k < length s" and "scan_from d p s i ! k"
  shows "region_end d p s (i + k) = None \<and>
    drop (Suc k) (scan_from d p s i) = scan_from d p s (Suc (i + k))"
  using assms
proof (induction d p s i arbitrary: k rule: scan_from.induct)
  case (1 d p s i)
  show ?case
  proof (cases "region_end d p s i")
    case None
    with "1.prems" have eq: "scan_from d p s i = True # scan_from d p s (Suc i)"
      by (subst scan_from.simps) simp
    show ?thesis
    proof (cases k)
      case 0
      with None eq show ?thesis by simp
    next
      case (Suc k')
      with "1.prems" None eq show ?thesis
        using "1.IH"(1) [of k'] by auto
    qed
  next
    case (Some j)
    with "1.prems" have eq: "scan_from d p s i = replicate (j - i) False @ scan_from d p s j"
      by (subst scan_from.simps) simp
    from "1.prems" Some have j: "i < j" "j \<le> length s"
      by (auto dest: region_end_bounds)
    from "1.prems"(2) eq have k: "j - i \<le> k"
      by (auto simp: nth_append split: if_splits)
    with j have ik: "j + (k - (j - i)) = i + k" by simp
    from "1.prems" eq k j have "scan_from d p s j ! (k - (j - i))"
      by (simp add: nth_append)
    with "1.prems" Some ik show ?thesis
      using "1.IH"(2) [of j "k - (j - i)"] eq k j by (simp add: Suc_diff_le add.commute [of i k])
  qed
qed

lemma code_mask_region: "i < length s \<Longrightarrow> code_mask d s ! i \<Longrightarrow> region_end d True s i = None"
  using scan_from_code [of 0 i s d True] by (simp add: code_mask_def scan_mask_def)

lemma code_mask_next:
  assumes "Suc i < length s" and "code_mask d s ! i"
  shows "code_mask d s ! Suc i \<longleftrightarrow> region_end d True s (Suc i) = None"
proof -
  have "drop (Suc i) (code_mask d s) = scan_from d True s (Suc i)"
    using scan_from_code [of 0 i s d True] assms by (simp add: code_mask_def scan_mask_def)
  moreover have "drop (Suc i) (code_mask d s) ! 0 = code_mask d s ! Suc i"
    using assms by simp
  moreover have "scan_from d True s (Suc i) ! 0 \<longleftrightarrow> region_end d True s (Suc i) = None"
    using assms(1) by (subst scan_from.simps)
      (auto split: option.split simp: nth_append dest: region_end_bounds)
  ultimately show ?thesis by simp
qed

lemma scan_from_all_code:
  assumes "\<And>k. i \<le> k \<Longrightarrow> k < length s \<Longrightarrow> region_end d p s k = None"
  shows "scan_from d p s i = replicate (length s - i) True"
  using assms
proof (induction d p s i rule: scan_from.induct)
  case (1 d p s i)
  show ?case
  proof (cases "i < length s")
    case True
    with 1 have "scan_from d p s (Suc i) = replicate (length s - Suc i) True" by simp
    with True "1.prems" show ?thesis
      by (subst scan_from.simps) (simp add: Suc_diff_Suc flip: replicate_Suc)
  next
    case False
    then show ?thesis by (subst scan_from.simps) simp
  qed
qed

end
