(* ===== verification/Sqltext_Laws.thy ===== *)
theory Sqltext_Laws
  imports Sqltext
begin

text \<open>
  What the clients of the scanner rely on. The interface is the locale \<open>lexer\<close> (a mask has one
  bit per byte) and \<open>blanking_lexer\<close> (a redacted text is all code, so no trigger survives
  blanking); \<open>code_mask\<close> of either dialect is an instance of both. On top of it: redaction keeps
  positions and is idempotent, statement splitting and comma splitting lose nothing, and the two
  token searches agree with their specifications.
\<close>

section \<open>The interface of a scanner\<close>

definition blank_out :: "bool list \<Rightarrow> string \<Rightarrow> string" where
  "blank_out m s = map2 redact_byte m s"

lemma blank_out_all_code: "blank_out (replicate (length s) True) s = s"
  by (rule nth_equalityI) (simp_all add: blank_out_def redact_byte_def)

locale lexer =
  fixes lex :: "string \<Rightarrow> bool list"
  assumes length_lex: "length (lex s) = length s"
begin

lemma length_blanked: "length (blank_out (lex s) s) = length s"
  by (simp add: blank_out_def length_lex)

lemma nth_blanked: "i < length s \<Longrightarrow> blank_out (lex s) s ! i = redact_byte (lex s ! i) (s ! i)"
  by (simp add: blank_out_def length_lex)

lemma blanked_newline: "i < length s \<Longrightarrow> blank_out (lex s) s ! i = newline \<longleftrightarrow> s ! i = newline"
  by (simp add: nth_blanked redact_byte_def newline_def)

lemma blanked_visible:
  assumes "i < length s" and "\<not> blank4 (blank_out (lex s) s ! i)"
  shows "lex s ! i \<and> blank_out (lex s) s ! i = s ! i"
  using assms by (auto simp: nth_blanked redact_byte_def newline_def blank4_def split: if_splits)

end

locale blanking_lexer = lexer +
  assumes lex_blanked: "lex (blank_out (lex s) s) = replicate (length s) True"
begin

lemma blanked_idem: "blank_out (lex (blank_out (lex s) s)) (blank_out (lex s) s) = blank_out (lex s) s"
  using blank_out_all_code [of "blank_out (lex s) s"] by (simp add: lex_blanked length_blanked)

end

section \<open>Every dialect's mask is one\<close>

lemma redact_blank_out: "redact d s = blank_out (code_mask d s) s"
  by (simp add: redact_def blank_out_def)

lemma tag_end_run:
  "a \<le> length s \<Longrightarrow> a \<le> i \<Longrightarrow> i < tag_end s a \<Longrightarrow> is_ident_byte (s ! i)"
proof (induction s a rule: tag_end.induct)
  case (1 s a)
  show ?case
  proof (cases "a < length s \<and> is_ident_byte (s ! a)")
    case True
    with 1 show ?thesis
      by (cases "i = a") (auto simp: tag_end.simps [of s a])
  next
    case False
    with 1 show ?thesis by (auto simp: tag_end.simps [of s a])
  qed
qed

lemma tag_end_stop: "tag_end s a < length s \<Longrightarrow> \<not> is_ident_byte (s ! tag_end s a)"
proof (induction s a rule: tag_end.induct)
  case (1 s a)
  then show ?case
    by (cases "a < length s \<and> is_ident_byte (s ! a)") (auto simp: tag_end.simps [of s a])
qed

lemma tag_end_unique:
  assumes "a \<le> e" and "e \<le> length s" and "\<And>i. a \<le> i \<Longrightarrow> i < e \<Longrightarrow> is_ident_byte (s ! i)"
    and "e < length s \<Longrightarrow> \<not> is_ident_byte (s ! e)"
  shows "tag_end s a = e"
  using assms
proof (induction s a rule: tag_end.induct)
  case (1 s a)
  show ?case
  proof (cases "a = e")
    case True
    with "1.prems" show ?thesis by (subst tag_end.simps) auto
  next
    case False
    with "1.prems" have "a < length s" "is_ident_byte (s ! a)" "Suc a \<le> e" by auto
    with 1 show ?thesis by (subst tag_end.simps) auto
  qed
qed

lemma special_not_ident [simp]:
  "\<not> is_ident_byte (CHR ''-'')" "\<not> is_ident_byte (CHR ''#'')" "\<not> is_ident_byte (CHR ''/'')"
  "\<not> is_ident_byte (CHR ''$'')" "\<not> is_ident_byte (CHR 0x27)" "\<not> is_ident_byte (CHR 0x22)"
  "\<not> is_ident_byte (CHR 0x60)" "\<not> is_ident_byte (CHR 0x20)" "\<not> is_ident_byte (CHR 0x0A)"
  "\<not> is_ident_byte (CHR 0x09)" "\<not> is_ident_byte (CHR 0x0D)"
  by (simp_all add: is_ident_byte_def is_alpha_def is_digit_def byte_def)

lemma plain_byte_no_trigger:
  assumes "s ! i \<notin> {CHR ''-'', CHR ''#'', CHR ''/'', CHR ''$'', CHR 0x27, CHR 0x22, CHR 0x60}"
  shows "region_end d p s i = None"
  using assms by (simp add: region_end_def starts_line_comment_def starts_block_comment_def
      starts_quote_def starts_dollar_def)

lemma ident_byte_no_trigger: "is_ident_byte (s ! i) \<Longrightarrow> region_end d p s i = None"
  by (rule plain_byte_no_trigger) auto

lemma blank_no_trigger: "blank4 (s ! i) \<Longrightarrow> region_end d p s i = None"
  by (rule plain_byte_no_trigger) (auto simp: blank4_def)

lemma ident_run_is_code:
  assumes "code_mask d s ! k" and "k < length s"
    and "\<And>j. k < j \<Longrightarrow> j \<le> i \<Longrightarrow> is_ident_byte (s ! j)" and "k \<le> i" and "i < length s"
  shows "code_mask d s ! i"
  using assms(4,5,3)
proof (induction i rule: dec_induct)
  case base
  then show ?case using assms(1) by simp
next
  case (step n)
  then have "code_mask d s ! n" by auto
  moreover have "is_ident_byte (s ! Suc n)"
    using step by auto
  ultimately show ?case
    using step code_mask_next [of n s d] ident_byte_no_trigger by auto
qed

lemma redacted_region:
  assumes k: "k < length s"
  shows "region_end d True (blank_out (code_mask d s) s) k = None"
proof -
  define r where "r = blank_out (code_mask d s) s"
  have len: "length r = length s" by (simp add: r_def blank_out_def)
  have nth: "r ! i = redact_byte (code_mask d s ! i) (s ! i)" if "i < length s" for i
    using that by (simp add: r_def blank_out_def)
  have vis: "code_mask d s ! i \<and> r ! i = s ! i" if "i < length s" "\<not> blank4 (r ! i)" for i
    using that nth [of i] by (auto simp: redact_byte_def newline_def blank4_def split: if_splits)
  show ?thesis
  proof (cases "blank4 (r ! k)")
    case True
    then show ?thesis by (simp add: blank_no_trigger r_def)
  next
    case False
    with k vis have code: "code_mask d s ! k" and same: "r ! k = s ! k" by auto
    from code k have none: "region_end d True s k = None" by (simp add: code_mask_region)
    have line: "\<not> starts_line_comment d r k"
      using none vis [of "Suc k"] same len
      by (auto simp: region_end_def starts_line_comment_def blank4_def split: if_splits)
    have block: "\<not> starts_block_comment r k"
      using none vis [of "Suc k"] same len
      by (auto simp: region_end_def starts_block_comment_def blank4_def split: if_splits)
    have quote: "\<not> starts_quote d True (r ! k)"
      using none same by (auto simp: region_end_def split: if_splits)
    have dollar: "\<not> starts_dollar d r k"
    proof
      assume dol: "starts_dollar d r k"
      define e where "e = tag_end s (Suc k)"
      have e: "Suc k \<le> e" "e \<le> length s" using tag_end_bounds [of "Suc k" s] k by (auto simp: e_def)
      have run: "is_ident_byte (s ! i)" if "Suc k \<le> i" "i < e" for i
        using tag_end_run [of "Suc k" s i] that k by (simp add: e_def)
      have "code_mask d s ! i" if "Suc k \<le> i" "i < e" for i
        using ident_run_is_code [of d s k i] code k run that e by auto
      then have eq: "r ! i = s ! i" if "Suc k \<le> i" "i < e" for i
        using that e nth [of i] by (simp add: redact_byte_def)
      have "\<not> is_ident_byte (r ! e)" if "e < length s"
        using tag_end_stop [of s "Suc k"] that nth [of e]
        by (auto simp: e_def redact_byte_def newline_def)
      then have te: "tag_end r (Suc k) = e"
        using e run eq len by (intro tag_end_unique) auto
      with dol vis [of e] len have "e < length s" "s ! e = CHR ''$''"
        by (auto simp: starts_dollar_def blank4_def)
      with dol same have "starts_dollar d s k"
        by (simp add: starts_dollar_def e_def)
      with none show False by (auto simp: region_end_def split: if_splits)
    qed
    show ?thesis
      using line block quote dollar by (simp add: region_end_def r_def)
  qed
qed

lemma code_mask_blank_out:
  "code_mask d (blank_out (code_mask d s) s) = replicate (length s) True"
proof -
  have len: "length (blank_out (code_mask d s) s) = length s" by (simp add: blank_out_def)
  have "scan_from d True (blank_out (code_mask d s) s) 0 = replicate (length s - 0) True"
    unfolding len [symmetric] by (rule scan_from_all_code) (simp add: redacted_region len)
  then show ?thesis by (simp add: code_mask_def scan_mask_def)
qed

interpretation code: blanking_lexer "code_mask d" for d
  by unfold_locales (simp_all add: code_mask_blank_out)

section \<open>Redaction\<close>

lemma length_redact [simp]: "length (redact d s) = length s"
  by (simp add: redact_blank_out code.length_blanked)

lemma nth_redact: "i < length s \<Longrightarrow> redact d s ! i = redact_byte (code_mask d s ! i) (s ! i)"
  by (simp add: redact_blank_out code.nth_blanked)

text \<open>
  Property C32: redaction is positional and complete. A redacted statement has the same length and
  the same line breaks; a byte of it that is not blank is a code byte of the original at the same
  position; and redacting again changes nothing, so that nothing left in it opens a literal, a
  quoted identifier or a comment.
\<close>

theorem redact_positional:
  assumes "i < length s"
  shows "length (redact d s) = length s \<and>
    (redact d s ! i = newline \<longleftrightarrow> s ! i = newline) \<and>
    (blank4 (redact d s ! i) \<or> code_mask d s ! i \<and> redact d s ! i = s ! i) \<and>
    redact d (redact d s) = redact d s"
  unfolding redact_blank_out
  using assms code.length_blanked code.blanked_newline code.blanked_visible code.blanked_idem
  by blast

theorem redact_positional_witness:
  "redact Postgres [CHR ''a'', CHR 0x27, CHR ''b'', CHR 0x27] = ''a   '' \<and>
   redact Postgres (redact Postgres [CHR ''a'', CHR 0x27, CHR ''b'', CHR 0x27]) = ''a   ''"
proof -
  have eval: "redact Postgres [CHR ''a'', CHR 0x27, CHR ''b'', CHR 0x27] = ''a   ''"
    by code_simp
  then show ?thesis
    using redact_positional [of 2 "[CHR ''a'', CHR 0x27, CHR ''b'', CHR 0x27]" Postgres] by simp
qed

section \<open>Statements\<close>

text \<open>
  The specification of the splitter, without its loop: a payload byte is a code byte that is
  neither blank nor a semicolon, and a break is a semicolon that is code.
\<close>

definition payload_at :: "string \<Rightarrow> bool list \<Rightarrow> nat \<Rightarrow> bool" where
  "payload_at s m i \<longleftrightarrow> i < length s \<and> m ! i \<and> \<not> blank4 (s ! i) \<and> s ! i \<noteq> CHR '';''"

definition break_at :: "string \<Rightarrow> bool list \<Rightarrow> nat \<Rightarrow> bool" where
  "break_at s m i \<longleftrightarrow> i < length s \<and> m ! i \<and> s ! i = CHR '';''"

lemma segment_payload:
  assumes "b \<le> length s" and "\<And>j. a \<le> j \<Longrightarrow> j < b \<Longrightarrow> \<not> break_at s m j"
  shows "segment_has_code s m a b \<longleftrightarrow> (\<exists>k. a \<le> k \<and> k < b \<and> payload_at s m k)"
  using assms by (auto simp: segment_has_code_def list_ex_iff payload_at_def break_at_def)

lemma ex_split_at:
  fixes P :: "nat \<Rightarrow> bool"
  assumes "start \<le> i" and "\<not> P i"
  shows "(\<exists>k. start \<le> k \<and> P k) \<longleftrightarrow>
    (\<exists>k. start \<le> k \<and> k < i \<and> P k) \<or> (\<exists>k. Suc i \<le> k \<and> P k)"
  using assms by (metis Suc_leI le_trans less_imp_le_nat linorder_neqE_nat not_less_eq_eq)

lemma statements_from_nonempty:
  assumes "start \<le> i" and "i \<le> length s" and "\<And>j. start \<le> j \<Longrightarrow> j < i \<Longrightarrow> \<not> break_at s m j"
  shows "statements_from s m start i \<noteq> [] \<longleftrightarrow> (\<exists>k. start \<le> k \<and> payload_at s m k)"
  using assms
proof (induction s m start i rule: statements_from.induct)
  case (1 s m start i)
  show ?case
  proof (cases "i < length s")
    case len: True
    show ?thesis
    proof (cases "break_at s m i")
      case True
      then have "statements_from s m start i =
          flush_segment s m start i @ statements_from s m (Suc i) (Suc i)"
        using len by (subst statements_from.simps) (simp add: break_at_def)
      moreover have "statements_from s m (Suc i) (Suc i) \<noteq> [] \<longleftrightarrow>
          (\<exists>k. Suc i \<le> k \<and> payload_at s m k)"
        using "1.IH"(1) True len by (auto simp: break_at_def)
      moreover have "flush_segment s m start i \<noteq> [] \<longleftrightarrow>
          (\<exists>k. start \<le> k \<and> k < i \<and> payload_at s m k)"
        using segment_payload [of i s start m] "1.prems" by (simp add: flush_segment_def)
      moreover have "\<not> payload_at s m i"
        using True by (simp add: payload_at_def break_at_def)
      ultimately show ?thesis
        using ex_split_at [of start i "payload_at s m"] "1.prems"(1) by simp
    next
      case False
      then have "statements_from s m start i = statements_from s m start (Suc i)"
        using len by (subst statements_from.simps) (auto simp: break_at_def)
      moreover have "\<not> break_at s m j" if "start \<le> j" "j < Suc i" for j
        using that "1.prems"(3) False by (cases "j = i") auto
      ultimately show ?thesis
        using "1.IH"(2) len False "1.prems"(1) by (auto simp: break_at_def)
    qed
  next
    case False
    with "1.prems" have i: "i = length s" by simp
    then have "statements_from s m start i = flush_segment s m start (length s)"
      by (subst statements_from.simps) simp
    then show ?thesis
      using segment_payload [of i s start m] "1.prems" i
      by (auto simp: flush_segment_def payload_at_def)
  qed
qed

text \<open>Two payload bytes with a break between them: what makes a text more than one statement.\<close>

definition batch_from :: "string \<Rightarrow> bool list \<Rightarrow> nat \<Rightarrow> bool" where
  "batch_from s m a \<longleftrightarrow>
     (\<exists>i j k. a \<le> i \<and> i < j \<and> j < k \<and> payload_at s m i \<and> break_at s m j \<and> payload_at s m k)"

lemma batch_from_break:
  assumes "break_at s m i" and "start \<le> i" and "\<And>j. start \<le> j \<Longrightarrow> j < i \<Longrightarrow> \<not> break_at s m j"
  shows "batch_from s m start \<longleftrightarrow>
    (\<exists>k. start \<le> k \<and> k < i \<and> payload_at s m k) \<and> (\<exists>k. Suc i \<le> k \<and> payload_at s m k) \<or>
    batch_from s m (Suc i)"
proof
  assume "batch_from s m start"
  then obtain a j k where *: "start \<le> a" "a < j" "j < k" "payload_at s m a" "break_at s m j"
    "payload_at s m k" by (auto simp: batch_from_def)
  then have "i \<le> j" using assms(3) [of j] by (meson le_less_trans less_imp_le_nat not_le)
  then have "Suc i \<le> k" using * by simp
  have "a \<noteq> i" using * assms(1) by (auto simp: payload_at_def break_at_def)
  show "(\<exists>k. start \<le> k \<and> k < i \<and> payload_at s m k) \<and>
      (\<exists>k. Suc i \<le> k \<and> payload_at s m k) \<or> batch_from s m (Suc i)"
  proof (cases "a < i")
    case True
    with * \<open>Suc i \<le> k\<close> show ?thesis by blast
  next
    case False
    with \<open>a \<noteq> i\<close> have "Suc i \<le> a" by simp
    with * show ?thesis unfolding batch_from_def by blast
  qed
next
  assume "(\<exists>k. start \<le> k \<and> k < i \<and> payload_at s m k) \<and>
      (\<exists>k. Suc i \<le> k \<and> payload_at s m k) \<or> batch_from s m (Suc i)"
  then show "batch_from s m start"
  proof (elim disjE conjE exE)
    fix a k
    assume *: "start \<le> a" "a < i" "payload_at s m a" "Suc i \<le> k" "payload_at s m k"
    then have "i < k" by simp
    with * show ?thesis using assms(1) unfolding batch_from_def by blast
  next
    assume "batch_from s m (Suc i)"
    then show ?thesis using assms(2) unfolding batch_from_def by (meson Suc_leD le_trans)
  qed
qed

lemma statements_from_many:
  assumes "start \<le> i" and "i \<le> length s"
    and "\<And>j. start \<le> j \<Longrightarrow> j < i \<Longrightarrow> \<not> break_at s m j"
  shows "1 < length (statements_from s m start i) \<longleftrightarrow> batch_from s m start"
  using assms
proof (induction s m start i rule: statements_from.induct)
  case (1 s m start i)
  show ?case
  proof (cases "i < length s")
    case len: True
    show ?thesis
    proof (cases "break_at s m i")
      case True
      then have eq: "statements_from s m start i =
          flush_segment s m start i @ statements_from s m (Suc i) (Suc i)"
        using len by (subst statements_from.simps) (simp add: break_at_def)
      have rest: "1 < length (statements_from s m (Suc i) (Suc i)) \<longleftrightarrow> batch_from s m (Suc i)"
        using "1.IH"(1) True len by (auto simp: break_at_def)
      have ne: "statements_from s m (Suc i) (Suc i) \<noteq> [] \<longleftrightarrow> (\<exists>k. Suc i \<le> k \<and> payload_at s m k)"
        using len by (intro statements_from_nonempty) auto
      have seg: "segment_has_code s m start i \<longleftrightarrow> (\<exists>k. start \<le> k \<and> k < i \<and> payload_at s m k)"
        using segment_payload [of i s start m] "1.prems" by simp
      have "batch_from s m start \<longleftrightarrow>
          segment_has_code s m start i \<and> statements_from s m (Suc i) (Suc i) \<noteq> [] \<or>
          1 < length (statements_from s m (Suc i) (Suc i))"
        unfolding seg ne rest by (rule batch_from_break [OF True "1.prems"(1,3)])
      then show ?thesis
        by (auto simp: eq flush_segment_def)
    next
      case False
      then have "statements_from s m start i = statements_from s m start (Suc i)"
        using len by (subst statements_from.simps) (auto simp: break_at_def)
      moreover have "\<not> break_at s m j" if "start \<le> j" "j < Suc i" for j
        using that "1.prems"(3) False by (cases "j = i") auto
      ultimately show ?thesis
        using "1.IH"(2) len False "1.prems" by (auto simp: break_at_def)
    qed
  next
    case False
    with "1.prems" have i: "i = length s" by simp
    then have "length (statements_from s m start i) \<le> 1"
      by (subst statements_from.simps) (simp add: flush_segment_def)
    moreover have "\<not> batch_from s m start"
      using "1.prems" i unfolding batch_from_def
      by (metis break_at_def le_trans less_imp_le_nat)
    ultimately show ?thesis by simp
  qed
qed

text \<open>
  Property C31: a text is refused as a batch exactly when a top-level semicolon has real code on
  both of its sides. Semicolons in literals, quoted identifiers and comments never count, and a
  trailing semicolon or comment makes no second statement.
\<close>

theorem is_multi_statement_iff:
  "is_multi_statement d s =
   (\<exists>i j k. i < j \<and> j < k \<and> payload_at s (code_mask d s) i \<and>
      break_at s (code_mask d s) j \<and> payload_at s (code_mask d s) k)"
  using statements_from_many [of 0 0 s "code_mask d s"]
  by (simp add: is_multi_statement_def statements_def batch_from_def)

section \<open>Select lists\<close>

lemma split_commas_from_nonempty: "split_commas_from s m depth start i \<noteq> []"
  by (induction s m depth start i rule: split_commas_from.induct)
    (subst split_commas_from.simps, simp)

lemma slice_join_rest:
  assumes "start \<le> i" and "i < length s"
  shows "substr s start i @ s ! i # drop (Suc i) s = drop start s"
proof -
  have "substr s start i @ drop i s = drop start s"
    using assms(1) by (simp add: substr_def) (metis append_take_drop_id drop_drop le_add_diff_inverse2)
  then show ?thesis
    using assms(2) by (simp add: Cons_nth_drop_Suc)
qed

lemma split_commas_from_join:
  assumes "start \<le> i" and "i \<le> length s"
  shows "join_with '','' (split_commas_from s m depth start i) = drop start s"
  using assms
proof (induction s m depth start i rule: split_commas_from.induct)
  case (1 s m depth start i)
  show ?case
  proof (cases "i < length s \<and> m ! i \<and> s ! i = CHR '','' \<and> depth = 0")
    case True
    then have "split_commas_from s m depth start i =
        substr s start i # split_commas_from s m depth (Suc i) (Suc i)"
      by (subst split_commas_from.simps) simp
    moreover have "join_with '','' (split_commas_from s m depth (Suc i) (Suc i)) = drop (Suc i) s"
      using "1.IH"(4) True by simp
    ultimately show ?thesis
      using slice_join_rest [of start i s] "1.prems" True
      by (simp add: join_with_Cons split_commas_from_nonempty)
  next
    case False
    with 1 show ?thesis
      by (subst split_commas_from.simps) auto
  qed
qed

text \<open>
  Splitting a select list on its top-level commas loses nothing: the items, joined
  with commas again, are the list, so no byte of an item is dropped or duplicated.
\<close>

theorem split_commas_join: "join_with '','' (split_top_level_commas d s) = s"
  using split_commas_from_join [of 0 0 s] by (simp add: split_top_level_commas_def)

section \<open>Token search\<close>

text \<open>The specification of \<open>ContainsToken\<close>: an occurrence bounded by bytes that are no identifier bytes.\<close>

definition token_occurs :: "string \<Rightarrow> string \<Rightarrow> nat \<Rightarrow> bool" where
  "token_occurs s tok i \<longleftrightarrow>
     has_prefix (drop i s) tok \<and>
     (i = 0 \<or> \<not> is_ident_byte (s ! (i - 1))) \<and>
     (i + length tok = length s \<or> \<not> is_ident_byte (last tok) \<or>
      \<not> is_ident_byte (s ! (i + length tok)))"

lemma contains_token_from_iff:
  assumes "tok \<noteq> []" and "from \<le> length s"
  shows "contains_token_from s tok from \<longleftrightarrow> (\<exists>i \<ge> from. token_occurs s tok i)"
  using assms
proof (induction s tok "from" rule: contains_token_from.induct)
  case (1 s tok "from")
  show ?case
  proof (cases "index_of (drop from s) tok")
    case None
    have "\<not> token_occurs s tok i" if "from \<le> i" for i
      using index_of_NoneD [OF None, of "i - from"] that by (simp add: token_occurs_def)
    then show ?thesis
      by (subst contains_token_from.simps) (auto simp: None)
  next
    case (Some k)
    define idx where "idx = k + from"
    from Some have pre: "has_prefix (drop idx s) tok" and idx: "idx + length tok \<le> length s"
      using index_of_SomeD [OF Some] "1.prems" by (auto simp: idx_def add.commute)
    have none: "\<not> token_occurs s tok i" if "from \<le> i" "i < idx" for i
      using index_of_least [OF Some, of "i - from"] that by (auto simp: token_occurs_def idx_def)
    have least: "(\<exists>i \<ge> from. token_occurs s tok i) \<longleftrightarrow>
        token_occurs s tok idx \<or> (\<exists>i \<ge> idx + 1. token_occurs s tok i)"
      using ex_from_first [of "from" idx "token_occurs s tok"] none by (simp add: idx_def)
    have here: "token_occurs s tok idx \<longleftrightarrow>
        (idx = 0 \<or> \<not> is_ident_byte (s ! (idx - 1))) \<and>
        (idx + length tok = length s \<or> \<not> is_ident_byte (tok ! (length tok - 1)) \<or>
         \<not> is_ident_byte (s ! (idx + length tok)))"
      using pre "1.prems"(1) by (simp add: token_occurs_def last_conv_nth)
    have "contains_token_from s tok from =
        (if (idx = 0 \<or> \<not> is_ident_byte (s ! (idx - 1))) \<and>
          (idx + length tok = length s \<or> \<not> is_ident_byte (tok ! (length tok - 1)) \<or>
           \<not> is_ident_byte (s ! (idx + length tok)))
         then True else contains_token_from s tok (idx + 1))"
      using Some "1.prems"(1) by (subst contains_token_from.simps) (simp add: Let_def idx_def)
    then have "contains_token_from s tok from \<longleftrightarrow>
        token_occurs s tok idx \<or> contains_token_from s tok (idx + 1)"
      unfolding here by simp
    moreover have "contains_token_from s tok (idx + 1) \<longleftrightarrow> (\<exists>i \<ge> idx + 1. token_occurs s tok i)"
      if "\<not> token_occurs s tok idx"
    proof (rule "1.IH" [OF "1.prems"(1) Some idx_def refl refl refl])
      show "\<not> ((idx = 0 \<or> \<not> is_ident_byte (s ! (idx - 1))) \<and>
        (idx + length tok = length s \<or> \<not> is_ident_byte (tok ! (length tok - 1)) \<or>
         \<not> is_ident_byte (s ! (idx + length tok))))"
        using that here by simp
      show "tok \<noteq> []" by fact
      show "idx + 1 \<le> length s" using idx "1.prems"(1) by (cases tok) auto
    qed
    ultimately show ?thesis using least by blast
  qed
qed

text \<open>
  The token search of the classifiers finds a word exactly when it occurs as a whole
  word: the loop over overlapping occurrences misses none and reports no part of a longer name.
\<close>

theorem contains_token_iff:
  "contains_token s tok = (tok \<noteq> [] \<and> (\<exists>i. token_occurs s tok i))"
proof (cases "tok = []")
  case True
  then show ?thesis by (simp add: contains_token_def contains_token_from.simps)
next
  case False
  then show ?thesis by (simp add: contains_token_def contains_token_from_iff)
qed

end
