(* ===== verification/Write_Verb.thy ===== *)
theory Write_Verb
  imports Sqltext_Laws
begin

text \<open>
  The read-only classifier of \<open>internal/sqltext\<close>: \<open>WriteVerb\<close>, the allowlist of statement
  keywords, the peeling of \<open>EXPLAIN\<close> and its options, and \<open>hasStatementToken\<close>.
\<close>

section \<open>Definitions\<close>

definition read_leads :: "string list" where
  "read_leads = [''select'', ''with'', ''values'', ''table'', ''show'', ''describe'', ''desc'']"

definition write_tokens :: "string list" where
  "write_tokens = [''insert'', ''update'', ''delete'', ''merge'', ''into'']"

definition explain_options :: "string list" where
  "explain_options =
     [''analyze'', ''analyse'', ''verbose'', ''costs'', ''settings'',
      ''buffers'', ''wal'', ''timing'', ''summary'', ''generic_plan'',
      ''format'', ''extended'', ''partitions'',
      ''json'', ''xml'', ''yaml'', ''text'', ''tree'', ''traditional'',
      ''on'', ''off'', ''true'', ''false'']"

definition statement_keywords :: "string list" where
  "statement_keywords =
     [''select'', ''with'', ''values'', ''table'', ''show'', ''describe'', ''desc'', ''explain'',
      ''insert'', ''update'', ''delete'', ''merge'', ''replace'', ''create'', ''drop'', ''alter'',
      ''truncate'', ''grant'', ''revoke'', ''call'', ''do'', ''copy'', ''lock'', ''unlock'', ''vacuum'',
      ''analyze'', ''analyse'', ''refresh'', ''reindex'', ''load'', ''rename'', ''set'', ''begin'',
      ''start'', ''commit'', ''rollback'', ''savepoint'', ''release'', ''prepare'', ''execute'',
      ''deallocate'', ''declare'', ''fetch'', ''close'', ''handler'', ''import'', ''install'',
      ''flush'', ''reset'', ''purge'', ''kill'', ''use'', ''checksum'', ''check'', ''optimize'',
      ''repair'', ''cluster'', ''comment'', ''security'', ''listen'', ''notify'', ''unlisten'',
      ''discard'', ''move'', ''checkpoint'', ''abort'', ''end'']"

definition is_statement_keyword :: "string \<Rightarrow> bool" where
  "is_statement_keyword w \<longleftrightarrow> w \<in> set statement_keywords"

definition lead_word :: "string \<Rightarrow> string \<times> string" where
  "lead_word s =
     (let r = dropWhile (\<lambda>c. c = CHR ''('' \<or> blank4 c) s in
      (takeWhile is_ident_byte r, dropWhile is_ident_byte r))"

lemma lead_word_length:
  assumes "lead_word s = (w, r)"
  shows "length w + length r \<le> length s"
proof -
  define t where "t = dropWhile (\<lambda>c. c = CHR ''('' \<or> blank4 c) s"
  have "w @ r = t" using assms by (auto simp: lead_word_def Let_def t_def)
  then have "length w + length r = length t" by (metis length_append)
  then show ?thesis by (simp add: t_def length_dropWhile)
qed

function strip_explain_options :: "string \<Rightarrow> string" where
  "strip_explain_options rest0 =
     (let rest = trim_left blank4 rest0 in
      if has_prefix rest ''('' then
        (case index_byte rest (CHR '')'') of
           Some e \<Rightarrow> strip_explain_options (drop (e + 1) rest)
         | None \<Rightarrow> rest)
      else if has_prefix rest ''='' then strip_explain_options (drop 1 rest)
      else
        (case lead_word rest of (word, after) \<Rightarrow>
           if word = [] \<or> word \<notin> set explain_options then rest
           else strip_explain_options after))"
  by pat_completeness auto
termination
proof (relation "measure length", goal_cases)
  case (2 rest0 rest e)
  then have "length rest \<le> length rest0" "rest \<noteq> []" by (auto simp: length_trim_left)
  then show ?case by (cases rest) auto
next
  case (3 rest0 rest)
  then have "length rest \<le> length rest0" "rest \<noteq> []" by (auto simp: length_trim_left)
  then show ?case by (cases rest) auto
next
  case (4 rest0 rest word after)
  then have "length word + length after \<le> length rest" "0 < length word"
    using lead_word_length [of rest word after] by auto
  moreover have "length rest \<le> length rest0" using 4 by (auto simp: length_trim_left)
  ultimately show ?case unfolding in_measure by linarith
qed simp

declare strip_explain_options.simps [simp del]

lemma strip_explain_options_length: "length (strip_explain_options s) \<le> length s"
proof (induction s rule: strip_explain_options.induct)
  case (1 s)
  define rest where "rest = trim_left blank4 s"
  have rest: "length rest \<le> length s" by (simp add: rest_def length_trim_left)
  note IH = "1.IH" [OF rest_def]
  show ?case
  proof (cases "has_prefix rest ''(''")
    case True
    with IH(1) rest show ?thesis
      by (subst strip_explain_options.simps)
        (force simp: Let_def simp flip: rest_def split: option.split intro: le_trans)
  next
    case p: False
    show ?thesis
    proof (cases "has_prefix rest ''=''")
      case True
      with IH(2) p rest show ?thesis
        by (subst strip_explain_options.simps)
          (force simp: Let_def simp flip: rest_def intro: le_trans)
    next
      case False
      obtain w a where lw: "lead_word rest = (w, a)" by force
      then have "length a \<le> length s"
        using lead_word_length [OF lw] rest by simp
      with IH(3) [OF p False lw [symmetric]] p False rest lw show ?thesis
        by (subst strip_explain_options.simps) (auto simp: Let_def simp flip: rest_def)
    qed
  qed
qed

text \<open>The loop that peels leading \<open>EXPLAIN\<close>s; the flag is the code's \<open>explained\<close>.\<close>

function unwrap_explains :: "string \<Rightarrow> bool \<Rightarrow> string \<times> bool" where
  "unwrap_explains body explained =
     (case lead_word body of (lead, rest) \<Rightarrow>
        if lead \<noteq> ''explain'' then (body, explained)
        else unwrap_explains (strip_explain_options rest) True)"
  by pat_completeness auto
termination
proof (relation "measure (\<lambda>(b, e). length b)", goal_cases)
  case (2 body explained lead rest)
  then have "length lead + length rest \<le> length body" "0 < length lead"
    using lead_word_length [of body lead rest] by auto
  then show ?case
    using strip_explain_options_length [of rest] unfolding in_measure split_conv by linarith
qed simp

declare unwrap_explains.simps [simp del]

definition write_verb_body :: "dialect \<Rightarrow> string \<Rightarrow> string" where
  "write_verb_body d sql =
     trim_right (\<lambda>c. c = CHR '';'' \<or> blank4 c) (to_lower (trim_space (redact d sql)))"

definition find_write_token :: "string \<Rightarrow> string" where
  "find_write_token body =
     (case find (has_statement_token body) write_tokens of Some tok \<Rightarrow> to_upper tok | None \<Rightarrow> [])"

definition write_verb :: "dialect \<Rightarrow> string \<Rightarrow> string" where
  "write_verb d sql =
     (case unwrap_explains (write_verb_body d sql) False of (body, explained) \<Rightarrow>
        let lead = fst (lead_word body) in
        if lead = [] then []
        else if lead \<in> set read_leads then find_write_token body
        else if explained \<and> d = MySQL \<and> \<not> is_statement_keyword lead then []
        else to_upper lead)"

section \<open>Statement tokens\<close>

text \<open>
  The specification of \<open>hasStatementToken\<close>: a whole word that is not, after blanks, followed by an
  opening parenthesis.
\<close>

definition followed_by_paren :: "string \<Rightarrow> nat \<Rightarrow> bool" where
  "followed_by_paren s e \<longleftrightarrow>
     (\<exists>n. e \<le> n \<and> n < length s \<and> s ! n = CHR ''('' \<and> (\<forall>j. e \<le> j \<and> j < n \<longrightarrow> blank4 (s ! j)))"

definition statement_token_at :: "string \<Rightarrow> string \<Rightarrow> nat \<Rightarrow> bool" where
  "statement_token_at s tok i \<longleftrightarrow>
     has_prefix (drop i s) tok \<and>
     (i = 0 \<or> \<not> is_ident_byte (s ! (i - 1))) \<and>
     (length s \<le> i + length tok \<or> \<not> is_ident_byte (s ! (i + length tok))) \<and>
     \<not> followed_by_paren s (i + length tok)"

lemma followed_by_paren_step:
  assumes "blank4 (s ! i)"
  shows "followed_by_paren s i \<longleftrightarrow> followed_by_paren s (Suc i)"
proof
  assume "followed_by_paren s i"
  then obtain n where n: "i \<le> n" "n < length s" "s ! n = CHR ''(''"
    "\<forall>j. i \<le> j \<and> j < n \<longrightarrow> blank4 (s ! j)" by (auto simp: followed_by_paren_def)
  then have "n \<noteq> i" using assms by (auto simp: blank4_def)
  with n show "followed_by_paren s (Suc i)"
    unfolding followed_by_paren_def by (intro exI [of _ n]) auto
next
  assume "followed_by_paren s (Suc i)"
  then obtain n where n: "Suc i \<le> n" "n < length s" "s ! n = CHR ''(''"
    "\<forall>j. Suc i \<le> j \<and> j < n \<longrightarrow> blank4 (s ! j)" by (auto simp: followed_by_paren_def)
  have "blank4 (s ! j)" if "i \<le> j" "j < n" for j
    using that n assms by (cases "j = i") auto
  with n show "followed_by_paren s i"
    unfolding followed_by_paren_def by (intro exI [of _ n]) auto
qed

lemma followed_by_paren_here:
  assumes "\<not> (i < length s \<and> blank4 (s ! i))"
  shows "followed_by_paren s i \<longleftrightarrow> i < length s \<and> s ! i = CHR ''(''"
proof
  assume "followed_by_paren s i"
  then obtain n where n: "i \<le> n" "n < length s" "s ! n = CHR ''(''"
    "\<forall>j. i \<le> j \<and> j < n \<longrightarrow> blank4 (s ! j)" by (auto simp: followed_by_paren_def)
  with assms have "n = i" by (metis le_less_trans le_neq_implies_less le_refl)
  with n show "i < length s \<and> s ! i = CHR ''(''" by simp
qed (auto simp: followed_by_paren_def)

lemma skip_blanks_spec:
  "skip_blanks s i < length s \<and> s ! skip_blanks s i = CHR ''('' \<longleftrightarrow> followed_by_paren s i"
proof (induction s i rule: skip_blanks.induct)
  case (1 s i)
  show ?case
  proof (cases "i < length s \<and> blank4 (s ! i)")
    case True
    with 1 show ?thesis by (simp add: skip_blanks.simps [of s i] followed_by_paren_step)
  next
    case False
    then show ?thesis by (auto simp: skip_blanks.simps [of s i] followed_by_paren_here)
  qed
qed

lemma has_statement_token_from_iff:
  assumes "tok \<noteq> []" and "from \<le> length s"
  shows "has_statement_token_from s tok from \<longleftrightarrow> (\<exists>i \<ge> from. statement_token_at s tok i)"
  using assms
proof (induction s tok "from" rule: has_statement_token_from.induct)
  case (1 s tok "from")
  show ?case
  proof (cases "index_of (drop from s) tok")
    case None
    have "\<not> statement_token_at s tok i" if "from \<le> i" for i
      using index_of_NoneD [OF None, of "i - from"] that by (simp add: statement_token_at_def)
    then show ?thesis
      by (subst has_statement_token_from.simps) (auto simp: None)
  next
    case (Some k)
    define idx where "idx = k + from"
    define bad where "bad \<longleftrightarrow> (0 < idx \<and> is_ident_byte (s ! (idx - 1))) \<or>
      (idx + length tok < length s \<and> is_ident_byte (s ! (idx + length tok))) \<or>
      followed_by_paren s (idx + length tok)"
    from Some have pre: "has_prefix (drop idx s) tok" and idx: "idx + length tok \<le> length s"
      using index_of_SomeD [OF Some] "1.prems" by (auto simp: idx_def add.commute)
    have none: "\<not> statement_token_at s tok i" if "from \<le> i" "i < idx" for i
      using index_of_least [OF Some, of "i - from"] that by (auto simp: statement_token_at_def idx_def)
    have here: "statement_token_at s tok idx \<longleftrightarrow> \<not> bad"
      using pre by (auto simp: statement_token_at_def bad_def)
    have eq: "has_statement_token_from s tok from =
        (if bad then has_statement_token_from s tok (idx + 1) else True)"
      using Some "1.prems"(1)
      by (subst has_statement_token_from.simps)
        (simp add: Let_def bad_def skip_blanks_spec flip: idx_def)
    have rec: "has_statement_token_from s tok (idx + 1) \<longleftrightarrow>
        (\<exists>i \<ge> idx + 1. statement_token_at s tok i)" if bad
    proof -
      have "idx + 1 \<le> length s" using idx "1.prems"(1) by (cases tok) auto
      note IH = "1.IH" [OF "1.prems"(1) Some idx_def refl refl _]
      show ?thesis
        using \<open>bad\<close> IH \<open>idx + 1 \<le> length s\<close> "1.prems"(1)
        unfolding bad_def skip_blanks_spec [symmetric] by blast
    qed
    show ?thesis
      unfolding ex_from_first [of "from" idx "statement_token_at s tok", OF _ none, unfolded idx_def, simplified]
      using eq rec here by (auto simp: idx_def)
  qed
qed

lemma has_statement_token_iff:
  "tok \<noteq> [] \<Longrightarrow> has_statement_token s tok \<longleftrightarrow> (\<exists>i. statement_token_at s tok i)"
  by (simp add: has_statement_token_def has_statement_token_from_iff)

section \<open>The allowlist\<close>

lemma unwrap_explains_lead:
  "unwrap_explains body e = (b, e') \<Longrightarrow> fst (lead_word b) \<noteq> ''explain''"
proof (induction body e rule: unwrap_explains.induct)
  case (1 body e)
  obtain lead rest where lw: "lead_word body = (lead, rest)" by force
  show ?case
  proof (cases "lead = ''explain''")
    case True
    then show ?thesis
      using "1.IH" [OF lw [symmetric]] "1.prems" lw by (auto simp: unwrap_explains.simps [of body e])
  next
    case False
    then show ?thesis
      using "1.prems" lw by (auto simp: unwrap_explains.simps [of body e])
  qed
qed

lemma unwrap_explains_plain:
  "fst (lead_word body) \<noteq> ''explain'' \<Longrightarrow> unwrap_explains body e = (body, e)"
  by (auto simp: unwrap_explains.simps [of body e] split: prod.split)

lemma to_upper_Nil_iff [simp]: "to_upper s = [] \<longleftrightarrow> s = []"
  by (simp add: to_upper_def)

lemma write_tokens_nonempty: "tok \<in> set write_tokens \<Longrightarrow> tok \<noteq> []"
  by (auto simp: write_tokens_def)

lemma find_write_token_Nil:
  "find_write_token body = [] \<longleftrightarrow> (\<forall>tok \<in> set write_tokens. \<forall>i. \<not> statement_token_at body tok i)"
proof -
  have "find_write_token body = [] \<longleftrightarrow> find (has_statement_token body) write_tokens = None"
  proof (cases "find (has_statement_token body) write_tokens")
    case (Some tok)
    then have "tok \<in> set write_tokens" by (metis find_Some_iff nth_mem)
    with Some show ?thesis by (simp add: find_write_token_def write_tokens_nonempty)
  qed (simp add: find_write_token_def)
  then show ?thesis
    by (auto simp: find_None_iff has_statement_token_iff write_tokens_nonempty)
qed

lemma write_verb_Nil_iff:
  "write_verb d sql = [] \<longleftrightarrow>
   (\<exists>body explained. unwrap_explains (write_verb_body d sql) False = (body, explained) \<and>
      fst (lead_word body) \<noteq> ''explain'' \<and>
      (fst (lead_word body) = [] \<or>
       fst (lead_word body) \<in> set read_leads \<and>
         (\<forall>tok \<in> set write_tokens. \<forall>i. \<not> statement_token_at body tok i) \<or>
       fst (lead_word body) \<notin> set read_leads \<and> explained \<and> d = MySQL \<and>
         \<not> is_statement_keyword (fst (lead_word body))))"
proof -
  obtain body ex where un: "unwrap_explains (write_verb_body d sql) False = (body, ex)"
    by force
  then show ?thesis
    using unwrap_explains_lead [OF un]
    by (auto simp: write_verb_def Let_def find_write_token_Nil)
qed



section \<open>Write keywords in the statement as the client wrote it\<close>

lemma lower_byte_space [simp]: "is_space c \<Longrightarrow> lower_byte c = c"
  by (auto simp: is_space_def blank4_def lower_byte_def byte_def)

lemma write_verb_body_inner:
  "\<exists>u v. to_lower (redact d sql) = u @ write_verb_body d sql @ v \<and>
     (\<forall>c \<in> set u \<union> set v. is_space c \<or> c = CHR '';'')"
proof -
  define r where "r = redact d sql"
  obtain u where u: "r = u @ trim_left is_space r" "list_all is_space u"
    using trim_left_suffix [of r is_space] by auto
  obtain v where v: "trim_left is_space r = trim_space r @ v" "list_all is_space v"
    using trim_right_prefix [of "trim_left is_space r" is_space] by (auto simp: trim_space_def)
  obtain w where w: "to_lower (trim_space r) = write_verb_body d sql @ w"
    "list_all (\<lambda>c. c = CHR '';'' \<or> blank4 c) w"
    using trim_right_prefix [of "to_lower (trim_space r)" "\<lambda>c. c = CHR '';'' \<or> blank4 c"]
    by (auto simp: write_verb_body_def r_def)
  have "to_lower r = to_lower u @ to_lower (trim_space r) @ to_lower v"
    using u(1) v(1) by (metis map_append to_lower_def)
  moreover have "to_lower x = x" if "list_all is_space x" for x
    using that by (induction x) (auto simp: to_lower_def)
  ultimately have "to_lower r = u @ write_verb_body d sql @ (w @ v)"
    using u(2) v(2) w(1) by simp
  moreover have "\<forall>c \<in> set u \<union> set (w @ v). is_space c \<or> c = CHR '';''"
    using u(2) v(2) w(2) by (auto simp: list_all_iff is_space_def)
  ultimately show ?thesis unfolding r_def by blast
qed

lemma special_not_ident_space [simp]: "\<not> is_ident_byte (CHR 0x0B)" "\<not> is_ident_byte (CHR 0x0C)"
  "\<not> is_ident_byte (CHR '';'')"
  by (simp_all add: is_ident_byte_def is_alpha_def is_digit_def byte_def)

lemma trimmed_not_ident: "is_space c \<or> c = CHR '';'' \<Longrightarrow> \<not> is_ident_byte c \<and> c \<noteq> CHR ''(''"
  by (auto simp: is_space_def blank4_def)

lemma statement_token_inner:
  assumes at: "statement_token_at (u @ b @ v) tok i"
    and outer: "\<And>c. c \<in> set u \<union> set v \<Longrightarrow> \<not> is_ident_byte c \<and> c \<noteq> CHR ''(''"
    and tok: "tok \<noteq> []" "list_all is_ident_byte tok"
  shows "statement_token_at b tok (i - length u)"
proof -
  define l where "l = u @ b @ v"
  define j where "j = i - length u"
  have pre: "has_prefix (drop i l) tok" using at by (simp add: statement_token_at_def l_def)
  have il: "i + length tok \<le> length l"
    using has_prefix_length [OF pre] tok(1) by (cases "i \<le> length l") auto
  have word: "is_ident_byte (l ! (i + k))" if "k < length tok" for k
  proof -
    have "take (length tok) (drop i l) = tok" using pre by (simp add: has_prefix_take)
    then have "l ! (i + k) = tok ! k" using that il by (metis add_leD1 nth_drop nth_take)
    then show ?thesis using tok(2) that by (simp add: list_all_length)
  qed
  have mid: "length u \<le> p \<and> p < length u + length b" if "is_ident_byte (l ! p)" "p < length l" for p
    using that outer [of "l ! p"] by (auto simp: l_def nth_append split: if_splits)
  have start: "length u \<le> i"
    using mid [OF word [of 0]] tok(1) il by (cases tok) auto
  have stop: "i + length tok \<le> length u + length b"
    using mid [OF word [of "length tok - 1"]] tok(1) il by (cases tok) auto
  have ij: "i = length u + j" using start by (simp add: j_def)
  have same: "l ! (length u + p) = b ! p" if "p < length b" for p
    using that by (simp add: l_def nth_append)
  have "has_prefix (drop j b) tok"
    using pre stop by (simp add: has_prefix_take l_def ij)
  moreover have "j = 0 \<or> \<not> is_ident_byte (b ! (j - 1))"
    using at same [of "j - 1"] stop unfolding statement_token_at_def l_def [symmetric] ij
    by (cases j) auto
  moreover have "length b \<le> j + length tok \<or> \<not> is_ident_byte (b ! (j + length tok))"
    using at same [of "j + length tok"] unfolding statement_token_at_def l_def [symmetric] ij
    by (auto simp: l_def add.assoc)
  moreover have "\<not> followed_by_paren b (j + length tok)"
  proof
    assume "followed_by_paren b (j + length tok)"
    then obtain n where n: "j + length tok \<le> n" "n < length b" "b ! n = CHR ''(''"
      "\<forall>q. j + length tok \<le> q \<and> q < n \<longrightarrow> blank4 (b ! q)" by (auto simp: followed_by_paren_def)
    have "blank4 (l ! q)" if "i + length tok \<le> q" "q < length u + n" for q
    proof -
      from that(1) have "length u \<le> q" by (simp add: ij)
      then obtain r where "q = length u + r" by (metis le_Suc_ex)
      with that n same [of r] show ?thesis by (auto simp: ij)
    qed
    then have "followed_by_paren l (i + length tok)"
      unfolding followed_by_paren_def using n same [of n]
      by (intro exI [of _ "length u + n"]) (auto simp: ij l_def)
    with at show False by (simp add: statement_token_at_def l_def)
  qed
  ultimately show ?thesis by (simp add: statement_token_at_def j_def)
qed

lemma write_tokens_ident: "tok \<in> set write_tokens \<Longrightarrow> list_all is_ident_byte tok"
  by (auto simp: write_tokens_def is_ident_byte_def is_alpha_def byte_def)

text \<open>
  Property C10: a write keyword in the code of a statement is always refused. If INSERT, UPDATE,
  DELETE, MERGE or INTO occurs anywhere in the client's text as a whole word, outside literals,
  quoted identifiers and comments, and is not a function call, then the verdict is not "only
  reads", for every statement that opens with some word other than \<open>EXPLAIN\<close>.
\<close>

theorem write_keyword_refused:
  assumes "tok \<in> set write_tokens"
    and "statement_token_at (to_lower (redact d sql)) tok i"
    and "fst (lead_word (write_verb_body d sql)) \<noteq> []"
    and "fst (lead_word (write_verb_body d sql)) \<noteq> ''explain''"
  shows "write_verb d sql \<noteq> []"
proof -
  obtain u v where uv: "to_lower (redact d sql) = u @ write_verb_body d sql @ v"
    "\<forall>c \<in> set u \<union> set v. is_space c \<or> c = CHR '';''"
    using write_verb_body_inner [of d sql] by blast
  then have "statement_token_at (write_verb_body d sql) tok (i - length u)"
    using assms(2) trimmed_not_ident write_tokens_nonempty [OF assms(1)] write_tokens_ident [OF assms(1)]
    by (intro statement_token_inner [of u "write_verb_body d sql" v]) auto
  then show ?thesis
    using assms unwrap_explains_plain [OF assms(4), of False]
    unfolding write_verb_Nil_iff by auto
qed

theorem write_keyword_refused_witness:
  "write_verb MySQL ''SELECT 1 INTO x'' \<noteq> []"
proof (rule write_keyword_refused [where tok = "''into''" and i = 9])
  show "''into'' \<in> set write_tokens" by (simp add: write_tokens_def)
  have "redact MySQL ''SELECT 1 INTO x'' = ''SELECT 1 INTO x''" by code_simp
  moreover have "to_lower ''SELECT 1 INTO x'' = ''select 1 into x''" by code_simp
  ultimately have low: "to_lower (redact MySQL ''SELECT 1 INTO x'') = ''select 1 into x''" by simp
  have "\<not> followed_by_paren ''select 1 into x'' 13"
    unfolding skip_blanks_spec [symmetric] by code_simp
  then show "statement_token_at (to_lower (redact MySQL ''SELECT 1 INTO x'')) ''into'' 9"
    unfolding low by (simp add: statement_token_at_def is_ident_byte_def is_alpha_def is_digit_def byte_def)
  show "fst (lead_word (write_verb_body MySQL ''SELECT 1 INTO x'')) \<noteq> []" by code_simp
  show "fst (lead_word (write_verb_body MySQL ''SELECT 1 INTO x'')) \<noteq> ''explain''" by code_simp
qed

section \<open>Where the text and the server disagree\<close>


end
