(* ===== verification/Redash_Registry.thy ===== *)
theory Redash_Registry
  imports Wire_Prelude
begin

text \<open>
  \<open>internal/redash/registry.go\<close>: the registry that resolves a database name to a Redash data
  source, the classification of a source by wire protocol, and the published, sorted view of the
  source list. The interface \<open>SourceRegistry\<close> of \<open>interfaces.go\<close> is the locale
  \<open>source_registry\<close>, interpreted on \<open>DataSourceRegistry\<close> and on the swappable one.
\<close>

section \<open>Definitions\<close>

record data_source =
  ds_id :: int
  ds_name :: string
  ds_type :: string

record registry =
  by_exact :: "string \<rightharpoonup> data_source"
  by_lower :: "string \<rightharpoonup> data_source"
  all_sources :: "data_source list"

text \<open>
  The construction also reads and extends the process-wide \<open>loggedCollisions\<close>; a warning is the
  lowered name with the two ids it reports.
\<close>

record registry_build =
  reg :: registry
  logged :: "string set"
  warnings :: "(string \<times> int \<times> int) list"

definition register_source :: "data_source \<Rightarrow> registry_build \<Rightarrow> registry_build" where
  "register_source ds b =
     (let r = (reg b)\<lparr>by_exact := (by_exact (reg b))(ds_name ds \<mapsto> ds)\<rparr>;
          lower = to_lower (ds_name ds) in
      case by_lower r lower of
        None \<Rightarrow> b\<lparr>reg := r\<lparr>by_lower := (by_lower r)(lower \<mapsto> ds)\<rparr>\<rparr>
      | Some existing \<Rightarrow>
          let r' = (if ds_id ds < ds_id existing
                    then r\<lparr>by_lower := (by_lower r)(lower \<mapsto> ds)\<rparr> else r) in
          if lower \<in> logged b then b\<lparr>reg := r'\<rparr>
          else b\<lparr>reg := r', logged := insert lower (logged b),
                 warnings := warnings b @ [(lower, ds_id existing, ds_id ds)]\<rparr>)"

definition build_registry :: "string set \<Rightarrow> data_source list \<Rightarrow> registry_build" where
  "build_registry seen sources =
     fold register_source sources
       \<lparr>reg = \<lparr>by_exact = Map.empty, by_lower = Map.empty, all_sources = sources\<rparr>,
        logged = seen, warnings = []\<rparr>"

definition new_registry :: "data_source list \<Rightarrow> registry" where
  "new_registry sources = reg (build_registry {} sources)"

definition registry_lookup :: "registry \<Rightarrow> string \<Rightarrow> data_source option" where
  "registry_lookup r name =
     (case by_exact r name of
        Some ds \<Rightarrow> Some ds
      | None \<Rightarrow> by_lower r (to_lower name))"

definition registry_all :: "registry \<Rightarrow> data_source list" where
  "registry_all r = all_sources r"

definition is_postgres_compatible :: "string \<Rightarrow> bool" where
  "is_postgres_compatible ty =
     (let t = to_lower ty in
      t = ''pg'' \<or> t = ''postgres'' \<or> t = ''postgresql'' \<or> t = ''redshift'' \<or>
      t = ''cockroachdb'' \<or> contains_str t ''postgres'')"

definition is_mysql_compatible :: "string \<Rightarrow> bool" where
  "is_mysql_compatible ty =
     (let t = to_lower ty in
      t = ''mysql'' \<or> t = ''rds_mysql'' \<or> t = ''aurora_mysql'' \<or> t = ''mariadb'' \<or>
      contains_str t ''mysql'')"

definition filter_by_type :: "data_source list \<Rightarrow> (string \<Rightarrow> bool) \<Rightarrow> data_source list" where
  "filter_by_type sources pred = filter (\<lambda>ds. pred (ds_type ds)) sources"

text \<open>The atomic pointer of \<open>SwappableRegistry\<close>: the registry it points to.\<close>

record swappable_registry =
  current :: registry

definition new_swappable :: "data_source list \<Rightarrow> swappable_registry" where
  "new_swappable sources = \<lparr>current = new_registry sources\<rparr>"

definition replace_registry :: "data_source list \<Rightarrow> swappable_registry \<Rightarrow> swappable_registry" where
  "replace_registry sources s = s\<lparr>current := new_registry sources\<rparr>"

definition swappable_lookup :: "swappable_registry \<Rightarrow> string \<Rightarrow> data_source option" where
  "swappable_lookup s name = registry_lookup (current s) name"

definition swappable_all :: "swappable_registry \<Rightarrow> data_source list" where
  "swappable_all s = registry_all (current s)"

definition wire_protocol :: "string \<Rightarrow> string" where
  "wire_protocol ty =
     (if is_postgres_compatible ty then ''postgres''
      else if is_mysql_compatible ty then ''mysql''
      else '''')"

record data_source_view =
  v_id :: int
  v_name :: string
  v_type :: string
  v_wire :: string

definition view_of :: "data_source \<Rightarrow> data_source_view" where
  "view_of ds = \<lparr>v_id = ds_id ds, v_name = ds_name ds, v_type = ds_type ds,
                 v_wire = wire_protocol (ds_type ds)\<rparr>"

text \<open>
  \<open>sort.Slice\<close> leaves the order of views with the same lowered name and the same id open; the
  model keeps their input order.
\<close>

definition view_key :: "data_source_view \<Rightarrow> string \<times> int" where
  "view_key v = (to_lower (v_name v), v_id v)"

definition data_source_views :: "data_source list \<Rightarrow> data_source_view list" where
  "data_source_views sources = sort_key view_key (map view_of sources)"

section \<open>What the maps hold\<close>

definition lower_matches :: "data_source list \<Rightarrow> string \<Rightarrow> data_source list" where
  "lower_matches sources l = filter (\<lambda>ds. to_lower (ds_name ds) = l) sources"

text \<open>The last source of that very name, and the first one of least id among the case variants.\<close>

definition exact_spec :: "data_source list \<Rightarrow> string \<Rightarrow> data_source option" where
  "exact_spec sources name = find (\<lambda>ds. ds_name ds = name) (rev sources)"

fun least_id :: "data_source list \<Rightarrow> data_source option" where
  "least_id [] = None"
| "least_id (ds # xs) =
     (case least_id xs of None \<Rightarrow> Some ds | Some e \<Rightarrow> Some (if ds_id e < ds_id ds then e else ds))"

lemma least_id_append1:
  "least_id (xs @ [ds]) =
   (case least_id xs of None \<Rightarrow> Some ds | Some e \<Rightarrow> Some (if ds_id ds < ds_id e then ds else e))"
  by (induction xs) (auto split: option.splits)

lemma least_id_None [simp]: "least_id xs = None \<longleftrightarrow> xs = []"
  by (cases xs) (auto split: option.splits)

lemma least_id_Some: "least_id xs = Some ds \<Longrightarrow> ds \<in> set xs \<and> (\<forall>e \<in> set xs. ds_id ds \<le> ds_id e)"
  by (induction xs arbitrary: ds) (force split: option.splits if_splits)+

lemma register_source_maps:
  "by_exact (reg (register_source ds b)) = (by_exact (reg b))(ds_name ds \<mapsto> ds)"
  "by_lower (reg (register_source ds b)) = (by_lower (reg b))(to_lower (ds_name ds) \<mapsto>
     (case by_lower (reg b) (to_lower (ds_name ds)) of
        None \<Rightarrow> ds | Some e \<Rightarrow> if ds_id ds < ds_id e then ds else e))"
  "all_sources (reg (register_source ds b)) = all_sources (reg b)"
  by (auto simp: register_source_def Let_def split: option.split)

lemma build_fold_maps:
  fixes b0 :: registry_build
  assumes "by_exact (reg b0) = Map.empty" and "by_lower (reg b0) = Map.empty"
  shows "by_exact (reg (fold register_source xs b0)) = exact_spec xs \<and>
    by_lower (reg (fold register_source xs b0)) = (\<lambda>l. least_id (lower_matches xs l)) \<and>
    all_sources (reg (fold register_source xs b0)) = all_sources (reg b0)"
proof (induction xs rule: rev_induct)
  case Nil
  then show ?case
    using assms by (auto simp: exact_spec_def lower_matches_def)
next
  case (snoc ds xs)
  then show ?case
    by (auto simp: register_source_maps exact_spec_def lower_matches_def least_id_append1 fun_eq_iff
        split: option.splits)
qed

lemma new_registry_maps:
  "by_exact (new_registry xs) = exact_spec xs"
  "by_lower (new_registry xs) = (\<lambda>l. least_id (lower_matches xs l))"
  "all_sources (new_registry xs) = xs"
  using build_fold_maps [of "\<lparr>reg = \<lparr>by_exact = Map.empty, by_lower = Map.empty, all_sources = xs\<rparr>,
        logged = {}, warnings = []\<rparr>" xs]
  by (simp_all add: new_registry_def build_registry_def)

lemma exact_spec_Some:
  "exact_spec xs name = Some ds \<Longrightarrow> ds \<in> set xs \<and> ds_name ds = name"
  by (auto simp: exact_spec_def find_Some_iff) (metis length_rev nth_mem set_rev)

lemma exact_spec_None: "exact_spec xs name = None \<longleftrightarrow> (\<forall>ds \<in> set xs. ds_name ds \<noteq> name)"
  by (auto simp: exact_spec_def find_None_iff)

section \<open>The interface of a registry\<close>

text \<open>
  What a session relies on: a name resolves to an offered source whose name is that name up to
  case, an offered name always resolves, and a source of exactly that name wins over the others.
  \<open>built\<close> holds of the registries the constructors make.
\<close>

locale source_registry =
  fixes lookup :: "'r \<Rightarrow> string \<Rightarrow> data_source option"
    and offered :: "'r \<Rightarrow> data_source list"
    and built :: "'r \<Rightarrow> bool"
  assumes lookup_member: "built r \<Longrightarrow> lookup r n = Some ds \<Longrightarrow>
      ds \<in> set (offered r) \<and> to_lower (ds_name ds) = to_lower n"
    and lookup_total: "built r \<Longrightarrow> ds \<in> set (offered r) \<Longrightarrow> to_lower (ds_name ds) = to_lower n \<Longrightarrow>
      lookup r n \<noteq> None"
    and lookup_exact: "built r \<Longrightarrow> ds \<in> set (offered r) \<Longrightarrow> ds_name ds = n \<Longrightarrow>
      lookup r n = Some e \<Longrightarrow> ds_name e = n"
begin

lemma resolved_is_listed:
  "built r \<Longrightarrow> lookup r n = Some ds \<Longrightarrow> p (ds_type ds) \<Longrightarrow> ds \<in> set (filter_by_type (offered r) p)"
  by (auto simp: filter_by_type_def dest: lookup_member)

lemma listed_resolves:
  assumes "built r" and "ds \<in> set (filter_by_type (offered r) p)"
  shows "\<exists>e. lookup r (ds_name ds) = Some e \<and> ds_name e = ds_name ds"
proof -
  have ds: "ds \<in> set (offered r)" using assms(2) by (simp add: filter_by_type_def)
  obtain e where e: "lookup r (ds_name ds) = Some e"
    using lookup_total [OF assms(1) ds refl] by blast
  show ?thesis by (intro exI [of _ e] conjI e lookup_exact [OF assms(1) ds refl e])
qed

lemma unresolved_iff:
  assumes "built r"
  shows "lookup r n = None \<longleftrightarrow> (\<forall>ds \<in> set (offered r). to_lower (ds_name ds) \<noteq> to_lower n)"
proof (cases "lookup r n")
  case None
  with lookup_total [OF assms] show ?thesis by blast
next
  case (Some ds)
  with lookup_member [OF assms Some] show ?thesis by auto
qed

end

lemma lookup_new_registry:
  "registry_lookup (new_registry xs) n =
   (case exact_spec xs n of Some ds \<Rightarrow> Some ds
    | None \<Rightarrow> least_id (lower_matches xs (to_lower n)))"
  unfolding registry_lookup_def new_registry_maps by (rule refl)

lemma lookup_new_registry_member:
  "registry_lookup (new_registry xs) n = Some ds \<Longrightarrow>
   ds \<in> set xs \<and> to_lower (ds_name ds) = to_lower n"
  by (auto simp: lookup_new_registry lower_matches_def dest: exact_spec_Some least_id_Some
      split: option.splits)

lemma lookup_new_registry_total:
  "ds \<in> set xs \<Longrightarrow> to_lower (ds_name ds) = to_lower n \<Longrightarrow> registry_lookup (new_registry xs) n \<noteq> None"
  by (auto simp: lookup_new_registry lower_matches_def filter_empty_conv
      simp del: not_None_eq split: option.split)

lemma lookup_new_registry_exact:
  "ds \<in> set xs \<Longrightarrow> ds_name ds = n \<Longrightarrow> registry_lookup (new_registry xs) n = Some e \<Longrightarrow> ds_name e = n"
  by (auto simp: lookup_new_registry exact_spec_None dest: exact_spec_Some split: option.splits)

lemma registry_all_new [simp]: "registry_all (new_registry xs) = xs"
  by (simp add: registry_all_def new_registry_maps)

interpretation fixed_reg: source_registry registry_lookup registry_all "\<lambda>r. \<exists>xs. r = new_registry xs"
  by unfold_locales
    (auto dest: lookup_new_registry_member lookup_new_registry_total lookup_new_registry_exact)

interpretation swap_reg: source_registry swappable_lookup swappable_all
  "\<lambda>s. \<exists>xs. current s = new_registry xs"
  by unfold_locales
    (auto simp: swappable_lookup_def swappable_all_def
      dest: lookup_new_registry_member lookup_new_registry_total lookup_new_registry_exact)

section \<open>Resolution\<close>

text \<open>
  Property C30: a name resolves to a source Redash listed whose name is the requested one up to
  case: to one of exactly that name when there is one, and otherwise to the source of least id
  among the case variants. It does not resolve exactly when no listed name matches up to case.
\<close>

theorem registry_lookup_spec:
  "case registry_lookup (new_registry xs) n of
     None \<Rightarrow> (\<forall>ds \<in> set xs. to_lower (ds_name ds) \<noteq> to_lower n)
   | Some ds \<Rightarrow> ds \<in> set xs \<and> to_lower (ds_name ds) = to_lower n \<and>
       (if n \<in> ds_name ` set xs then ds_name ds = n
        else \<forall>e \<in> set xs. to_lower (ds_name e) = to_lower n \<longrightarrow> ds_id ds \<le> ds_id e)"
proof (cases "registry_lookup (new_registry xs) n")
  case None
  then show ?thesis using fixed_reg.unresolved_iff [of "new_registry xs" n] by auto
next
  case (Some ds)
  show ?thesis
  proof (cases "n \<in> ds_name ` set xs")
    case True
    then obtain d where d: "d \<in> set xs" "ds_name d = n" by auto
    with Some True show ?thesis
      using lookup_new_registry_member [OF Some] lookup_new_registry_exact [OF d Some] by simp
  next
    case False
    then have "exact_spec xs n = None" by (auto simp: exact_spec_None)
    with Some have "least_id (lower_matches xs (to_lower n)) = Some ds"
      by (simp add: lookup_new_registry)
    with Some False show ?thesis
      by (auto simp: lower_matches_def dest!: least_id_Some)
  qed
qed

theorem registry_lookup_spec_witness:
  "registry_lookup (new_registry
     [\<lparr>ds_id = 7, ds_name = ''Prod'', ds_type = ''pg''\<rparr>,
      \<lparr>ds_id = 3, ds_name = ''PROD'', ds_type = ''pg''\<rparr>]) ''prod'' =
   Some \<lparr>ds_id = 3, ds_name = ''PROD'', ds_type = ''pg''\<rparr> \<and>
   (case registry_lookup (new_registry
     [\<lparr>ds_id = 7, ds_name = ''Prod'', ds_type = ''pg''\<rparr>,
      \<lparr>ds_id = 3, ds_name = ''PROD'', ds_type = ''pg''\<rparr>]) ''prod'' of
      None \<Rightarrow> False | Some ds \<Rightarrow> to_lower (ds_name ds) = to_lower ''prod'')"
proof -
  let ?xs = "[\<lparr>ds_id = 7, ds_name = ''Prod'', ds_type = ''pg''\<rparr>,
      \<lparr>ds_id = 3, ds_name = ''PROD'', ds_type = ''pg''\<rparr>]"
  have eval: "registry_lookup (new_registry ?xs) ''prod'' =
      Some \<lparr>ds_id = 3, ds_name = ''PROD'', ds_type = ''pg''\<rparr>"
    by code_simp
  show ?thesis
    using registry_lookup_spec [of ?xs "''prod''"] unfolding eval by simp
qed

lemma exact_spec_unique:
  assumes "ds \<in> set xs" and "ds_name ds = n" and "distinct (map ds_name xs)"
  shows "exact_spec xs n = Some ds"
proof (cases "exact_spec xs n")
  case None
  with assms show ?thesis by (simp add: exact_spec_None)
next
  case (Some e)
  with assms exact_spec_Some [OF Some] show ?thesis
    by (metis distinct_map inj_on_eq_iff)
qed

lemma least_id_unique:
  assumes "mset xs = mset ys" and "distinct (map ds_id xs)"
  shows "least_id xs = least_id ys"
proof (cases "least_id xs")
  case None
  with assms show ?thesis by simp
next
  case (Some a)
  with assms obtain b where b: "least_id ys = Some b" by (cases "least_id ys") auto
  have "set xs = set ys" using assms(1) by (rule mset_eq_setD)
  with least_id_Some [OF Some] least_id_Some [OF b] have "a \<in> set xs" "b \<in> set xs" "ds_id a = ds_id b"
    by (auto intro: order_antisym)
  with assms(2) Some b show ?thesis by (metis distinct_map inj_on_eq_iff)
qed

text \<open>
  What a name resolves to does not depend on the order in which Redash lists its
  sources, as long as their ids and their names are distinct: two refreshes that return the same
  sources in another order resolve every name alike.
\<close>

theorem registry_lookup_order:
  assumes "mset xs = mset ys" and "distinct (map ds_id xs)" and "distinct (map ds_name xs)"
  shows "registry_lookup (new_registry xs) n = registry_lookup (new_registry ys) n"
proof -
  have set: "set xs = set ys" using assms(1) by (rule mset_eq_setD)
  have names: "distinct (map ds_name ys)"
    using assms(1,3) by (metis mset_eq_imp_distinct_iff mset_map)
  have "exact_spec xs n = exact_spec ys n"
  proof (cases "\<exists>ds \<in> set xs. ds_name ds = n")
    case True
    with set assms(3) names show ?thesis by (metis exact_spec_unique)
  next
    case False
    with set show ?thesis by (metis exact_spec_None)
  qed
  moreover have "mset (lower_matches xs l) = mset (lower_matches ys l)" for l
    using assms(1) by (simp add: lower_matches_def)
  moreover have "distinct (map ds_id (lower_matches xs l))" for l
    using assms(2) by (simp add: lower_matches_def distinct_map_filter)
  ultimately show ?thesis
    using least_id_unique [of "lower_matches xs (to_lower n)" "lower_matches ys (to_lower n)"]
    by (simp add: lookup_new_registry split: option.split)
qed

theorem registry_lookup_order_witness:
  "registry_lookup (new_registry
     [\<lparr>ds_id = 7, ds_name = ''Prod'', ds_type = ''pg''\<rparr>,
      \<lparr>ds_id = 3, ds_name = ''prod'', ds_type = ''pg''\<rparr>]) ''PROD'' =
   registry_lookup (new_registry
     [\<lparr>ds_id = 3, ds_name = ''prod'', ds_type = ''pg''\<rparr>,
      \<lparr>ds_id = 7, ds_name = ''Prod'', ds_type = ''pg''\<rparr>]) ''PROD''"
  by (rule registry_lookup_order) simp_all

section \<open>The published view\<close>

lemma wire_protocol_values: "wire_protocol ty \<in> {''postgres'', ''mysql'', ''''}"
  by (simp add: wire_protocol_def)

text \<open>
  The published list has one view per source, in ascending order of the lowered name
  and then of the id, and a view names the wire protocol of its source: \<open>postgres\<close>, \<open>mysql\<close>
  or none. Two refreshes that list the same sources in different orders publish the same list, when
  no two of them share both name (up to case) and id.
\<close>

theorem data_source_views_canonical:
  assumes "mset xs = mset ys" and "distinct (map (\<lambda>ds. (to_lower (ds_name ds), ds_id ds)) xs)"
  shows "data_source_views xs = data_source_views ys \<and>
    sorted (map (\<lambda>v. (to_lower (v_name v), v_id v)) (data_source_views xs)) \<and>
    mset (data_source_views xs) = mset (map view_of xs) \<and>
    (\<forall>v \<in> set (data_source_views xs). v_wire v \<in> {''postgres'', ''mysql'', ''''})"
proof -
  let ?k = "\<lambda>ds. (to_lower (ds_name ds), ds_id ds)"
  have key: "view_key \<circ> view_of = ?k" by (auto simp: view_key_def view_of_def)
  have "mset (map view_of xs) = mset (map view_of ys)" using assms(1) by simp
  moreover have "distinct (map view_key (map view_of xs))" using assms(2) by (simp add: key)
  then have "inj_on view_key (set (map view_of xs))" by (rule distinct_map [THEN iffD1, THEN conjunct2])
  ultimately have "data_source_views xs = data_source_views ys"
    unfolding data_source_views_def by (rule sort_key_eq_sort_key)
  moreover have "sorted (map view_key (data_source_views xs))"
    by (simp add: data_source_views_def)
  moreover have "view_key = (\<lambda>v. (to_lower (v_name v), v_id v))"
    by (auto simp: view_key_def)
  moreover have "\<forall>v \<in> set (data_source_views xs). v_wire v \<in> {''postgres'', ''mysql'', ''''}"
    using wire_protocol_values by (auto simp: data_source_views_def view_of_def)
  moreover have "mset (data_source_views xs) = mset (map view_of xs)"
    by (simp add: data_source_views_def)
  ultimately show ?thesis by simp
qed

theorem data_source_views_canonical_witness:
  "data_source_views [\<lparr>ds_id = 7, ds_name = ''b'', ds_type = ''pg''\<rparr>, \<lparr>ds_id = 3, ds_name = ''A'', ds_type = ''mysql''\<rparr>] =
   data_source_views [\<lparr>ds_id = 3, ds_name = ''A'', ds_type = ''mysql''\<rparr>, \<lparr>ds_id = 7, ds_name = ''b'', ds_type = ''pg''\<rparr>]"
  by (rule data_source_views_canonical [THEN conjunct1]) simp_all

end
