(* ===== verification/Redash_Types.thy ===== *)
theory Redash_Types
  imports Wire_Prelude
begin

text \<open>
  The data that \<open>internal/redash\<close> exchanges with the rest of the program: the errors a call can
  return, JSON values and the decoding of the structs of \<open>client.go\<close> from them, query results and
  schemas. An answer of Redash is the JSON value it parses to; \<open>encoding/json\<close> is modelled on
  values from there on: a struct field takes the last member whose key matches it up to case,
  \<open>null\<close> leaves a string or an integer at its zero value and makes a pointer or a substr nil, and a
  value of another type is an error.
\<close>

section \<open>Errors\<close>

text \<open>
  The errors the program tells apart by \<open>errors.As\<close> and \<open>errors.Is\<close>; \<open>Wrapped\<close> is
  \<open>fmt.Errorf("prefix: %w", err)\<close>, whose chain both functions walk.
\<close>

datatype go_error =
    HttpError (status_code: int) (message: string)
  | QueryError string
  | Canceled
  | DeadlineExceeded
  | ResultTooLarge
  | Plain string
  | Wrapped string go_error

fun error_text :: "go_error \<Rightarrow> string" where
  "error_text (HttpError s m) = m"
| "error_text (QueryError m) = m"
| "error_text Canceled = ''context canceled''"
| "error_text DeadlineExceeded = ''context deadline exceeded''"
| "error_text ResultTooLarge = ''query result exceeds the maximum allowed size''"
| "error_text (Plain m) = m"
| "error_text (Wrapped p e) = p @ '': '' @ error_text e"

text \<open>\<open>HTTPStatus\<close>.\<close>

fun http_status :: "go_error \<Rightarrow> int option" where
  "http_status (HttpError s m) = Some s"
| "http_status (Wrapped p e) = http_status e"
| "http_status e = None"

definition is_fatal_status :: "int \<Rightarrow> bool" where
  "is_fatal_status code = (code = 401 \<or> code = 403 \<or> code = 404)"

text \<open>\<open>errors.As(err, &qe)\<close>, and \<open>errors.Is\<close> with the two context errors.\<close>

fun as_query_error :: "go_error \<Rightarrow> string option" where
  "as_query_error (QueryError m) = Some m"
| "as_query_error (Wrapped p e) = as_query_error e"
| "as_query_error e = None"

fun is_canceled :: "go_error \<Rightarrow> bool" where
  "is_canceled Canceled = True"
| "is_canceled (Wrapped p e) = is_canceled e"
| "is_canceled e = False"

fun is_deadline :: "go_error \<Rightarrow> bool" where
  "is_deadline DeadlineExceeded = True"
| "is_deadline (Wrapped p e) = is_deadline e"
| "is_deadline e = False"

text \<open>An error chain ends in one error: it cannot be both a query error and a context error.\<close>

lemma error_kinds_exclusive:
  "as_query_error e = Some m \<Longrightarrow> \<not> is_canceled e \<and> \<not> is_deadline e \<and> http_status e = None"
  "http_status e = Some s \<Longrightarrow> as_query_error e = None \<and> \<not> is_canceled e \<and> \<not> is_deadline e"
  by (induction e) auto

section \<open>JSON values\<close>

text \<open>A number is kept as its literal, as \<open>Decoder.UseNumber\<close> does.\<close>

datatype json =
    JNull
  | JBool bool
  | JNum string
  | JStr string
  | JArr "json list"
  | JObj "(string \<times> json) list"

definition member :: "string \<Rightarrow> (string \<times> json) list \<Rightarrow> json option" where
  "member name kvs = map_option snd (find (\<lambda>(k, v). equal_fold k name) (rev kvs))"

text \<open>Decoding into a \<open>string\<close>, an \<open>int\<close> and an array; \<open>None\<close> is an unmarshalling error.\<close>

fun digits_value :: "int \<Rightarrow> string \<Rightarrow> int option" where
  "digits_value acc [] = Some acc"
| "digits_value acc (c # s) =
     (if is_digit c then digits_value (acc * 10 + int (byte c - 48)) s else None)"

definition parse_int :: "string \<Rightarrow> int option" where
  "parse_int s =
     (case s of
        [] \<Rightarrow> None
      | c # r \<Rightarrow>
          if c = CHR ''-'' then
            (if r = [] then None
             else case digits_value 0 r of None \<Rightarrow> None
               | Some n \<Rightarrow> if n \<le> 2 ^ 63 then Some (- n) else None)
          else case digits_value 0 s of None \<Rightarrow> None
               | Some n \<Rightarrow> if n < 2 ^ 63 then Some n else None)"

lemma digits_value_snoc:
  "digits_value acc (s @ [c]) =
    (case digits_value acc s of None \<Rightarrow> None | Some v \<Rightarrow> if is_digit c then Some (v * 10 + int (byte c - 48)) else None)"
  by (induction acc s rule: digits_value.induct) auto

lemma digits_value_nat: "digits_value 0 (nat_to_string n) = Some (int n)"
proof (induction n rule: nat_to_string.induct)
  case (1 n)
  have d: "is_digit (digit_char d) \<and> byte (digit_char d) = 48 + d" if "d < 10" for d
    using that by (simp add: is_digit_def digit_char_def byte_char_of)
  have "int (n div 10) * 10 + int (n mod 10) = int n" by presburger
  with 1 d [of n] d [of "n mod 10"] show ?case by (subst nat_to_string.simps) (simp add: digits_value_snoc)
qed

definition decode_string :: "json option \<Rightarrow> string option" where
  "decode_string v =
     (case v of None \<Rightarrow> Some [] | Some JNull \<Rightarrow> Some [] | Some (JStr s) \<Rightarrow> Some s | _ \<Rightarrow> None)"

definition decode_int :: "json option \<Rightarrow> int option" where
  "decode_int v =
     (case v of None \<Rightarrow> Some 0 | Some JNull \<Rightarrow> Some 0 | Some (JNum n) \<Rightarrow> parse_int n | _ \<Rightarrow> None)"

text \<open>A pointer to an \<open>int\<close>: the outer \<open>None\<close> is the error, the inner one nil.\<close>

definition decode_int_ptr :: "json option \<Rightarrow> int option option" where
  "decode_int_ptr v =
     (case v of None \<Rightarrow> Some None | Some JNull \<Rightarrow> Some None
      | Some (JNum n) \<Rightarrow> map_option Some (parse_int n) | _ \<Rightarrow> None)"

fun decode_all :: "(json \<Rightarrow> 'a option) \<Rightarrow> json list \<Rightarrow> 'a list option" where
  "decode_all f [] = Some []"
| "decode_all f (x # xs) =
     (case f x of None \<Rightarrow> None | Some y \<Rightarrow> map_option (\<lambda>ys. y # ys) (decode_all f xs))"

text \<open>A substr: the inner \<open>None\<close> is the nil substr of an absent or null member.\<close>

definition decode_slice :: "(json \<Rightarrow> 'a option) \<Rightarrow> json option \<Rightarrow> 'a list option option" where
  "decode_slice f v =
     (case v of None \<Rightarrow> Some None | Some JNull \<Rightarrow> Some None
      | Some (JArr xs) \<Rightarrow> map_option Some (decode_all f xs) | _ \<Rightarrow> None)"

definition decode_struct :: "((string \<times> json) list \<Rightarrow> 'a option) \<Rightarrow> json \<Rightarrow> 'a option" where
  "decode_struct f v = (case v of JObj kvs \<Rightarrow> f kvs | JNull \<Rightarrow> f [] | _ \<Rightarrow> None)"

lemma decode_all_length: "decode_all f xs = Some ys \<Longrightarrow> length ys = length xs"
  by (induction xs arbitrary: ys) (auto split: option.splits)

lemma decode_all_nth: "decode_all f xs = Some ys \<Longrightarrow> i < length xs \<Longrightarrow> f (xs ! i) = Some (ys ! i)"
proof (induction xs arbitrary: ys i)
  case (Cons x xs)
  then show ?case by (cases i) (auto split: option.splits)
qed simp

lemma decode_all_iff: "decode_all f xs = Some ys \<longleftrightarrow> map f xs = map Some ys"
proof (induction xs arbitrary: ys)
  case (Cons x xs)
  then show ?case by (cases ys) (auto split: option.splits)
qed auto

section \<open>Results and schemas\<close>

record column =
  col_name :: string
  friendly_name :: string
  col_type :: string

text \<open>A row is the Go map from a column name to the decoded value.\<close>

record query_result =
  columns :: "column list"
  rows :: "(string \<rightharpoonup> json) list"

definition empty_result :: query_result where
  "empty_result = \<lparr>columns = [], rows = []\<rparr>"

record schema_column =
  sc_name :: string
  sc_type :: string
  sc_comment :: string

record schema_table =
  st_name :: string
  st_columns :: "schema_column list"

text \<open>
  \<open>toSchemaTable\<close>: a column is a bare name or an object; anything else, and an object with a member
  of the wrong type, is skipped. \<open>null\<close> decodes into a string without error.
\<close>

definition decode_schema_column :: "json \<Rightarrow> schema_column option" where
  "decode_schema_column v =
     (case decode_string (Some v) of
        Some s \<Rightarrow> Some \<lparr>sc_name = s, sc_type = [], sc_comment = []\<rparr>
      | None \<Rightarrow>
          (case v of
             JObj kvs \<Rightarrow>
               (case (decode_string (member ''name'' kvs), decode_string (member ''type'' kvs),
                      decode_string (member ''description'' kvs)) of
                  (Some n, Some t, Some d) \<Rightarrow> Some \<lparr>sc_name = n, sc_type = t, sc_comment = d\<rparr>
                | _ \<Rightarrow> None)
           | _ \<Rightarrow> None))"

record schema_table_raw =
  raw_name :: string
  raw_columns :: "json list"

definition decode_table_raw :: "json \<Rightarrow> schema_table_raw option" where
  "decode_table_raw = decode_struct (\<lambda>kvs.
     case (decode_string (member ''name'' kvs), decode_slice Some (member ''columns'' kvs)) of
       (Some n, Some cs) \<Rightarrow> Some \<lparr>raw_name = n, raw_columns = (case cs of None \<Rightarrow> [] | Some xs \<Rightarrow> xs)\<rparr>
     | _ \<Rightarrow> None)"

definition to_schema_table :: "schema_table_raw \<Rightarrow> schema_table" where
  "to_schema_table r =
     \<lparr>st_name = raw_name r,
      st_columns = List.map_filter decode_schema_column (raw_columns r)\<rparr>"

section \<open>The registry's data sources on the wire\<close>

text \<open>The columns of a decoded result, and its rows.\<close>

definition decode_column :: "json \<Rightarrow> column option" where
  "decode_column = decode_struct (\<lambda>kvs.
     case (decode_string (member ''name'' kvs), decode_string (member ''friendly_name'' kvs),
           decode_string (member ''type'' kvs)) of
       (Some n, Some f, Some t) \<Rightarrow> Some \<lparr>col_name = n, friendly_name = f, col_type = t\<rparr>
     | _ \<Rightarrow> None)"

definition decode_row :: "json \<Rightarrow> (string \<rightharpoonup> json) option" where
  "decode_row v = (case v of JObj kvs \<Rightarrow> Some (map_of (rev kvs)) | JNull \<Rightarrow> Some Map.empty | _ \<Rightarrow> None)"

section \<open>Encoding\<close>

text \<open>\<open>json.Marshal\<close> on a string; bytes from 128 up are left as they are.\<close>

definition json_escape :: "char \<Rightarrow> string" where
  "json_escape c =
     (if c = CHR 0x22 \<or> c = CHR 0x5C then [CHR 0x5C, c]
      else if c = CHR 0x08 then [CHR 0x5C, CHR ''b'']
      else if c = CHR 0x0C then [CHR 0x5C, CHR ''f'']
      else if c = CHR 0x0A then [CHR 0x5C, CHR ''n'']
      else if c = CHR 0x0D then [CHR 0x5C, CHR ''r'']
      else if c = CHR 0x09 then [CHR 0x5C, CHR ''t'']
      else if byte c < 32 \<or> c = CHR ''<'' \<or> c = CHR ''>'' \<or> c = CHR ''&'' then
        [CHR 0x5C, CHR ''u'', CHR ''0'', CHR ''0'', hex_digit (byte c div 16), hex_digit (byte c mod 16)]
      else [c])"

definition json_string :: "string \<Rightarrow> string" where
  "json_string s = [CHR 0x22] @ concat (map json_escape s) @ [CHR 0x22]"

text \<open>\<open>json.Marshal\<close> on a decoded value: the members of an object are those of a Go map, sorted by key.\<close>

fun last_members :: "(string \<times> 'a) list \<Rightarrow> (string \<times> 'a) list" where
  "last_members [] = []"
| "last_members ((k, v) # kvs) =
     (if k \<in> fst ` set kvs then last_members kvs else (k, v) # last_members kvs)"

definition encode_member :: "string \<times> string \<Rightarrow> string" where
  "encode_member kv = json_string (fst kv) @ '':'' @ snd kv"

fun json_marshal :: "json \<Rightarrow> string" where
  "json_marshal JNull = ''null''"
| "json_marshal (JBool b) = (if b then ''true'' else ''false'')"
| "json_marshal (JNum n) = n"
| "json_marshal (JStr s) = json_string s"
| "json_marshal (JArr xs) = ''['' @ join_with '','' (map json_marshal xs) @ '']''"
| "json_marshal (JObj kvs) =
     ''{'' @ join_with '',''
       (map encode_member (sort_key fst (last_members (map (\<lambda>(k, v). (k, json_marshal v)) kvs)))) @ ''}''"

end
