(* ===== verification/Schema_Cache.thy ===== *)
theory Schema_Cache
  imports Redash_Types
begin

text \<open>
  \<open>internal/redash/schema_cache.go\<close>: the memo of a data source's schema that both wire servers
  keep per session. \<open>fetch\<close> is the argument of \<open>Get\<close>, a step on the state of the world; the
  mutex makes each operation one atomic step.
\<close>

section \<open>Definitions\<close>

definition max_schema_fetch_attempts :: nat where
  "max_schema_fetch_attempts = 3"

record 'a schema_cache =
  ready :: bool
  attempts :: nat
  schema :: 'a

definition new_schema_cache :: "'a list schema_cache" where
  "new_schema_cache = \<lparr>ready = False, attempts = 0, schema = []\<rparr>"

definition cache_get ::
  "('w \<Rightarrow> (go_error + 'a list) \<times> 'w) \<Rightarrow> 'a list schema_cache \<times> 'w \<Rightarrow>
   (go_error + 'a list) \<times> 'a list schema_cache \<times> 'w" where
  "cache_get fetch cw =
     (let (c, w) = cw in
      if ready c then (Inr (schema c), c, w)
      else if attempts c \<ge> max_schema_fetch_attempts then (Inr [], c, w)
      else
        let c1 = c\<lparr>attempts := attempts c + 1\<rparr>;
            (res, w1) = fetch w in
        (case res of
           Inl err \<Rightarrow> (Inl err, c1, w1)
         | Inr tables \<Rightarrow> (Inr tables, c1\<lparr>schema := tables, ready := True\<rparr>, w1)))"

definition cache_reset :: "'a list schema_cache \<Rightarrow> 'a list schema_cache" where
  "cache_reset c = c\<lparr>ready := False, attempts := 0, schema := []\<rparr>"

section \<open>The contract of a memo\<close>

text \<open>
  What both sessions rely on, for a cache of any shape: a call answers from the memo without
  touching the world, or gives up without touching it, or makes exactly one fetch and spends a unit
  of a budget that only a reset restores.
\<close>

datatype 'a memo_view = Known 'a | Budget nat

locale memo =
  fixes get :: "('w \<Rightarrow> ('e + 'a) \<times> 'w) \<Rightarrow> 'c \<times> 'w \<Rightarrow> ('e + 'a) \<times> 'c \<times> 'w"
    and reset :: "'c \<Rightarrow> 'c"
    and view :: "'c \<Rightarrow> 'a memo_view"
    and fallback :: 'a
    and limit :: nat
  assumes get_known: "view c = Known x \<Longrightarrow> get f (c, w) = (Inr x, c, w)"
    and get_spent: "view c = Budget 0 \<Longrightarrow> get f (c, w) = (Inr fallback, c, w)"
    and get_fetch: "view c = Budget (Suc n) \<Longrightarrow> f w = (res, w') \<Longrightarrow>
      \<exists>c'. get f (c, w) = (res, c', w') \<and>
        view c' = (case res of Inl e \<Rightarrow> Budget n | Inr x \<Rightarrow> Known x)"
    and reset_view: "view (reset c) = Budget limit"
begin

text \<open>A run of \<open>Get\<close>s: the results in order, and the cache and the world they leave.\<close>

fun gets :: "('w \<Rightarrow> ('e + 'a) \<times> 'w) \<Rightarrow> nat \<Rightarrow> 'c \<times> 'w \<Rightarrow> ('e + 'a) list \<times> 'c \<times> 'w" where
  "gets f 0 cw = ([], cw)"
| "gets f (Suc n) cw =
     (let (r, cw1) = get f cw; (rs, cw2) = gets f n cw1 in (r # rs, cw2))"

lemma gets_known: "view c = Known x \<Longrightarrow> gets f n (c, w) = (replicate n (Inr x), c, w)"
  by (induction n) (simp_all add: get_known)

lemma gets_spent: "view c = Budget 0 \<Longrightarrow> gets f n (c, w) = (replicate n (Inr fallback), c, w)"
  by (induction n) (simp_all add: get_spent)

text \<open>The outcome of the \<open>i\<close>th fetch from a world, and the world after \<open>i\<close> of them.\<close>

definition after :: "('w \<Rightarrow> ('e + 'a) \<times> 'w) \<Rightarrow> nat \<Rightarrow> 'w \<Rightarrow> 'w" where
  "after f i w = ((\<lambda>w. snd (f w)) ^^ i) w"

definition outcome :: "('w \<Rightarrow> ('e + 'a) \<times> 'w) \<Rightarrow> 'w \<Rightarrow> nat \<Rightarrow> 'e + 'a" where
  "outcome f w i = fst (f (after f i w))"

lemma after_0 [simp]: "after f 0 w = w"
  by (simp add: after_def)

lemma after_Suc: "f w = (r, w') \<Longrightarrow> after f (Suc i) w = after f i w'"
  by (simp add: after_def funpow_Suc_right del: funpow.simps)

lemma outcome_0: "f w = (r, w') \<Longrightarrow> outcome f w 0 = r"
  by (simp add: outcome_def)

lemma outcome_Suc: "f w = (r, w') \<Longrightarrow> outcome f w (Suc i) = outcome f w' i"
  by (simp add: outcome_def after_Suc)

text \<open>The first success among the fetches the budget allows is what every later call returns.\<close>

lemma gets_first_success:
  assumes "view c = Budget b" and "k < b" and "\<And>i. i < k \<Longrightarrow> isl (outcome f w i)"
    and "outcome f w k = Inr x"
  shows "\<exists>c'. gets f n (c, w) =
    (take n (map (outcome f w) [0..<k] @ replicate n (Inr x)), c', after f (min n (Suc k)) w)"
  using assms
proof (induction k arbitrary: b c w n)
  case 0
  then obtain b' where b: "b = Suc b'" by (cases b) auto
  obtain w' where f: "f w = (Inr x, w')"
    using 0(4) by (cases "f w") (auto simp: outcome_def)
  with 0(1) b obtain c' where "get f (c, w) = (Inr x, c', w')" "view c' = Known x"
    using get_fetch [of c b' f w "Inr x" w'] by auto
  then show ?case using f by (cases n) (simp_all add: gets_known after_Suc)
next
  case (Suc k)
  then obtain b' where b: "b = Suc b'" by (cases b) auto
  obtain r w' where f: "f w = (r, w')" by (cases "f w")
  moreover have "isl r" using Suc.prems(3) [of 0] outcome_0 [of f, OF f] by simp
  ultimately obtain e where e: "r = Inl e" by (cases r) auto
  with f Suc.prems(1) b obtain c' where c': "get f (c, w) = (Inl e, c', w')" "view c' = Budget b'"
    using get_fetch [of c b' f w r w'] by auto
  have IH: "\<exists>c''. gets f n' (c', w') =
      (take n' (map (outcome f w') [0..<k] @ replicate n' (Inr x)), c'', after f (min n' (Suc k)) w')"
    for n'
  proof (rule Suc.IH [OF c'(2)])
    show "k < b'" using Suc.prems(2) b by simp
    show "isl (outcome f w' i)" if "i < k" for i
      using Suc.prems(3) [of "Suc i"] that by (simp add: outcome_Suc [of f, OF f])
    show "outcome f w' k = Inr x" using Suc.prems(4) by (simp add: outcome_Suc [of f, OF f])
  qed
  show ?case
  proof (cases n)
    case (Suc n')
    with IH [of n'] c' e show ?thesis
      by (auto simp: map_upt_Suc outcome_Suc [of f, OF f] outcome_0 [of f, OF f]
          after_Suc [of f, OF f] replicate_append_same [symmetric] simp del: upt_Suc)
  qed simp
qed

text \<open>Without a success the world is touched exactly as often as the budget allows.\<close>

lemma gets_all_fail:
  assumes "view c = Budget b" and "\<And>i. i < b \<Longrightarrow> isl (outcome f w i)"
  shows "\<exists>c'. gets f n (c, w) =
    (map (outcome f w) [0..<min n b] @ replicate (n - b) (Inr fallback), c', after f (min n b) w)"
  using assms
proof (induction n arbitrary: b c w)
  case 0
  then show ?case by simp
next
  case (Suc n)
  show ?case
  proof (cases b)
    case 0
    then show ?thesis using gets_spent [of c f "Suc n" w] Suc.prems(1) by simp
  next
    case b: (Suc b')
    obtain r w' where f: "f w = (r, w')" by (cases "f w")
    moreover have "isl r" using Suc.prems(2) [of 0] b outcome_0 [of f, OF f] by simp
    ultimately obtain e where e: "r = Inl e" by (cases r) auto
    with f Suc.prems(1) b obtain c' where c': "get f (c, w) = (Inl e, c', w')" "view c' = Budget b'"
      using get_fetch [of c b' f w r w'] by auto
    have "\<exists>c''. gets f n (c', w') =
        (map (outcome f w') [0..<min n b'] @ replicate (n - b') (Inr fallback), c'', after f (min n b') w')"
    proof (rule Suc.IH [OF c'(2)])
      show "isl (outcome f w' i)" if "i < b'" for i
        using Suc.prems(2) [of "Suc i"] that b by (simp add: outcome_Suc [of f, OF f])
    qed
    then show ?thesis
      using c' e by (auto simp: b map_upt_Suc outcome_Suc [of f, OF f] outcome_0 [of f, OF f] after_Suc [of f, OF f]
          simp del: upt_Suc)
  qed
qed

end

section \<open>The cache is a memo with a budget of three\<close>

definition cache_view :: "'a list schema_cache \<Rightarrow> 'a list memo_view" where
  "cache_view c =
     (if ready c then Known (schema c) else Budget (max_schema_fetch_attempts - attempts c))"

lemma cache_get_fetch:
  assumes "cache_view c = Budget (Suc n)" and "f w = (res, w')"
  shows "\<exists>c'. cache_get f (c, w) = (res, c', w') \<and>
    cache_view c' = (case res of Inl e \<Rightarrow> Budget n | Inr x \<Rightarrow> Known x)"
proof -
  have "\<not> ready c" and "attempts c < max_schema_fetch_attempts"
    using assms(1) by (auto simp: cache_view_def split: if_splits)
  with assms show ?thesis
    by (cases res) (auto simp: cache_get_def cache_view_def Let_def split: if_splits)
qed

interpretation schema_memo: memo cache_get cache_reset cache_view "[]" max_schema_fetch_attempts
proof (unfold_locales, goal_cases)
  case (3 c n f w res w')
  then show ?case by (rule cache_get_fetch)
qed (auto simp: cache_get_def cache_view_def cache_reset_def Let_def split: if_splits)

text \<open>The calls of a session between two resets, over the outcomes the fetches will have.\<close>

definition next_outcome :: "'b list \<Rightarrow> 'b \<times> 'b list" where
  "next_outcome outcomes = (hd outcomes, tl outcomes)"

fun cache_gets :: "nat \<Rightarrow> 'a list schema_cache \<times> (go_error + 'a list) list \<Rightarrow>
    (go_error + 'a list) list \<times> 'a list schema_cache \<times> (go_error + 'a list) list" where
  "cache_gets 0 cw = ([], cw)"
| "cache_gets (Suc n) cw =
     (let (r, cw1) = cache_get next_outcome cw; (rs, cw2) = cache_gets n cw1 in (r # rs, cw2))"

lemma cache_gets_memo: "cache_gets n cw = schema_memo.gets next_outcome n cw"
  by (induction n arbitrary: cw) (simp_all add: case_prod_unfold Let_def)

lemma after_outcomes: "schema_memo.after next_outcome i ws = drop i ws"
  by (induction i arbitrary: ws)
    (simp_all add: schema_memo.after_Suc [of _ _ "hd ws" "tl ws" for ws] next_outcome_def drop_Suc)

lemma outcome_outcomes: "i < length ws \<Longrightarrow> schema_memo.outcome next_outcome ws i = ws ! i"
  by (simp add: schema_memo.outcome_def after_outcomes next_outcome_def hd_drop_conv_nth)

lemma map_outcomes: "k \<le> length ws \<Longrightarrow> map (schema_memo.outcome next_outcome ws) [0..<k] = take k ws"
  by (rule nth_equalityI) (simp_all add: outcome_outcomes)

lemma view_new_cache: "cache_view (new_schema_cache :: 'a list schema_cache) = Budget 3"
  by (simp add: cache_view_def new_schema_cache_def max_schema_fetch_attempts_def)

section \<open>The policy of the cache\<close>

text \<open>
  Property C29: for any outcomes of the fetches, a session that asks \<open>n\<close> times makes at most three
  fetches: its answers are the outcomes in order up to the first success, that success for every
  later call, and after three failures an empty schema without contacting Redash again.
\<close>

theorem schema_cache_policy:
  assumes "3 \<le> length ws"
  shows "(\<forall>k < 3. (\<forall>i < k. isl (ws ! i)) \<longrightarrow> \<not> isl (ws ! k) \<longrightarrow>
      (\<exists>c. cache_gets n (new_schema_cache, ws) =
        (take n (take k ws @ replicate n (ws ! k)), c, drop (min n (Suc k)) ws))) \<and>
    ((\<forall>i < 3. isl (ws ! i)) \<longrightarrow>
      (\<exists>c. cache_gets n (new_schema_cache, ws) =
        (take (min n 3) ws @ replicate (n - 3) (Inr []), c, drop (min n 3) ws)))"
proof (intro conjI allI impI)
  fix k :: nat
  assume k: "k < 3" and fails: "\<forall>i < k. isl (ws ! i)" and "\<not> isl (ws ! k)"
  then obtain x where x: "ws ! k = Inr x" by (cases "ws ! k") auto
  have "\<exists>c. schema_memo.gets next_outcome n (new_schema_cache, ws) =
      (take n (map (schema_memo.outcome next_outcome ws) [0..<k] @ replicate n (Inr x)), c,
       schema_memo.after next_outcome (min n (Suc k)) ws)"
    by (rule schema_memo.gets_first_success [OF view_new_cache k])
      (use k fails x assms in \<open>simp_all add: outcome_outcomes\<close>)
  with k assms show "\<exists>c. cache_gets n (new_schema_cache, ws) =
      (take n (take k ws @ replicate n (ws ! k)), c, drop (min n (Suc k)) ws)"
    by (simp add: cache_gets_memo after_outcomes map_outcomes x)
next
  assume fails: "\<forall>i < 3. isl (ws ! i)"
  have "\<exists>c. schema_memo.gets next_outcome n (new_schema_cache, ws) =
      (map (schema_memo.outcome next_outcome ws) [0..<min n 3] @ replicate (n - 3) (Inr []), c,
       schema_memo.after next_outcome (min n 3) ws)"
    by (rule schema_memo.gets_all_fail [OF view_new_cache])
      (use fails assms in \<open>simp add: outcome_outcomes\<close>)
  with assms show "\<exists>c. cache_gets n (new_schema_cache, ws) =
      (take (min n 3) ws @ replicate (n - 3) (Inr []), c, drop (min n 3) ws)"
    by (simp add: cache_gets_memo after_outcomes map_outcomes)
qed

theorem schema_cache_policy_witness:
  "\<exists>c. cache_gets 5 (new_schema_cache, [Inl (Plain ''503''), Inr ''ab'', Inr ''c'', Inr ''d'']) =
     ([Inl (Plain ''503''), Inr ''ab'', Inr ''ab'', Inr ''ab'', Inr ''ab''], c, [Inr ''c'', Inr ''d''])"
  using schema_cache_policy [of "[Inl (Plain ''503''), Inr ''ab'', Inr ''c'', Inr ''d'']" 5,
      THEN conjunct1, rule_format, of 1]
  by (simp add: numeral_eq_Suc)

end
