(* ===== verification/Health_Gate.thy ===== *)
theory Health_Gate
  imports Wire_Prelude
begin

text \<open>
  \<open>internal/health/gate.go\<close>: the gate that sessions ask before every query and that only the
  checker moves. The mutex makes every method one atomic step; the channel of depth one is the
  flag \<open>suspect\<close>.
\<close>

section \<open>Definitions\<close>

datatype health_kind = KindOK | KindUnreachable | KindRejected

record gate =
  up :: bool
  kind :: health_kind
  reason :: string
  suspect :: bool

record gate_snapshot =
  s_up :: bool
  s_kind :: health_kind
  s_reason :: string

definition new_gate :: gate where
  "new_gate = \<lparr>up = True, kind = KindOK, reason = [], suspect = False\<rparr>"

definition gate_status :: "gate \<Rightarrow> gate_snapshot" where
  "gate_status g = \<lparr>s_up = up g, s_kind = kind g, s_reason = reason g\<rparr>"

definition gate_up :: "gate \<Rightarrow> bool" where
  "gate_up g = up g"

text \<open>\<open>Fail\<close> and \<open>Recover\<close> return whether they were a transition.\<close>

definition gate_fail :: "health_kind \<Rightarrow> string \<Rightarrow> gate \<Rightarrow> bool \<times> gate" where
  "gate_fail k why g =
     (let g1 = g\<lparr>kind := k, reason := why\<rparr> in
      if \<not> up g1 then (False, g1) else (True, g1\<lparr>up := False\<rparr>))"

definition gate_recover :: "gate \<Rightarrow> bool \<times> gate" where
  "gate_recover g =
     (let g1 = g\<lparr>kind := KindOK, reason := []\<rparr> in
      if up g1 then (False, g1) else (True, g1\<lparr>up := True\<rparr>))"

text \<open>The send with a default case: a full channel drops the second suspicion.\<close>

definition gate_suspect :: "gate \<Rightarrow> gate" where
  "gate_suspect g = (if suspect g then g else g\<lparr>suspect := True\<rparr>)"

text \<open>Receiving from \<open>Suspicions()\<close>, which blocks while the channel is empty.\<close>

definition take_suspicion :: "gate \<Rightarrow> gate option" where
  "take_suspicion g = (if suspect g then Some (g\<lparr>suspect := False\<rparr>) else None)"

definition client_message :: "gate \<Rightarrow> string" where
  "client_message g =
     (case s_kind (gate_status g) of
        KindRejected \<Rightarrow>
          ''redash-wire: Redash rejected our credentials; check the profile'' @ [CHR 0x27] @
          ''s api_key and redash_url''
      | _ \<Rightarrow> ''redash-wire: Redash is unreachable; the proxy will serve queries again once it recovers'')"

section \<open>Effects of the operations\<close>

lemmas gate_defs = new_gate_def gate_status_def gate_up_def gate_fail_def gate_recover_def
  gate_suspect_def take_suspicion_def Let_def

lemma gate_fail_effect [simp]:
  "fst (gate_fail k why g) \<longleftrightarrow> up g"
  "snd (gate_fail k why g) = g\<lparr>up := False, kind := k, reason := why\<rparr>"
  by (cases g; simp add: gate_defs)+

lemma gate_recover_effect [simp]:
  "fst (gate_recover g) \<longleftrightarrow> \<not> up g"
  "snd (gate_recover g) = g\<lparr>up := True, kind := KindOK, reason := []\<rparr>"
  by (cases g; simp add: gate_defs)+

lemma gate_suspect_effect [simp]: "gate_suspect g = g\<lparr>suspect := True\<rparr>"
  by (cases g) (simp add: gate_defs)

section \<open>The contract of a gate\<close>

text \<open>
  What the two wire servers rely on: the answer to \<open>up\<close> is moved by \<open>fail\<close> and \<open>recover\<close> only, and
  reporting a suspicion changes nothing a session can see.
\<close>

locale serving_gate =
  fixes is_up :: "'g \<Rightarrow> bool"
    and msg :: "'g \<Rightarrow> string"
    and raise :: "'g \<Rightarrow> 'g"
  assumes raise_up: "is_up (raise g) = is_up g"
    and raise_msg: "msg (raise g) = msg g"
    and raise_idem: "raise (raise g) = raise g"
begin

lemma raises_up: "is_up ((raise ^^ n) g) = is_up g"
  by (induction n) (simp_all add: raise_up)

lemma raises_msg: "msg ((raise ^^ n) g) = msg g"
  by (induction n) (simp_all add: raise_msg)

lemma burst_wakes_once: "0 < n \<Longrightarrow> (raise ^^ n) g = raise g"
proof (induction n)
  case (Suc n)
  then show ?case by (cases n) (simp_all add: raise_idem)
qed simp

end

interpretation health_gate: serving_gate gate_up client_message gate_suspect
  by unfold_locales (simp_all add: gate_up_def client_message_def gate_status_def)

end
