(* ===== verification/Health_Checker.thy ===== *)
theory Health_Checker
  imports Health_Gate Redash_Types Redash_Registry
begin

text \<open>
  \<open>internal/health/checker.go\<close>: the loop that probes Redash, moves the gate, refreshes the registry
  and announces both in the log. A \<open>listing\<close> is what \<open>ListDataSources\<close> returned to one probe.
  Durations are nanoseconds as integers.
\<close>

section \<open>Definitions\<close>

type_synonym listing = "go_error + data_source list"

datatype log_event =
    ProbeFailed health_kind nat go_error
  | RedashUp nat
  | RedashDown health_kind go_error int
  | RedashRetry health_kind go_error int
  | SourcesUnchanged nat
  | SourcesRefreshed nat string

definition second :: int where
  "second = 1000000000"

definition default_interval :: int where "default_interval = 10 * second"
definition default_timeout :: int where "default_timeout = 5 * second"
definition default_startup_timeout :: int where "default_startup_timeout = 10 * second"
definition default_confirm_delay :: int where "default_confirm_delay = second"
definition default_rejected_interval :: int where "default_rejected_interval = 5 * 60 * second"
definition default_max_offline_interval :: int where "default_max_offline_interval = 2 * 60 * second"
definition default_failure_threshold :: nat where "default_failure_threshold = 2"
definition default_rejected_threshold :: nat where "default_rejected_threshold = 3"

record checker =
  registry :: swappable_registry
  gate :: gate
  logs :: "log_event list"
  interval :: int
  confirm_delay :: int
  rejected_interval :: int
  max_offline :: int
  timeout :: int
  startup_timeout :: int
  threshold :: nat
  rejected_threshold :: nat
  failures :: nat
  rejections :: nat
  probed :: bool
  ever_up :: bool
  last_kind :: health_kind
  fingerprint :: string

text \<open>An option is a change of the defaults, as in the source.\<close>

definition new_checker ::
  "swappable_registry \<Rightarrow> gate \<Rightarrow> (checker \<Rightarrow> checker) list \<Rightarrow> checker" where
  "new_checker sr g opts =
     fold (\<lambda>opt c. opt c) opts
       \<lparr>registry = sr, gate = g, logs = [],
        interval = default_interval, confirm_delay = default_confirm_delay,
        rejected_interval = default_rejected_interval, max_offline = default_max_offline_interval,
        timeout = default_timeout, startup_timeout = default_startup_timeout,
        threshold = default_failure_threshold, rejected_threshold = default_rejected_threshold,
        failures = 0, rejections = 0, probed = False, ever_up = False, last_kind = KindOK,
        fingerprint = []\<rparr>"

definition with_startup_timeout :: "int \<Rightarrow> checker \<Rightarrow> checker" where
  "with_startup_timeout d c = c\<lparr>startup_timeout := d\<rparr>"

definition with_interval :: "int \<Rightarrow> checker \<Rightarrow> checker" where
  "with_interval d c = c\<lparr>interval := d\<rparr>"

definition with_timeout :: "int \<Rightarrow> checker \<Rightarrow> checker" where
  "with_timeout d c = c\<lparr>timeout := d\<rparr>"

definition with_rejected_interval :: "int \<Rightarrow> checker \<Rightarrow> checker" where
  "with_rejected_interval d c = c\<lparr>rejected_interval := d\<rparr>"

definition with_max_offline_interval :: "int \<Rightarrow> checker \<Rightarrow> checker" where
  "with_max_offline_interval d c = c\<lparr>max_offline := d\<rparr>"

definition with_confirm_delay :: "int \<Rightarrow> checker \<Rightarrow> checker" where
  "with_confirm_delay d c = c\<lparr>confirm_delay := d\<rparr>"

text \<open>The thresholds are counts; the program passes no negative one.\<close>

definition with_failure_threshold :: "nat \<Rightarrow> checker \<Rightarrow> checker" where
  "with_failure_threshold n c = c\<lparr>threshold := n\<rparr>"

definition with_rejected_threshold :: "nat \<Rightarrow> checker \<Rightarrow> checker" where
  "with_rejected_threshold n c = c\<lparr>rejected_threshold := n\<rparr>"

text \<open>The default client timeouts apart, a log line is appended to \<open>logs\<close>.\<close>

definition log_line :: "log_event \<Rightarrow> checker \<Rightarrow> checker" where
  "log_line e c = c\<lparr>logs := logs c @ [e]\<rparr>"

definition classify :: "go_error \<Rightarrow> health_kind" where
  "classify err =
     (case http_status err of
        None \<Rightarrow> KindUnreachable
      | Some status \<Rightarrow>
          if status = 401 \<or> status = 403 \<or> status = 404 then KindRejected else KindUnreachable)"

definition confirmed_kind :: "go_error \<Rightarrow> checker \<Rightarrow> health_kind \<times> checker" where
  "confirmed_kind err c =
     (let k = classify err in
      if k \<noteq> KindRejected then (k, c\<lparr>rejections := 0\<rparr>)
      else
        let c1 = c\<lparr>rejections := rejections c + 1\<rparr> in
        if rejections c1 < rejected_threshold c1 then (KindUnreachable, c1) else (KindRejected, c1))"

text \<open>The loop that doubles the delay; its index runs from the threshold to the failure count.\<close>

function backoff :: "nat \<Rightarrow> nat \<Rightarrow> int \<Rightarrow> int \<Rightarrow> int" where
  "backoff i n d limit = (if i < n \<and> d < limit then backoff (i + 1) n (d * 2) limit else d)"
  by pat_completeness auto
termination by (relation "measure (\<lambda>(i, n, d, limit). n - i)") auto

declare backoff.simps [simp del]

definition next_interval :: "checker \<Rightarrow> int" where
  "next_interval c =
     (let s = gate_status (gate c) in
      if \<not> s_up s \<and> s_kind s = KindRejected then rejected_interval c
      else if s_up s \<and> 0 < failures c then confirm_delay c
      else if \<not> s_up s \<and> ever_up c then
        let limit = max (max_offline c) (interval c);
            d = backoff (threshold c) (failures c) (interval c) limit in
        min d limit
      else interval c)"

definition encode_view :: "data_source_view \<Rightarrow> string" where
  "encode_view v =
     ''{'' @ json_string ''id'' @ '':'' @ int_to_string (v_id v) @
     '','' @ json_string ''name'' @ '':'' @ json_string (v_name v) @
     '','' @ json_string ''type'' @ '':'' @ json_string (v_type v) @
     '','' @ json_string ''wire'' @ '':'' @ json_string (v_wire v) @ ''}''"

definition encode_views :: "data_source_view list \<Rightarrow> string" where
  "encode_views vs = ''['' @ join_with '','' (map encode_view vs) @ '']''"

definition publish :: "data_source list \<Rightarrow> checker \<Rightarrow> checker" where
  "publish sources c =
     (let views = data_source_views sources;
          encoded = encode_views views in
      if encoded = fingerprint c then log_line (SourcesUnchanged (length views)) c
      else log_line (SourcesRefreshed (length views) encoded) (c\<lparr>fingerprint := encoded\<rparr>))"

definition record_success :: "data_source list \<Rightarrow> checker \<Rightarrow> checker" where
  "record_success sources c =
     (let c1 = c\<lparr>failures := 0, rejections := 0, ever_up := True, last_kind := KindOK\<rparr>;
          c2 = c1\<lparr>registry := replace_registry sources (registry c1)\<rparr>;
          c3 = publish sources c2;
          (transitioned, g) = gate_recover (gate c3);
          c4 = c3\<lparr>gate := g\<rparr> in
      if transitioned then log_line (RedashUp (length sources)) c4 else c4)"

definition record_failure :: "go_error \<Rightarrow> checker \<Rightarrow> checker" where
  "record_failure err c =
     (let c1 = c\<lparr>failures := failures c + 1\<rparr>;
          (k, c2) = confirmed_kind err c1 in
      if ever_up c2 \<and> failures c2 < threshold c2 \<and> gate_up (gate c2)
      then log_line (ProbeFailed k (failures c2) err) c2
      else
        let (transitioned, g) = gate_fail k (error_text err) (gate c2);
            c3 = c2\<lparr>gate := g\<rparr>;
            retry_in = next_interval c3 div second;
            c4 = (if transitioned \<or> k \<noteq> last_kind c3
                  then log_line (RedashDown k err retry_in) c3
                  else log_line (RedashRetry k err retry_in) c3) in
        c4\<lparr>last_kind := k\<rparr>)"

text \<open>The time a probe is given, and \<open>Probe\<close>: \<open>shutting_down\<close> is the parent context's state after the
  call.\<close>

definition probe_budget :: "checker \<Rightarrow> int" where
  "probe_budget c = (if \<not> ever_up c then startup_timeout c else timeout c)"

definition probe :: "listing \<Rightarrow> bool \<Rightarrow> checker \<Rightarrow> go_error option \<times> checker" where
  "probe out shutting_down c =
     (let c1 = c\<lparr>probed := True\<rparr> in
      case out of
        Inl err \<Rightarrow>
          if shutting_down then (Some Canceled, c1)
          else (Some err, record_failure err c1)
      | Inr sources \<Rightarrow> (None, record_success sources c1))"

text \<open>\<open>Suspicious\<close>; nil is \<open>None\<close>.\<close>

definition suspicious :: "go_error option \<Rightarrow> bool" where
  "suspicious e =
     (case e of
        None \<Rightarrow> False
      | Some err \<Rightarrow> if is_canceled err \<or> is_deadline err then False else as_query_error err = None)"

section \<open>The loop\<close>

text \<open>
  \<open>Run\<close> wakes for the timer or for a suspicion, probes and rearms the timer; sessions and SIGUSR1
  raise suspicions in between. A loop that probes nothing before its first timer is one that \<open>serve\<close>
  probed already.
\<close>

record run_state =
  chk :: checker
  timer :: int

definition run_start :: "listing \<Rightarrow> checker \<Rightarrow> run_state" where
  "run_start out c =
     (let c1 = (if \<not> probed c then snd (probe out False c) else c) in
      \<lparr>chk = c1, timer = next_interval c1\<rparr>)"

definition run_probe :: "listing \<Rightarrow> run_state \<Rightarrow> run_state" where
  "run_probe out r =
     (let c1 = snd (probe out False (chk r)) in \<lparr>chk = c1, timer = next_interval c1\<rparr>)"

inductive health_step :: "run_state \<Rightarrow> run_state \<Rightarrow> bool" where
  timer_fires: "health_step r (run_probe out r)"
| suspicion_received:
    "take_suspicion (gate (chk r)) = Some g \<Longrightarrow>
     health_step r (run_probe out (r\<lparr>chk := (chk r)\<lparr>gate := g\<rparr>\<rparr>))"
| suspicion_raised:
    "health_step r (r\<lparr>chk := (chk r)\<lparr>gate := gate_suspect (gate (chk r))\<rparr>\<rparr>)"

text \<open>
  How \<open>serve\<close> starts: with the flag \<open>-wait-for-redash\<close> the gate is closed by hand and the loop makes
  the first probe; otherwise the first probe is made before anything binds, and a failure or an
  empty list exits.
\<close>

definition serve_start :: "bool \<Rightarrow> listing \<Rightarrow> checker \<Rightarrow> checker option" where
  "serve_start wait_for_redash out c =
     (if wait_for_redash
      then Some (c\<lparr>gate := snd (gate_fail KindUnreachable ''waiting for the first check'' (gate c))\<rparr>)
      else
        let (err, c1) = probe out False c in
        if err \<noteq> None then None
        else if swappable_all (registry c1) = [] then None
        else Some c1)"

inductive health_reachable :: "checker \<Rightarrow> run_state \<Rightarrow> bool" for c0 where
  started: "serve_start wait_for_redash out0 c0 = Some c \<Longrightarrow> health_reachable c0 (run_start out c)"
| stepped: "health_reachable c0 r \<Longrightarrow> health_step r r' \<Longrightarrow> health_reachable c0 r'"

inductive_cases health_stepE: "health_step r r'"

end
