(* ===== verification/Health_Laws.thy ===== *)
theory Health_Laws
  imports Health_Checker
begin

text \<open>
  The laws of the health checker: the closed form of the backoff, the invariant of the running
  loop, and what a run of failures, a success and a start do to the gate.
\<close>

section \<open>The backoff\<close>

lemma backoff_closed_form:
  assumes "0 \<le> d" and "i \<le> n"
  shows "min (backoff i n d limit) limit = min (d * 2 ^ (n - i)) limit"
  using assms
proof (induction i n d limit rule: backoff.induct)
  case (1 i n d limit)
  show ?case
  proof (cases "i < n \<and> d < limit")
    case True
    then have "n - i = Suc (n - (i + 1))" by (simp add: Suc_diff_Suc)
    with True 1 show ?thesis by (simp add: backoff.simps [of i n d limit] mult.assoc)
  next
    case False
    have "limit \<le> d * 2 ^ (n - i)" if "limit \<le> d"
      using 1(2) that by (metis mult.right_neutral mult_left_mono one_le_numeral one_le_power order_trans)
    with False 1 show ?thesis by (auto simp: backoff.simps [of i n d limit])
  qed
qed

lemma backoff_idle: "n \<le> i \<Longrightarrow> backoff i n d limit = d"
  by (simp add: backoff.simps)

text \<open>The doubled value never passes twice the limit, so it fits the width of a duration.\<close>

lemma backoff_bounds:
  assumes "0 < d"
  shows "d \<le> backoff i n d limit \<and> backoff i n d limit < 2 * max limit d"
  using assms
proof (induction i n d limit rule: backoff.induct)
  case (1 i n d limit)
  show ?case
  proof (cases "i < n \<and> d < limit")
    case True
    with 1 have "d * 2 \<le> backoff (i + 1) n (d * 2) limit"
      "backoff (i + 1) n (d * 2) limit < 2 * max limit (d * 2)" by auto
    moreover have "backoff (i + 1) n (d * 2) limit < 2 * limit"
    proof (cases "d * 2 < limit")
      case True
      with calculation show ?thesis by simp
    next
      case False
      then have "backoff (i + 1) n (d * 2) limit = d * 2"
        by (simp add: backoff.simps [of "Suc i"])
      with \<open>i < n \<and> d < limit\<close> show ?thesis by simp
    qed
    ultimately show ?thesis using True 1(2) by (simp add: backoff.simps [of i n d limit])
  next
    case False
    with 1(2) show ?thesis by (auto simp: backoff.simps [of i n d limit])
  qed
qed

lemma next_interval_closed:
  assumes "0 \<le> interval c" and "threshold c \<le> failures c" and "ever_up c"
    and "\<not> up (gate c)" and "kind (gate c) \<noteq> KindRejected"
  shows "next_interval c =
    min (interval c * 2 ^ (failures c - threshold c)) (max (max_offline c) (interval c))"
  using assms backoff_closed_form [of "interval c" "threshold c" "failures c" "max (max_offline c) (interval c)"]
  by (simp add: next_interval_def gate_status_def Let_def)

lemma next_interval_cong:
  "up (gate c) = up (gate c') \<Longrightarrow> kind (gate c) = kind (gate c') \<Longrightarrow> failures c = failures c' \<Longrightarrow>
   ever_up c = ever_up c' \<Longrightarrow> threshold c = threshold c' \<Longrightarrow> interval c = interval c' \<Longrightarrow>
   max_offline c = max_offline c' \<Longrightarrow> rejected_interval c = rejected_interval c' \<Longrightarrow>
   confirm_delay c = confirm_delay c' \<Longrightarrow> next_interval c = next_interval c'"
  by (simp add: next_interval_def gate_status_def Let_def)

section \<open>One probe\<close>

text \<open>The fields no operation writes.\<close>

definition settings :: "checker \<Rightarrow> int \<times> int \<times> int \<times> int \<times> nat \<times> nat" where
  "settings c = (interval c, confirm_delay c, rejected_interval c, max_offline c, threshold c,
                 rejected_threshold c)"

lemma log_line_fields [simp]:
  "registry (log_line e c) = registry c" "gate (log_line e c) = gate c"
  "interval (log_line e c) = interval c" "confirm_delay (log_line e c) = confirm_delay c"
  "rejected_interval (log_line e c) = rejected_interval c" "max_offline (log_line e c) = max_offline c"
  "threshold (log_line e c) = threshold c" "rejected_threshold (log_line e c) = rejected_threshold c"
  "failures (log_line e c) = failures c" "rejections (log_line e c) = rejections c"
  "probed (log_line e c) = probed c" "ever_up (log_line e c) = ever_up c"
  "last_kind (log_line e c) = last_kind c" "fingerprint (log_line e c) = fingerprint c"
  "logs (log_line e c) = logs c @ [e]"
  by (simp_all add: log_line_def)

lemma publish_fields [simp]:
  "registry (publish s c) = registry c" "gate (publish s c) = gate c"
  "interval (publish s c) = interval c" "confirm_delay (publish s c) = confirm_delay c"
  "rejected_interval (publish s c) = rejected_interval c" "max_offline (publish s c) = max_offline c"
  "threshold (publish s c) = threshold c" "rejected_threshold (publish s c) = rejected_threshold c"
  "failures (publish s c) = failures c" "rejections (publish s c) = rejections c"
  "probed (publish s c) = probed c" "ever_up (publish s c) = ever_up c"
  "last_kind (publish s c) = last_kind c"
  by (simp_all add: publish_def Let_def)

lemma publish_fingerprint: "fingerprint (publish s c) = encode_views (data_source_views s)"
  by (simp add: publish_def Let_def)

lemma publish_logs:
  "logs (publish s c) = logs c @
     [if encode_views (data_source_views s) = fingerprint c
      then SourcesUnchanged (length s)
      else SourcesRefreshed (length s) (encode_views (data_source_views s))]"
  by (simp add: publish_def Let_def data_source_views_def)

lemma record_success_effect:
  "gate (record_success s c) = (gate c)\<lparr>up := True, kind := KindOK, reason := []\<rparr>"
  "registry (record_success s c) = replace_registry s (registry c)"
  "failures (record_success s c) = 0" "rejections (record_success s c) = 0"
  "ever_up (record_success s c)" "last_kind (record_success s c) = KindOK"
  "settings (record_success s c) = settings c"
  "fingerprint (record_success s c) = encode_views (data_source_views s)"
  "logs (record_success s c) = logs c @
     [if encode_views (data_source_views s) = fingerprint c
      then SourcesUnchanged (length s)
      else SourcesRefreshed (length s) (encode_views (data_source_views s))] @
     (if up (gate c) then [] else [RedashUp (length s)])"
  by (simp_all add: record_success_def settings_def case_prod_unfold Let_def publish_fingerprint
      publish_logs)

definition rejected_error :: "go_error \<Rightarrow> bool" where
  "rejected_error e = (classify e = KindRejected)"

text \<open>The kind a failure reports, and the length of the run of rejections it ends.\<close>

definition next_rejections :: "go_error \<Rightarrow> checker \<Rightarrow> nat" where
  "next_rejections e c = (if rejected_error e then rejections c + 1 else 0)"

definition verdict :: "go_error \<Rightarrow> checker \<Rightarrow> health_kind" where
  "verdict e c =
     (if rejected_error e \<and> rejected_threshold c \<le> next_rejections e c then KindRejected
      else KindUnreachable)"

lemma classify_cases: "classify e = KindUnreachable \<or> classify e = KindRejected"
  by (simp add: classify_def split: option.split)

lemma confirmed_kind_effect:
  "confirmed_kind e c = (verdict e c, c\<lparr>rejections := next_rejections e c\<rparr>)"
  using classify_cases [of e]
  by (auto simp: confirmed_kind_def verdict_def next_rejections_def rejected_error_def Let_def)

definition absorbs :: "checker \<Rightarrow> bool" where
  "absorbs c = (ever_up c \<and> failures c + 1 < threshold c \<and> up (gate c))"

lemma record_failure_effect:
  "failures (record_failure e c) = failures c + 1"
  "rejections (record_failure e c) = next_rejections e c"
  "ever_up (record_failure e c) = ever_up c"
  "probed (record_failure e c) = probed c"
  "registry (record_failure e c) = registry c"
  "settings (record_failure e c) = settings c"
  "fingerprint (record_failure e c) = fingerprint c"
  "gate (record_failure e c) =
     (if absorbs c then gate c
      else (gate c)\<lparr>up := False, kind := verdict e c, reason := error_text e\<rparr>)"
  by (auto simp: record_failure_def confirmed_kind_effect case_prod_unfold Let_def absorbs_def
      gate_up_def settings_def verdict_def next_rejections_def)

lemma probe_simps:
  "probe (Inl e) False c = (Some e, record_failure e (c\<lparr>probed := True\<rparr>))"
  "probe (Inl e) True c = (Some Canceled, c\<lparr>probed := True\<rparr>)"
  "probe (Inr s) d c = (None, record_success s (c\<lparr>probed := True\<rparr>))"
  by (simp_all add: probe_def)

lemma probed_fields [simp]:
  "absorbs (c\<lparr>probed := b\<rparr>) = absorbs c" "verdict e (c\<lparr>probed := b\<rparr>) = verdict e c"
  "next_rejections e (c\<lparr>probed := b\<rparr>) = next_rejections e c"
  "settings (c\<lparr>probed := b\<rparr>) = settings c"
  by (simp_all add: absorbs_def verdict_def next_rejections_def settings_def)

section \<open>The invariant of the loop\<close>

definition health_inv :: "checker \<Rightarrow> bool" where
  "health_inv c \<longleftrightarrow>
     (up (gate c) \<longleftrightarrow> kind (gate c) = KindOK) \<and>
     (up (gate c) \<longrightarrow> ever_up c \<and> failures c < threshold c) \<and>
     (kind (gate c) = KindRejected \<longrightarrow> rejected_threshold c \<le> rejections c) \<and>
     rejections c \<le> failures c"

text \<open>The part of it that also holds before the first verdict.\<close>

definition start_inv :: "checker \<Rightarrow> bool" where
  "start_inv c \<longleftrightarrow> 0 < threshold c \<and> rejections c \<le> failures c \<and>
     (up (gate c) \<longrightarrow> ever_up c \<longrightarrow> failures c < threshold c)"

lemma settings_eqD:
  "settings c = settings c' \<Longrightarrow> threshold c = threshold c'"
  "settings c = settings c' \<Longrightarrow> rejected_threshold c = rejected_threshold c'"
  by (simp_all add: settings_def)

lemma failure_inv: "start_inv c \<Longrightarrow> health_inv c \<or> \<not> absorbs c \<Longrightarrow> health_inv (record_failure e c)"
  using settings_eqD [OF record_failure_effect(6) [of e c]]
  by (auto simp: start_inv_def health_inv_def record_failure_effect absorbs_def verdict_def
      next_rejections_def)

lemma success_inv: "0 < threshold c \<Longrightarrow> health_inv (record_success s c)"
  using settings_eqD [OF record_success_effect(7) [of s c]]
  by (simp add: health_inv_def record_success_effect)

lemma health_inv_start: "health_inv c \<Longrightarrow> 0 < threshold c \<Longrightarrow> start_inv c"
  by (simp add: health_inv_def start_inv_def)

lemma inv_probed [simp]:
  "health_inv (c\<lparr>probed := b\<rparr>) = health_inv c" "start_inv (c\<lparr>probed := b\<rparr>) = start_inv c"
  by (simp_all add: health_inv_def start_inv_def)

lemma probe_settings: "settings (snd (probe out d c)) = settings c"
  by (cases out; cases d) (simp_all add: probe_simps record_success_effect record_failure_effect)

lemma probe_inv:
  assumes "start_inv c" and "health_inv c \<or> \<not> absorbs c"
  shows "health_inv (snd (probe out False c))"
proof (cases out)
  case (Inl e)
  then show ?thesis using failure_inv [of "c\<lparr>probed := True\<rparr>" e] assms by (simp add: probe_simps)
next
  case (Inr s)
  then show ?thesis using success_inv [of "c\<lparr>probed := True\<rparr>" s] assms
    by (simp add: probe_simps start_inv_def)
qed

lemma gate_irrelevant:
  "health_inv (c\<lparr>gate := (gate c)\<lparr>suspect := b\<rparr>\<rparr>) = health_inv c"
  "next_interval (c\<lparr>gate := (gate c)\<lparr>suspect := b\<rparr>\<rparr>) = next_interval c"
  "settings (c\<lparr>gate := (gate c)\<lparr>suspect := b\<rparr>\<rparr>) = settings c"
  by (simp_all add: health_inv_def settings_def next_interval_def gate_status_def Let_def)

definition run_inv :: "checker \<Rightarrow> run_state \<Rightarrow> bool" where
  "run_inv c0 r \<longleftrightarrow> health_inv (chk r) \<and> settings (chk r) = settings c0 \<and>
     timer r = next_interval (chk r)"

lemma run_probe_inv:
  assumes "health_inv (chk r)" and "settings (chk r) = settings c0" and "0 < threshold c0"
  shows "run_inv c0 (run_probe out r)"
proof -
  have "0 < threshold (chk r)" using assms settings_eqD by metis
  with assms show ?thesis
    by (simp add: run_inv_def run_probe_def Let_def probe_inv health_inv_start probe_settings)
qed

lemma health_step_inv:
  assumes "health_step r r'" and "run_inv c0 r" and "0 < threshold c0"
  shows "run_inv c0 r'"
  using assms
proof (induction rule: health_step.induct)
  case (timer_fires r out)
  then show ?case by (intro run_probe_inv) (simp_all add: run_inv_def)
next
  case (suspicion_received r g out)
  then have "g = (gate (chk r))\<lparr>suspect := False\<rparr>" by (simp add: take_suspicion_def split: if_splits)
  with suspicion_received show ?case
    by (intro run_probe_inv) (simp_all add: run_inv_def gate_irrelevant)
next
  case (suspicion_raised r)
  then show ?case by (simp add: run_inv_def gate_irrelevant)
qed

text \<open>A checker no one has used yet, behind a gate that no one has moved.\<close>

definition fresh :: "checker \<Rightarrow> bool" where
  "fresh c \<longleftrightarrow> 0 < threshold c \<and> failures c = 0 \<and> rejections c = 0 \<and> \<not> ever_up c \<and> \<not> probed c \<and>
     gate c = new_gate"

lemma serve_start_inv:
  assumes "fresh c0" and "serve_start w out0 c0 = Some c"
  shows "run_inv c0 (run_start out c)"
proof -
  have start0: "start_inv c0" "\<not> absorbs c0" using assms(1) by (simp_all add: fresh_def start_inv_def absorbs_def)
  show ?thesis
  proof (cases w)
    case True
    with assms have c: "c = c0\<lparr>gate := (gate c0)\<lparr>up := False, kind := KindUnreachable,
        reason := ''waiting for the first check''\<rparr>\<rparr>"
      by (simp add: serve_start_def)
    with assms(1) have "start_inv c" "\<not> absorbs c" "\<not> probed c" "settings c = settings c0"
      by (simp_all add: fresh_def start_inv_def absorbs_def settings_def)
    then show ?thesis
      by (simp add: run_inv_def run_start_def Let_def probe_inv probe_settings)
  next
    case False
    with assms(2) have c: "c = snd (probe out0 False c0)"
      by (simp add: serve_start_def case_prod_unfold Let_def split: if_splits)
    moreover have "probed c"
      unfolding c by (cases out0) (simp_all add: probe_simps record_failure_effect record_success_def
          case_prod_unfold Let_def)
    ultimately show ?thesis
      using start0 by (simp add: run_inv_def run_start_def Let_def probe_inv probe_settings)
  qed
qed

lemma reachable_inv:
  assumes "health_reachable c0 r" and "fresh c0"
  shows "run_inv c0 r"
  using assms
proof (induction rule: health_reachable.induct)
  case (started w out0 c out)
  then show ?case by (simp add: serve_start_inv)
next
  case (stepped r r')
  then show ?case by (meson health_step_inv fresh_def)
qed

text \<open>The checker that \<open>serve\<close> builds.\<close>

definition serve_checker :: "bool \<Rightarrow> checker" where
  "serve_checker wait_for_redash =
     new_checker (new_swappable []) new_gate
       (if wait_for_redash then [with_startup_timeout default_timeout] else [])"

lemmas checker_defaults = default_interval_def default_timeout_def default_startup_timeout_def
  default_confirm_delay_def default_rejected_interval_def default_max_offline_interval_def
  default_failure_threshold_def default_rejected_threshold_def second_def

lemma serve_checker_fresh: "fresh (serve_checker w)"
  by (simp add: fresh_def serve_checker_def new_checker_def with_startup_timeout_def checker_defaults)

lemma serve_checker_settings:
  "settings (serve_checker w) = (10 * second, second, 300 * second, 120 * second, 2, 3)"
  by (simp add: settings_def serve_checker_def new_checker_def with_startup_timeout_def checker_defaults)

lemma min_backoff_bounds:
  assumes "0 < (d :: int)" and "d \<le> limit"
  shows "d \<le> min (backoff i n d limit) limit \<and> min (backoff i n d limit) limit \<le> limit"
  using backoff_bounds [OF assms(1)] assms(2) by (simp add: min_def)

section \<open>Properties of the running proxy\<close>



section \<open>A run of failures\<close>

definition failed_probes :: "go_error list \<Rightarrow> checker \<Rightarrow> checker" where
  "failed_probes es c = fold (\<lambda>e c. snd (probe (Inl e) False c)) es c"

text \<open>The length of the run of rejections at the end of the errors.\<close>

definition trailing_rejections :: "go_error list \<Rightarrow> nat" where
  "trailing_rejections es = length (takeWhile rejected_error (rev es))"

lemma failed_probes_snoc:
  "failed_probes (es @ [e]) c = record_failure e ((failed_probes es c)\<lparr>probed := True\<rparr>)"
  by (simp add: failed_probes_def probe_simps)

lemma failed_probes_fields:
  assumes "failures c = 0" and "rejections c = 0" and "ever_up c" and "up (gate c)"
    and "kind (gate c) = KindOK" and "0 < threshold c"
  shows "failures (failed_probes es c) = length es \<and>
    rejections (failed_probes es c) = trailing_rejections es \<and> ever_up (failed_probes es c) \<and>
    settings (failed_probes es c) = settings c \<and> registry (failed_probes es c) = registry c \<and>
    (up (gate (failed_probes es c)) \<longleftrightarrow> length es < threshold c) \<and>
    kind (gate (failed_probes es c)) =
      (if length es < threshold c then KindOK
       else if 0 < trailing_rejections es \<and> rejected_threshold c \<le> trailing_rejections es
       then KindRejected else KindUnreachable)"
proof (induction es rule: rev_induct)
  case Nil
  then show ?case using assms by (simp add: failed_probes_def trailing_rejections_def)
next
  case (snoc e es)
  let ?c = "failed_probes es c"
  have "threshold ?c = threshold c" "rejected_threshold ?c = rejected_threshold c"
    using snoc settings_eqD by blast+
  with snoc show ?case
    by (auto simp: failed_probes_snoc record_failure_effect absorbs_def next_rejections_def
        verdict_def trailing_rejections_def)
qed

text \<open>
  Property C9: after a successful probe, a run of failed ones leaves the gate open until the
  threshold is reached and closed from then on; closed, it says rejected exactly when the run ends
  in at least \<open>rejected_threshold\<close> rejections (401, 403 or 404) and unreachable otherwise. The
  registry stays that of the success. The next probe follows after the confirm delay while the
  failures are absorbed, after the rejected interval, or after the interval doubled once per failure
  beyond the threshold, up to the offline limit.
\<close>

theorem failing_probes_verdict:
  fixes c :: checker and sources :: "data_source list" and es :: "go_error list"
  defines "c' \<equiv> failed_probes es (snd (probe (Inr sources) False c))"
  assumes "0 < threshold c" and "0 < rejected_threshold c" and "0 \<le> interval c"
  shows "(gate_up (gate c') \<longleftrightarrow> length es < threshold c) \<and>
    kind (gate c') = (if length es < threshold c then KindOK
      else if rejected_threshold c \<le> trailing_rejections es then KindRejected
      else KindUnreachable) \<and>
    swappable_all (registry c') = sources \<and>
    next_interval c' = (if es = [] then interval c
      else if length es < threshold c then confirm_delay c
      else if rejected_threshold c \<le> trailing_rejections es then rejected_interval c
      else min (interval c * 2 ^ (length es - threshold c)) (max (max_offline c) (interval c)))"
proof -
  define c1 where "c1 = snd (probe (Inr sources) False c)"
  have c1: "failures c1 = 0" "rejections c1 = 0" "ever_up c1" "up (gate c1)"
      "kind (gate c1) = KindOK" "settings c1 = settings c"
      "registry c1 = replace_registry sources (registry c)"
    by (simp_all add: c1_def probe_simps record_success_effect)
  note f = failed_probes_fields [OF c1(1-5), of es]
  have "threshold c1 = threshold c" "rejected_threshold c1 = rejected_threshold c"
    using c1(6) settings_eqD by blast+
  with f assms c1 have f': "failures c' = length es" "ever_up c'" "settings c' = settings c"
      "registry c' = replace_registry sources (registry c)"
      "up (gate c') \<longleftrightarrow> length es < threshold c"
      "kind (gate c') = (if length es < threshold c then KindOK
        else if rejected_threshold c \<le> trailing_rejections es then KindRejected
        else KindUnreachable)"
    by (auto simp: c1_def [symmetric] c'_def)
  have s: "interval c' = interval c" "confirm_delay c' = confirm_delay c"
      "rejected_interval c' = rejected_interval c" "max_offline c' = max_offline c"
      "threshold c' = threshold c"
    using f'(3) by (simp_all add: settings_def)
  have "next_interval c' = (if es = [] then interval c
      else if length es < threshold c then confirm_delay c
      else if rejected_threshold c \<le> trailing_rejections es then rejected_interval c
      else min (interval c * 2 ^ (length es - threshold c)) (max (max_offline c) (interval c)))"
  proof (cases "threshold c \<le> length es \<and> \<not> rejected_threshold c \<le> trailing_rejections es")
    case True
    with f' s assms(2,4) show ?thesis by (subst next_interval_closed) auto
  next
    case False
    with f' s assms(2) show ?thesis by (auto simp: next_interval_def gate_status_def Let_def)
  qed
  with f' show ?thesis
    by (simp add: gate_up_def swappable_all_def replace_registry_def)
qed

theorem failing_probes_verdict_witness:
  "next_interval (failed_probes (replicate 4 Canceled) (snd (probe (Inr []) False (serve_checker False)))) =
     40 * second"
proof -
  have s: "interval (serve_checker False) = 10 * second" "threshold (serve_checker False) = 2"
      "rejected_threshold (serve_checker False) = 3" "max_offline (serve_checker False) = 120 * second"
    using serve_checker_settings [of False] by (simp_all add: settings_def)
  have "trailing_rejections (replicate 4 Canceled) = 0"
    by (simp add: trailing_rejections_def rejected_error_def classify_def numeral_eq_Suc)
  then show ?thesis
    using failing_probes_verdict [of "serve_checker False" "replicate 4 Canceled" "[]"]
    by (simp add: s second_def)
qed

text \<open>
  One successful probe, whatever came before, swaps the listed sources into the
  registry, opens the gate and clears every count; and it announces the list before it announces
  that Redash is up, the latter only when the gate was closed.
\<close>

theorem successful_probe_recovers:
  "let c' = snd (probe (Inr sources) d c) in
     gate_up (gate c') \<and> kind (gate c') = KindOK \<and> reason (gate c') = [] \<and>
     failures c' = 0 \<and> rejections c' = 0 \<and>
     (\<forall>n. swappable_lookup (registry c') n = registry_lookup (new_registry sources) n) \<and>
     next_interval c' = interval c \<and>
     (\<exists>e. logs c' = logs c @ [e] @ (if gate_up (gate c) then [] else [RedashUp (length sources)]) \<and>
        e = (if encode_views (data_source_views sources) = fingerprint c
             then SourcesUnchanged (length sources)
             else SourcesRefreshed (length sources) (encode_views (data_source_views sources))))"
  using record_success_effect(7) [of sources "c\<lparr>probed := True\<rparr>"]
  by (simp add: probe_simps record_success_effect gate_up_def swappable_lookup_def
      replace_registry_def next_interval_def gate_status_def Let_def settings_def)

text \<open>
  \<open>serve\<close> without \<open>-wait-for-redash\<close> binds only after a probe that listed at least one
  source, with the gate open; with the flag it binds at once with the gate closed, so that a client
  that connects before the first answer is refused.
\<close>

theorem serve_start_gate:
  "case serve_start w out (serve_checker w) of
     None \<Rightarrow> \<not> w \<and> (isl out \<or> out = Inr [])
   | Some c \<Rightarrow> if w then \<not> gate_up (gate c) \<and> kind (gate c) = KindUnreachable
       else (\<exists>sources. out = Inr sources \<and> sources \<noteq> [] \<and> swappable_all (registry c) = sources \<and>
         gate_up (gate c))"
proof (cases w)
  case True
  then show ?thesis by (simp add: serve_start_def gate_up_def)
next
  case False
  then show ?thesis
    by (cases out) (simp_all add: serve_start_def probe_simps record_success_effect gate_up_def
        swappable_all_def replace_registry_def)
qed

end
