(* ===== verification/Redash_Client.thy ===== *)
theory Redash_Client
  imports Redash_Types Redash_Registry Health_Checker
begin

text \<open>
  \<open>internal/redash/client.go\<close>: the calls of the Redash API and the two loops that poll a job. What
  Redash answers to a request is an \<open>http_reply\<close>; what a polling loop meets in its \<open>select\<close> is a
  list of events, in the order they happen. The requests a call makes are returned with its result.
\<close>

section \<open>Requests and replies\<close>

datatype http_call =
    ListSources
  | GetSchemaOf int
  | PostQuery string int
  | GetJob string
  | CancelJob string
  | GetResult int

text \<open>
  The error of a done context. A request that got no response failed because its context or the
  client's own time limit ended it, an error that \<open>net/http\<close> makes match \<open>DeadlineExceeded\<close>, or
  because the connection broke.
\<close>

datatype ctx_error = Ctx_canceled | Ctx_deadline

fun error_of_ctx :: "ctx_error \<Rightarrow> go_error" where
  "error_of_ctx Ctx_canceled = Canceled"
| "error_of_ctx Ctx_deadline = DeadlineExceeded"

datatype transport_error = Aborted ctx_error | Broken string

fun transport_err :: "transport_error \<Rightarrow> go_error" where
  "transport_err (Aborted c) = error_of_ctx c"
| "transport_err (Broken m) = Plain m"

text \<open>
  A reply has a status, the number of bytes the JSON value at the head of its body takes, and the
  value, \<open>None\<close> when it does not parse.
\<close>

datatype http_reply = Transport transport_error | Reply int nat "json option"

definition decoding_error :: go_error where
  "decoding_error = Plain ''invalid JSON''"

definition decoded :: "string \<Rightarrow> (json \<Rightarrow> 'a option) \<Rightarrow> json option \<Rightarrow> go_error + 'a" where
  "decoded what f body =
     (case Option.bind body f of
        None \<Rightarrow> Inl (Wrapped what decoding_error)
      | Some x \<Rightarrow> Inr x)"

definition status_text :: "string \<Rightarrow> int \<Rightarrow> string" where
  "status_text what status = what @ '' (status '' @ int_to_string status @ '')''"

section \<open>The bounded reader\<close>

text \<open>
  \<open>maxBytesReader\<close> over an underlying body: a read of at most \<open>n\<close> bytes yields bytes or an error.
  The underlying reader may return fewer bytes than asked; \<open>got\<close> is its count.
\<close>

record max_bytes_reader =
  body :: string
  remaining :: int

definition new_max_bytes_reader :: "string \<Rightarrow> int \<Rightarrow> max_bytes_reader" where
  "new_max_bytes_reader b limit = \<lparr>body = b, remaining = limit + 1\<rparr>"

definition reader_read :: "nat \<Rightarrow> nat \<Rightarrow> max_bytes_reader \<Rightarrow> (go_error + string) \<times> max_bytes_reader" where
  "reader_read n got m =
     (if remaining m \<le> 0 then (Inl ResultTooLarge, m)
      else
        let len = (if int n > remaining m then nat (remaining m) else n);
            data = take (min got len) (body m) in
        (Inr data, m\<lparr>body := drop (length data) (body m), remaining := remaining m - int (length data)\<rparr>))"

text \<open>The decoder behind the reader fails when the value does not fit the bytes it lets through.\<close>

definition default_max_result_bytes :: int where
  "default_max_result_bytes = 268435456"

definition capped :: "int \<Rightarrow> nat \<Rightarrow> json option \<Rightarrow> go_error + json option" where
  "capped limit len v = (if limit + 1 < int len then Inl ResultTooLarge else Inr v)"

definition decoded_capped ::
  "int \<Rightarrow> string \<Rightarrow> (json \<Rightarrow> 'a option) \<Rightarrow> nat \<Rightarrow> json option \<Rightarrow> go_error + 'a" where
  "decoded_capped limit what f len v =
     (case capped limit len v of
        Inl e \<Rightarrow> Inl (Wrapped what e)
      | Inr b \<Rightarrow> decoded what f b)"

section \<open>Listing the sources\<close>

definition decode_source :: "json \<Rightarrow> data_source option" where
  "decode_source = decode_struct (\<lambda>kvs.
     case (decode_int (member ''id'' kvs), decode_string (member ''name'' kvs),
           decode_string (member ''type'' kvs)) of
       (Some i, Some n, Some t) \<Rightarrow> Some \<lparr>ds_id = i, ds_name = n, ds_type = t\<rparr>
     | _ \<Rightarrow> None)"

definition list_data_sources :: "http_reply \<Rightarrow> go_error + data_source list" where
  "list_data_sources r =
     (case r of
        Transport e \<Rightarrow> Inl (Wrapped ''fetching data sources'' (transport_err e))
      | Reply status len b \<Rightarrow>
          if status \<noteq> 200 then Inl (HttpError status (status_text ''data sources request failed'' status))
          else case decoded ''decoding data sources'' (\<lambda>v. decode_slice decode_source (Some v)) b of
            Inl e \<Rightarrow> Inl e
          | Inr None \<Rightarrow> Inr []
          | Inr (Some xs) \<Rightarrow> Inr xs)"

section \<open>Jobs\<close>

record job_info =
  job_id :: string
  job_status :: int
  job_error :: string
  query_result_id :: "int option"

definition job_status_queued :: int where "job_status_queued = 1"
definition job_status_started :: int where "job_status_started = 2"
definition job_status_finished :: int where "job_status_finished = 3"
definition job_status_failed :: int where "job_status_failed = 4"

definition decode_job :: "json \<Rightarrow> job_info option" where
  "decode_job = decode_struct (\<lambda>kvs.
     case (decode_string (member ''id'' kvs), decode_int (member ''status'' kvs),
           decode_string (member ''error'' kvs), decode_int_ptr (member ''query_result_id'' kvs)) of
       (Some i, Some s, Some e, Some q) \<Rightarrow>
         Some \<lparr>job_id = i, job_status = s, job_error = e, query_result_id = q\<rparr>
     | _ \<Rightarrow> None)"

text \<open>An absent struct member leaves the struct at its zero value.\<close>

definition decode_or_zero :: "(json \<Rightarrow> 'a option) \<Rightarrow> json option \<Rightarrow> 'a option" where
  "decode_or_zero f v = f (case v of None \<Rightarrow> JNull | Some x \<Rightarrow> x)"

definition decode_job_envelope :: "json \<Rightarrow> job_info option" where
  "decode_job_envelope = decode_struct (\<lambda>kvs. decode_or_zero decode_job (member ''job'' kvs))"

text \<open>\<open>fetchJob\<close>, with the decoder its destination selects.\<close>

definition fetch_job :: "(json \<Rightarrow> 'a option) \<Rightarrow> http_reply \<Rightarrow> go_error + 'a" where
  "fetch_job f r =
     (case r of
        Transport e \<Rightarrow> Inl (Wrapped ''getting job status'' (transport_err e))
      | Reply status len b \<Rightarrow>
          if status \<noteq> 200 then Inl (HttpError status (status_text ''job status request failed'' status))
          else decoded ''decoding job response'' f b)"

definition get_job :: "http_reply \<Rightarrow> go_error + job_info" where
  "get_job r = fetch_job decode_job_envelope r"

definition is_no_data_error :: "string \<Rightarrow> bool" where
  "is_no_data_error msg =
     (let lower = to_lower msg in
      contains_str lower ''query completed but it returned no data'' \<or>
      contains_str lower ''no data was returned'')"

definition max_consecutive_poll_errors :: nat where
  "max_consecutive_poll_errors = 5"

section \<open>Results\<close>

definition parse_query_result :: "column list \<Rightarrow> json list \<Rightarrow> go_error + query_result" where
  "parse_query_result cols raw_rows =
     (case decode_all decode_row raw_rows of
        None \<Rightarrow> Inl (Wrapped ''decoding row'' decoding_error)
      | Some rs \<Rightarrow> Inr \<lparr>columns = cols, rows = rs\<rparr>)"

text \<open>The \<open>query_result\<close> member of an envelope: columns and raw rows, \<open>None\<close> for a nil pointer.\<close>

definition decode_data :: "json \<Rightarrow> (column list \<times> json list) option" where
  "decode_data = decode_struct (\<lambda>kvs.
     case (decode_slice decode_column (member ''columns'' kvs), decode_slice Some (member ''rows'' kvs)) of
       (Some cs, Some rs) \<Rightarrow>
         Some (case cs of None \<Rightarrow> [] | Some xs \<Rightarrow> xs, case rs of None \<Rightarrow> [] | Some xs \<Rightarrow> xs)
     | _ \<Rightarrow> None)"

definition decode_ptr :: "(json \<Rightarrow> 'a option) \<Rightarrow> json option \<Rightarrow> 'a option option" where
  "decode_ptr f v =
     (case v of None \<Rightarrow> Some None | Some JNull \<Rightarrow> Some None | Some x \<Rightarrow> map_option Some (f x))"

record result_envelope =
  env_result :: "(column list \<times> json list) option"
  env_job :: "job_info option"

definition decode_result_envelope :: "json \<Rightarrow> result_envelope option" where
  "decode_result_envelope = decode_struct (\<lambda>kvs.
     case (decode_ptr (decode_struct (\<lambda>q. decode_or_zero decode_data (member ''data'' q)))
             (member ''query_result'' kvs),
           decode_ptr decode_job (member ''job'' kvs)) of
       (Some q, Some j) \<Rightarrow> Some \<lparr>env_result = q, env_job = j\<rparr>
     | _ \<Rightarrow> None)"

definition get_query_result :: "int \<Rightarrow> http_reply \<Rightarrow> go_error + query_result" where
  "get_query_result limit r =
     (case r of
        Transport e \<Rightarrow> Inl (Wrapped ''getting query result'' (transport_err e))
      | Reply status len b \<Rightarrow>
          if status \<noteq> 200 then Inl (Plain (status_text ''query result request failed'' status))
          else case decoded_capped limit ''decoding result response'' decode_result_envelope len b of
            Inl e \<Rightarrow> Inl e
          | Inr env \<Rightarrow>
              (case env_result env of
                 None \<Rightarrow> Inl (Plain ''no query_result in response'')
               | Some (cs, rs) \<Rightarrow> parse_query_result cs rs))"

section \<open>Polling a query job\<close>

text \<open>
  An event of the loop's \<open>select\<close>: the context is done, with its error; the deadline; or a tick, with
  the reply to the status request and the context's error after it. A loop whose events run out is
  still waiting: \<open>None\<close>.
\<close>

datatype poll_event = Ctx_done ctx_error | Deadline | Tick http_reply "ctx_error option"

fun poll_job :: "int \<Rightarrow> string \<Rightarrow> (int \<Rightarrow> http_reply) \<Rightarrow> string \<Rightarrow> nat \<Rightarrow> poll_event list \<Rightarrow>
    (http_call list \<times> (go_error + query_result)) option" where
  "poll_job limit poll_timeout result_of jid consecutive [] = None"
| "poll_job limit poll_timeout result_of jid consecutive (Ctx_done e # evs) =
     Some ([CancelJob jid], Inl (error_of_ctx e))"
| "poll_job limit poll_timeout result_of jid consecutive (Deadline # evs) =
     Some ([CancelJob jid], Inl (Plain (''query timed out after '' @ poll_timeout)))"
| "poll_job limit poll_timeout result_of jid consecutive (Tick reply ctx_err # evs) =
     map_option (\<lambda>(calls, res). (GetJob jid # calls, res))
     (case get_job reply of
        Inl err \<Rightarrow>
          if (case http_status err of None \<Rightarrow> False | Some s \<Rightarrow> is_fatal_status s) then Some ([], Inl err)
          else (case ctx_err of
            Some e \<Rightarrow> Some ([CancelJob jid], Inl (error_of_ctx e))
          | None \<Rightarrow>
              if consecutive + 1 \<ge> max_consecutive_poll_errors
              then Some ([CancelJob jid],
                     Inl (Wrapped (''job polling failed '' @ nat_to_string (consecutive + 1) @
                       '' times in a row'') err))
              else poll_job limit poll_timeout result_of jid (consecutive + 1) evs)
      | Inr job \<Rightarrow>
          if job_status job = job_status_queued \<or> job_status job = job_status_started
          then poll_job limit poll_timeout result_of jid 0 evs
          else if job_status job = job_status_finished then
            (case query_result_id job of
               None \<Rightarrow> Some ([], Inr empty_result)
             | Some rid \<Rightarrow> Some ([GetResult rid], get_query_result limit (result_of rid)))
          else if job_status job = job_status_failed then
            (if is_no_data_error (job_error job) then Some ([], Inr empty_result)
             else Some ([], Inl (QueryError (job_error job))))
          else Some ([], Inl (Plain (''unknown job status: '' @ int_to_string (job_status job)))))"

text \<open>\<open>redashErrorMessage\<close>, over a body of which one mebibyte is read.\<close>

definition redash_error_message :: "nat \<Rightarrow> json option \<Rightarrow> string" where
  "redash_error_message len b =
     (case decoded_capped 1048576 [] (decode_struct (\<lambda>kvs.
             case (decode_string (member ''message'' kvs), decode_string (member ''error'' kvs)) of
               (Some m, Some e) \<Rightarrow> Some (m, e) | _ \<Rightarrow> None)) len b of
        Inl e \<Rightarrow> ''no message body''
      | Inr (m, e) \<Rightarrow> if m \<noteq> [] then m else if e \<noteq> [] then e else ''no message body'')"

text \<open>The client, and what Redash will answer to one query.\<close>

record client =
  poll_timeout_text :: string
  max_result_bytes :: int

record query_env =
  submit_reply :: http_reply
  poll_events :: "poll_event list"
  result_reply :: "int \<Rightarrow> http_reply"

definition execute_query ::
  "client \<Rightarrow> query_env \<Rightarrow> string \<Rightarrow> int \<Rightarrow> (http_call list \<times> (go_error + query_result)) option" where
  "execute_query c env sql ds =
     map_option (\<lambda>(calls, res). (PostQuery sql ds # calls, res))
     (case submit_reply env of
        Transport e \<Rightarrow> Some ([], Inl (Wrapped ''executing request'' (transport_err e)))
      | Reply status len b \<Rightarrow>
          if status \<noteq> 200 then
            Some ([], Inl (Plain (status_text ''redash API error'' status @ '': '' @
              redash_error_message len b)))
          else case decoded_capped (max_result_bytes c) ''decoding response'' decode_result_envelope len b of
            Inl e \<Rightarrow> Some ([], Inl e)
          | Inr en \<Rightarrow>
              (case env_result en of
                 Some (cs, rs) \<Rightarrow> Some ([], parse_query_result cs rs)
               | None \<Rightarrow>
                   (case env_job en of
                      Some job \<Rightarrow> poll_job (max_result_bytes c) (poll_timeout_text c)
                        (result_reply env) (job_id job) 0 (poll_events env)
                    | None \<Rightarrow> Some ([], Inl (Plain ''unexpected response: no query_result or job'')))))"

section \<open>Schemas\<close>

record schema_job =
  sj_id :: string
  sj_status :: int
  sj_error :: "json option"
  sj_result :: "json option"

definition decode_schema_job :: "json \<Rightarrow> schema_job option" where
  "decode_schema_job = decode_struct (\<lambda>kvs.
     case (decode_string (member ''id'' kvs), decode_int (member ''status'' kvs)) of
       (Some i, Some s) \<Rightarrow>
         Some \<lparr>sj_id = i, sj_status = s, sj_error = member ''error'' kvs, sj_result = member ''result'' kvs\<rparr>
     | _ \<Rightarrow> None)"

record schema_envelope =
  se_schema :: "schema_table_raw list option"
  se_error :: "json option"
  se_job :: "schema_job option"

definition decode_schema_envelope :: "json \<Rightarrow> schema_envelope option" where
  "decode_schema_envelope = decode_struct (\<lambda>kvs.
     case (decode_slice decode_table_raw (member ''schema'' kvs),
           decode_ptr decode_schema_job (member ''job'' kvs)) of
       (Some s, Some j) \<Rightarrow> Some \<lparr>se_schema = s, se_error = member ''error'' kvs, se_job = j\<rparr>
     | _ \<Rightarrow> None)"

text \<open>\<open>errorText\<close>: \<open>raw_text\<close> gives a value that is not a string as it was written in the answer.\<close>

definition raw_error_text :: "(json \<Rightarrow> string) \<Rightarrow> json option \<Rightarrow> string" where
  "raw_error_text raw_text raw =
     (case raw of
        None \<Rightarrow> []
      | Some v \<Rightarrow> (case decode_string (Some v) of Some s \<Rightarrow> s | None \<Rightarrow> trim_space (raw_text v)))"

definition envelope_tables :: "(json \<Rightarrow> string) \<Rightarrow> schema_envelope \<Rightarrow> go_error + schema_table list" where
  "envelope_tables raw_text e =
     (if se_error e \<noteq> None \<and> se_error e \<noteq> Some JNull
      then Inl (Plain (''schema request failed: '' @ raw_error_text raw_text (se_error e)))
      else case se_schema e of
        None \<Rightarrow> Inl (Plain ''schema response contained no schema'')
      | Some raws \<Rightarrow> Inr (map to_schema_table raws))"

definition schema_from_job_result ::
  "(json \<Rightarrow> string) \<Rightarrow> json option \<Rightarrow> go_error + schema_table list" where
  "schema_from_job_result raw_text raw =
     (case raw of
        None \<Rightarrow> Inl (Plain ''schema job finished without a schema'')
      | Some JNull \<Rightarrow> Inl (Plain ''schema job finished without a schema'')
      | Some v \<Rightarrow>
          (case decode_slice decode_table_raw (Some v) of
             Some s \<Rightarrow> envelope_tables raw_text \<lparr>se_schema = s, se_error = None, se_job = None\<rparr>
           | None \<Rightarrow>
               (case decode_schema_envelope v of
                  None \<Rightarrow> Inl (Wrapped ''decoding schema job result'' decoding_error)
                | Some env \<Rightarrow> envelope_tables raw_text env)))"

definition decode_schema_job_envelope :: "json \<Rightarrow> schema_job option" where
  "decode_schema_job_envelope = decode_struct (\<lambda>kvs. decode_or_zero decode_schema_job (member ''job'' kvs))"

fun poll_schema_job :: "(json \<Rightarrow> string) \<Rightarrow> string \<Rightarrow> schema_job \<Rightarrow> nat \<Rightarrow> poll_event list \<Rightarrow>
    (http_call list \<times> (go_error + schema_table list)) option" where
  "poll_schema_job raw_text poll_timeout job consecutive evs =
     (if sj_status job = job_status_finished then
        Some ([], schema_from_job_result raw_text (sj_result job))
      else if sj_status job = job_status_failed then
        Some ([], Inl (Plain (''schema request failed: '' @ raw_error_text raw_text (sj_error job))))
      else if sj_status job \<noteq> job_status_queued \<and> sj_status job \<noteq> job_status_started then
        Some ([], Inl (Plain (''unknown schema job status: '' @ int_to_string (sj_status job))))
      else case evs of
        [] \<Rightarrow> None
      | Ctx_done e # _ \<Rightarrow> Some ([CancelJob (sj_id job)], Inl (error_of_ctx e))
      | Deadline # _ \<Rightarrow>
          Some ([CancelJob (sj_id job)], Inl (Plain (''schema fetch timed out after '' @ poll_timeout)))
      | Tick reply ctx_err # rest \<Rightarrow>
          map_option (\<lambda>(calls, res). (GetJob (sj_id job) # calls, res))
          (case fetch_job decode_schema_job_envelope reply of
             Inl err \<Rightarrow>
               if (case http_status err of None \<Rightarrow> False | Some s \<Rightarrow> is_fatal_status s)
               then Some ([], Inl err)
               else (case ctx_err of
                 Some e \<Rightarrow> Some ([CancelJob (sj_id job)], Inl (error_of_ctx e))
               | None \<Rightarrow>
                   if consecutive + 1 \<ge> max_consecutive_poll_errors
                   then Some ([CancelJob (sj_id job)],
                          Inl (Wrapped (''schema job polling failed '' @
                            nat_to_string (consecutive + 1) @ '' times in a row'') err))
                   else poll_schema_job raw_text poll_timeout job (consecutive + 1) rest)
           | Inr job' \<Rightarrow> poll_schema_job raw_text poll_timeout job' 0 rest))"

declare poll_schema_job.simps [simp del]

definition get_schema :: "(json \<Rightarrow> string) \<Rightarrow> client \<Rightarrow> http_reply \<Rightarrow> poll_event list \<Rightarrow> int \<Rightarrow>
    (http_call list \<times> (go_error + schema_table list)) option" where
  "get_schema raw_text c reply evs ds =
     map_option (\<lambda>(calls, res). (GetSchemaOf ds # calls, res))
     (case reply of
        Transport e \<Rightarrow> Some ([], Inl (Wrapped ''fetching schema'' (transport_err e)))
      | Reply status len b \<Rightarrow>
          if status \<noteq> 200 then Some ([], Inl (Plain (status_text ''schema request failed'' status)))
          else case decoded ''decoding schema'' decode_schema_envelope b of
            Inl e \<Rightarrow> Some ([], Inl e)
          | Inr env \<Rightarrow>
              (case se_job env of
                 Some job \<Rightarrow> poll_schema_job raw_text (poll_timeout_text c) job 0 evs
               | None \<Rightarrow> Some ([], envelope_tables raw_text env)))"

end
