(* ===== verification/Redash_Client_Laws.thy ===== *)
theory Redash_Client_Laws
  imports Redash_Client
begin

text \<open>
  The laws of the Redash client: what a poll makes of the events it meets, when it cancels the job,
  which failures it rides out, that it returns once its deadline comes, what the bounded reader lets
  through, and which failures count as evidence against Redash.
\<close>

section \<open>What a status reply says\<close>

definition transient_reply :: "http_reply \<Rightarrow> bool" where
  "transient_reply r =
     (case get_job r of
        Inl err \<Rightarrow> (case http_status err of None \<Rightarrow> True | Some s \<Rightarrow> \<not> is_fatal_status s)
      | Inr job \<Rightarrow> False)"

definition running_reply :: "http_reply \<Rightarrow> bool" where
  "running_reply r =
     (case get_job r of
        Inl err \<Rightarrow> False
      | Inr job \<Rightarrow> job_status job = job_status_queued \<or> job_status job = job_status_started)"

text \<open>A tick after which the loop may go on: the job runs, or the status request failed for now.\<close>

fun transient_tick :: "poll_event \<Rightarrow> bool" where
  "transient_tick (Tick r None) = transient_reply r"
| "transient_tick e = False"

fun running_tick :: "poll_event \<Rightarrow> bool" where
  "running_tick (Tick r c) = running_reply r"
| "running_tick e = False"

definition undecided :: "poll_event \<Rightarrow> bool" where
  "undecided e = (\<exists>r c. e = Tick r c \<and> (transient_reply r \<or> running_reply r))"

text \<open>The count of consecutive failures after events the loop survives.\<close>

fun patience :: "nat \<Rightarrow> poll_event list \<Rightarrow> nat option" where
  "patience k [] = Some k"
| "patience k (e # evs) =
     (if running_tick e then patience 0 evs
      else if transient_tick e \<and> k + 1 < max_consecutive_poll_errors then patience (k + 1) evs
      else None)"

lemma tick_cases:
  obtains (run) "running_reply r" | (trans) "transient_reply r"
  | (over) "\<not> running_reply r" "\<not> transient_reply r"
  by blast

lemma running_not_transient: "running_reply r \<Longrightarrow> \<not> transient_reply r"
  by (auto simp: running_reply_def transient_reply_def split: sum.splits)

text \<open>The step of the loop in each case.\<close>

lemma poll_running:
  "running_reply r \<Longrightarrow> poll_job l t f j k (Tick r c # evs) =
     map_option (\<lambda>(calls, res). (GetJob j # calls, res)) (poll_job l t f j 0 evs)"
  by (auto simp: running_reply_def split: sum.splits)

lemma poll_transient:
  assumes "transient_reply r"
  shows "poll_job l t f j k (Tick r None # evs) =
    (if k + 1 < max_consecutive_poll_errors
     then map_option (\<lambda>(calls, res). (GetJob j # calls, res)) (poll_job l t f j (k + 1) evs)
     else Some ([GetJob j, CancelJob j],
       Inl (Wrapped (''job polling failed '' @ nat_to_string (k + 1) @ '' times in a row'')
         (projl (get_job r)))))"
proof (cases "get_job r")
  case (Inl err)
  with assms show ?thesis by (auto simp: transient_reply_def split: option.splits)
next
  case (Inr job)
  with assms show ?thesis by (simp add: transient_reply_def)
qed

lemma poll_transient_ctx:
  "transient_reply r \<Longrightarrow> poll_job l t f j k (Tick r (Some c) # evs) =
     Some ([GetJob j, CancelJob j], Inl (error_of_ctx c))"
  by (auto simp: transient_reply_def split: sum.splits option.splits)

text \<open>A reply that decides: what the call returns after it, without a cancellation.\<close>

definition decided_by :: "int \<Rightarrow> (int \<Rightarrow> http_reply) \<Rightarrow> http_reply \<Rightarrow>
    http_call list \<times> (go_error + query_result)" where
  "decided_by limit result_of r =
     (case get_job r of
        Inl err \<Rightarrow> ([], Inl err)
      | Inr job \<Rightarrow>
          if job_status job = job_status_finished then
            (case query_result_id job of
               None \<Rightarrow> ([], Inr empty_result)
             | Some rid \<Rightarrow> ([GetResult rid], get_query_result limit (result_of rid)))
          else if job_status job = job_status_failed then
            (if is_no_data_error (job_error job) then ([], Inr empty_result)
             else ([], Inl (QueryError (job_error job))))
          else ([], Inl (Plain (''unknown job status: '' @ int_to_string (job_status job)))))"

lemma poll_decided:
  assumes "\<not> running_reply r" and "\<not> transient_reply r"
  shows "poll_job l t f j k (Tick r c # evs) =
    Some (case decided_by l f r of (calls, res) \<Rightarrow> (GetJob j # calls, res))"
  using assms
  by (auto simp: running_reply_def transient_reply_def decided_by_def split: sum.splits option.splits)

lemma decided_no_cancel: "CancelJob j \<notin> set (fst (decided_by l f r))"
  by (auto simp: decided_by_def split: sum.split option.split)

lemma poll_survives:
  "patience k evs = Some k' \<Longrightarrow>
   poll_job l t f j k (evs @ rest) =
     map_option (\<lambda>(calls, res). (replicate (length evs) (GetJob j) @ calls, res))
       (poll_job l t f j k' rest)"
proof (induction evs arbitrary: k)
  case Nil
  then show ?case by (simp add: option.map_id0 case_prod_unfold option.map_ident)
next
  case (Cons e evs)
  show ?case
  proof (cases "running_tick e")
    case True
    then obtain r c where e: "e = Tick r c" "running_reply r" by (cases e) auto
    with Cons True show ?thesis
      by (simp add: poll_running option.map_comp o_def case_prod_unfold del: poll_job.simps)
  next
    case False
    with Cons.prems have t: "transient_tick e" "k + 1 < max_consecutive_poll_errors"
        "patience (k + 1) evs = Some k'" by (auto split: if_splits)
    then obtain r where e: "e = Tick r None" "transient_reply r"
      by (cases e rule: transient_tick.cases) auto
    with Cons.IH [OF t(3)] t show ?thesis
      by (simp add: poll_transient option.map_comp o_def case_prod_unfold del: poll_job.simps)
  qed
qed

text \<open>No five failures in a row are survived, fewer are.\<close>

lemma patience_windows:
  assumes "\<forall>e \<in> set evs. running_tick e \<or> transient_tick e"
    and "k + length (takeWhile (\<lambda>e. \<not> running_tick e) evs) < 5"
    and "\<forall>i. i + 5 \<le> length evs \<longrightarrow> (\<exists>m < 5. running_tick (evs ! (i + m)))"
  shows "\<exists>k'. patience k evs = Some k'"
  using assms
proof (induction evs arbitrary: k)
  case (Cons e evs)
  have win: "\<forall>i. i + 5 \<le> length evs \<longrightarrow> (\<exists>m < 5. running_tick (evs ! (i + m)))"
  proof (intro allI impI)
    fix i assume "i + 5 \<le> length evs"
    then have "Suc i + 5 \<le> length (e # evs)" by simp
    with Cons.prems(3) obtain m where "m < 5" "running_tick ((e # evs) ! (Suc i + m))" by blast
    then show "\<exists>m < 5. running_tick (evs ! (i + m))" by auto
  qed
  show ?case
  proof (cases "running_tick e")
    case True
    have "length (takeWhile (\<lambda>e. \<not> running_tick e) evs) < 5"
    proof (rule ccontr)
      let ?w = "takeWhile (\<lambda>e. \<not> running_tick e) evs"
      assume "\<not> length ?w < 5"
      moreover have "length ?w \<le> length evs" by (rule length_takeWhile_le)
      ultimately have "0 + 5 \<le> length evs" by simp
      with win obtain m where m: "m < 5" "running_tick (evs ! (0 + m))" by blast
      with \<open>\<not> length ?w < 5\<close> have "evs ! m \<in> set ?w"
        by (metis add_0 less_le_trans not_less nth_mem takeWhile_nth)
      with m show False by (auto dest: set_takeWhileD)
    qed
    with Cons.IH [OF _ _ win, of 0] Cons.prems(1) True show ?thesis by simp
  next
    case False
    with Cons.prems have "transient_tick e" "k + 1 < 5"
        "(k + 1) + length (takeWhile (\<lambda>e. \<not> running_tick e) evs) < 5" by auto
    with Cons.IH [OF _ _ win, of "k + 1"] Cons.prems(1) False show ?thesis
      by (simp add: max_consecutive_poll_errors_def)
  qed
qed simp

text \<open>
  A query whose job finishes is not lost to failing status requests: if no five of the
  polls before the one that sees it finished fail in a row (a transport error, a 5xx or any status
  but 401, 403 and 404, an undecodable body), the call fetches that result and returns what the
  fetch gives, and it never cancels the job.
\<close>

theorem poll_rides_out_failures:
  assumes "\<forall>e \<in> set evs. running_tick e \<or> transient_tick e"
    and "\<forall>i. i + 5 \<le> length evs \<longrightarrow> (\<exists>m < 5. running_tick (evs ! (i + m)))"
    and "get_job r = Inr job" and "job_status job = 3" and "query_result_id job = Some rid"
  shows "poll_job limit t result_of jid 0 (evs @ Tick r c # later) =
    Some (replicate (length evs + 1) (GetJob jid) @ [GetResult rid], get_query_result limit (result_of rid))"
proof -
  have "length (takeWhile (\<lambda>e. \<not> running_tick e) evs) < 5"
  proof (rule ccontr)
    let ?w = "takeWhile (\<lambda>e. \<not> running_tick e) evs"
    assume w: "\<not> length ?w < 5"
    moreover have "length ?w \<le> length evs" by (rule length_takeWhile_le)
    ultimately have "0 + 5 \<le> length evs" by simp
    with assms(2) obtain m where m: "m < 5" "running_tick (evs ! (0 + m))" by blast
    with w have "evs ! m \<in> set ?w"
      by (metis add_0 less_le_trans not_less nth_mem takeWhile_nth)
    with m show False by (auto dest: set_takeWhileD)
  qed
  then obtain k where k: "patience 0 evs = Some k"
    using patience_windows [OF assms(1) _ assms(2), of 0] by auto
  have "\<not> running_reply r" "\<not> transient_reply r" "decided_by limit result_of r =
      ([GetResult rid], get_query_result limit (result_of rid))"
    using assms(3-5) by (simp_all add: running_reply_def transient_reply_def decided_by_def
        job_status_queued_def job_status_started_def job_status_finished_def)
  then show ?thesis
    by (simp add: poll_survives [OF k] poll_decided replicate_append_same del: poll_job.simps
        flip: replicate_Suc)
qed

definition job_reply :: "int \<Rightarrow> json \<Rightarrow> http_reply" where
  "job_reply status rid =
     Reply 200 40 (Some (JObj [(''job'', JObj [(''id'', JStr ''j''),
       (''status'', JNum (int_to_string status)), (''query_result_id'', rid)])]))"

lemma job_reply_values:
  "get_job (job_reply 2 JNull) =
     Inr \<lparr>job_id = ''j'', job_status = 2, job_error = [], query_result_id = None\<rparr>"
  "get_job (job_reply 3 (JNum ''17'')) =
     Inr \<lparr>job_id = ''j'', job_status = 3, job_error = [], query_result_id = Some 17\<rparr>"
  by code_simp+

lemma bad_gateway_transient: "transient_reply (Reply 502 0 None)"
  by code_simp

theorem poll_rides_out_failures_witness:
  "poll_job 100 ''2m0s'' (\<lambda>rid. Reply 200 0 None) ''j'' 0
     ([Tick (Reply 502 0 None) None, Tick (job_reply 2 JNull) None, Tick (Reply 502 0 None) None] @
      Tick (job_reply 3 (JNum ''17'')) None # []) =
   Some ([GetJob ''j'', GetJob ''j'', GetJob ''j'', GetJob ''j'', GetResult 17],
     get_query_result 100 (Reply 200 0 None))"
proof -
  have "running_reply (job_reply 2 JNull)"
    by (simp add: running_reply_def job_reply_values job_status_started_def)
  with bad_gateway_transient
  have "\<forall>e \<in> set [Tick (Reply 502 0 None) None, Tick (job_reply 2 JNull) None, Tick (Reply 502 0 None) None].
      running_tick e \<or> transient_tick e" by simp
  from poll_rides_out_failures [OF this _ job_reply_values(2), of 17 100 "''2m0s''"
      "\<lambda>rid. Reply 200 0 None" "''j''" None "[]"]
  show ?thesis by (simp del: append_Cons poll_job.simps)
qed

section \<open>Cancellation\<close>

text \<open>
  The three endings of a poll: \<open>n\<close> ticks are seen, all of them undecided but perhaps the last; a
  cancellation is sent exactly when all are.
\<close>

lemma poll_job_endings:
  assumes "poll_job l t f j k evs = Some (calls, res)"
  shows "\<exists>n ending. calls = replicate n (GetJob j) @ ending \<and> n \<le> length evs \<and>
    (if \<forall>e \<in> set (take n evs). undecided e then ending = [CancelJob j] \<and> isl res
     else ending = [] \<or> (\<exists>rid. ending = [GetResult rid]))"
  using assms
proof (induction evs arbitrary: k calls)
  case (Cons e evs)
  have step: ?case if "poll_job l t f j k' evs = Some (calls', res)" "calls = GetJob j # calls'"
      "undecided e" for k' calls'
  proof -
    from Cons.IH [OF that(1)] obtain n ending where n: "calls' = replicate n (GetJob j) @ ending"
        "n \<le> length evs" "if \<forall>e \<in> set (take n evs). undecided e then ending = [CancelJob j] \<and> isl res
          else ending = [] \<or> (\<exists>rid. ending = [GetResult rid])" by blast
    then show ?thesis using that(2,3) by (intro exI [of _ "Suc n"] exI [of _ ending]) auto
  qed
  have stop: ?case if "calls = [GetJob j, CancelJob j]" "undecided e" "isl res"
    using that by (intro exI [of _ 1] exI [of _ "[CancelJob j]"]) simp
  show ?case
  proof (cases e)
    case (Tick r c)
    show ?thesis
    proof (cases rule: tick_cases [of r])
      case run
      with Cons.prems Tick obtain calls' where "poll_job l t f j 0 evs = Some (calls', res)"
          "calls = GetJob j # calls'"
        by (auto simp: poll_running simp del: poll_job.simps)
      then show ?thesis using run Tick by (intro step) (auto simp: undecided_def)
    next
      case trans
      then have u: "undecided e" using Tick by (auto simp: undecided_def)
      show ?thesis
      proof (cases c)
        case None
        show ?thesis
        proof (cases "k + 1 < max_consecutive_poll_errors")
          case True
          with Cons.prems Tick None trans obtain calls' where
              "poll_job l t f j (k + 1) evs = Some (calls', res)" "calls = GetJob j # calls'"
            by (auto simp: poll_transient simp del: poll_job.simps)
          then show ?thesis using u by (rule step)
        next
          case False
          with Cons.prems Tick None trans u show ?thesis
            by (intro stop) (auto simp: poll_transient simp del: poll_job.simps)
        qed
      next
        case (Some ce)
        with Cons.prems Tick trans u show ?thesis
          by (intro stop) (auto simp: poll_transient_ctx simp del: poll_job.simps)
      qed
    next
      case over
      then have "\<not> undecided e" using Tick by (auto simp: undecided_def)
      moreover have "calls = GetJob j # fst (decided_by l f r)"
        using Cons.prems Tick poll_decided [OF over] by (simp add: case_prod_unfold del: poll_job.simps)
      moreover have "fst (decided_by l f r) = [] \<or> (\<exists>rid. fst (decided_by l f r) = [GetResult rid])"
        by (auto simp: decided_by_def split: sum.split option.split)
      ultimately show ?thesis
        by (intro exI [of _ 1] exI [of _ "fst (decided_by l f r)"]) simp
    qed
  qed (use Cons.prems in \<open>auto intro!: exI [of _ 0]\<close>)
qed simp

text \<open>
  Property C6: a poll leaves no warehouse query running unattended and cancels none that has ended:
  when it returns after \<open>n\<close> status requests, it has sent exactly one cancellation, as its last
  request and with an error as its result, if every one of those requests found the job running or
  failed transiently (the client went away, the deadline came, or the failures ran out its
  patience); if one of them decided the job, it has sent none.
\<close>

theorem poll_cancels_iff_undecided:
  assumes "poll_job limit t result_of jid 0 evs = Some (calls, res)"
  shows "\<exists>n ending. calls = replicate n (GetJob jid) @ ending \<and> n \<le> length evs \<and>
    (if \<forall>e \<in> set (take n evs). undecided e then ending = [CancelJob jid] \<and> isl res
     else CancelJob jid \<notin> set ending)"
  using poll_job_endings [OF assms] by (fastforce split: if_splits)

theorem poll_cancels_iff_undecided_witness:
  "\<exists>n ending. [GetJob ''j'', CancelJob ''j''] = replicate n (GetJob ''j'') @ ending \<and> n \<le> (2 :: nat) \<and>
    ending \<noteq> []"
proof -
  have "running_reply (job_reply 2 JNull)"
    by (simp add: running_reply_def job_reply_values job_status_started_def)
  then have "poll_job 100 ''2m0s'' (\<lambda>rid. Reply 200 0 None) ''j'' 0 [Tick (job_reply 2 JNull) None, Deadline] =
      Some ([GetJob ''j'', CancelJob ''j''], Inl (Plain (''query timed out after '' @ ''2m0s'')))"
    by (simp add: poll_running del: poll_job.simps(4))
  from poll_cancels_iff_undecided [OF this] obtain n ending where
      n: "[GetJob ''j'', CancelJob ''j''] = replicate n (GetJob ''j'') @ ending" "n \<le> 2" by auto
  have "ending \<noteq> []"
  proof
    assume "ending = []"
    with n have "CancelJob ''j'' \<in> set (replicate n (GetJob ''j''))"
      by (metis append.right_neutral list.set_intros(1,2))
    then show False by simp
  qed
  with n show ?thesis by blast
qed

section \<open>Termination\<close>

lemma poll_job_returns:
  assumes "Deadline \<in> set evs \<or> (\<exists>e. Ctx_done e \<in> set evs)"
  shows "\<exists>calls res. poll_job l t f j k evs = Some (calls, res)"
  using assms
proof (induction evs arbitrary: k)
  case (Cons e evs)
  show ?case
  proof (cases e)
    case (Tick r c)
    with Cons have IH: "\<exists>calls res. poll_job l t f j k' evs = Some (calls, res)" for k' by auto
    show ?thesis
    proof (cases rule: tick_cases [of r])
      case run
      then show ?thesis using IH [of 0] Tick by (auto simp: poll_running simp del: poll_job.simps)
    next
      case trans
      then show ?thesis using IH [of "k + 1"] Tick
        by (cases c) (auto simp: poll_transient poll_transient_ctx simp del: poll_job.simps)
    next
      case over
      then show ?thesis using Tick by (simp add: poll_decided case_prod_unfold del: poll_job.simps)
    qed
  qed simp_all
qed simp

text \<open>
  Property C35: \<open>ExecuteQuery\<close> returns. Whatever Redash answers, once the poll timeout has passed or
  the caller's context is done among the events of its loop, the call has a result, and it has made
  at most two requests more than there were events.
\<close>

theorem execute_query_returns:
  assumes "Deadline \<in> set (poll_events env) \<or> (\<exists>e. Ctx_done e \<in> set (poll_events env))"
  shows "\<exists>calls res. execute_query c env sql ds = Some (calls, res) \<and>
    length calls \<le> length (poll_events env) + 2"
proof -
  have len: "length calls \<le> length evs + 1" if "poll_job l t f j 0 evs = Some (calls, res)"
    for l t f j evs calls res
    using poll_job_endings [OF that] by (auto split: if_splits)
  show ?thesis
  proof (cases "submit_reply env")
    case (Reply status l b)
    show ?thesis
    proof (cases "decoded_capped (max_result_bytes c) ''decoding response'' decode_result_envelope l b")
      case (Inr en)
      show ?thesis
      proof (cases "env_result en = None \<and> env_job en \<noteq> None")
        case True
        then obtain job where job: "env_result en = None" "env_job en = Some job" by blast
        obtain calls res where p: "poll_job (max_result_bytes c) (poll_timeout_text c)
            (result_reply env) (job_id job) 0 (poll_events env) = Some (calls, res)"
          using poll_job_returns [OF assms] by blast
        show ?thesis
          using len [OF p] by (cases "status = 200") (simp_all add: execute_query_def Reply Inr job p)
      qed (use Reply Inr in \<open>auto simp: execute_query_def split: option.split\<close>)
    qed (simp add: execute_query_def Reply)
  qed (simp add: execute_query_def)
qed

theorem execute_query_returns_witness:
  "\<exists>calls res. execute_query \<lparr>poll_timeout_text = ''2m0s'', max_result_bytes = 100\<rparr>
      \<lparr>submit_reply = Reply 200 2 (Some (JObj [])), poll_events = [Deadline], result_reply = \<lambda>_. Reply 500 0 None\<rparr>
      ''SELECT 1'' 1 = Some (calls, res) \<and> length calls \<le> 1 + 2"
  using execute_query_returns [of "\<lparr>submit_reply = Reply 200 2 (Some (JObj [])), poll_events = [Deadline],
      result_reply = \<lambda>_. Reply 500 0 None\<rparr>" "\<lparr>poll_timeout_text = ''2m0s'', max_result_bytes = 100\<rparr>"
      "''SELECT 1''" 1] by simp

section \<open>Evidence against Redash\<close>

lemma suspicious_simps [simp]:
  "suspicious (Some (Wrapped p e)) = suspicious (Some e)"
  "suspicious (Some (HttpError s m))" "suspicious (Some (Plain m))" "suspicious (Some ResultTooLarge)"
  "\<not> suspicious (Some (QueryError m))" "\<not> suspicious (Some (error_of_ctx ce))" "\<not> suspicious None"
  "suspicious (Some decoding_error)"
  by (cases ce; simp add: suspicious_def decoding_error_def)+

text \<open>A request that neither its context nor the client's time limit ended.\<close>

fun not_aborted :: "http_reply \<Rightarrow> bool" where
  "not_aborted (Transport (Aborted c)) = False"
| "not_aborted r = True"

lemma not_aborted_transport: "not_aborted (Transport e) \<Longrightarrow> suspicious (Some (transport_err e))"
  by (cases e) simp_all

lemma decoded_suspicious: "decoded what f b = Inl e \<Longrightarrow> suspicious (Some e)"
  by (auto simp: decoded_def split: option.splits)

lemma decoded_capped_suspicious: "decoded_capped lim what f len b = Inl e \<Longrightarrow> suspicious (Some e)"
  by (auto simp: decoded_capped_def capped_def decoded_suspicious split: sum.splits if_splits)

lemma get_job_suspicious: "get_job r = Inl e \<Longrightarrow> not_aborted r \<Longrightarrow> suspicious (Some e)"
  by (cases r) (auto simp: get_job_def fetch_job_def not_aborted_transport decoded_suspicious split: if_splits)

lemma parse_result_suspicious: "parse_query_result cs rs = Inl e \<Longrightarrow> suspicious (Some e)"
  by (auto simp: parse_query_result_def split: option.splits)

lemma get_result_suspicious:
  "get_query_result lim r = Inl e \<Longrightarrow> not_aborted r \<Longrightarrow> suspicious (Some e)"
  by (cases r) (auto simp: get_query_result_def not_aborted_transport decoded_capped_suspicious
      parse_result_suspicious split: if_splits sum.splits option.splits)

text \<open>The events of a poll nobody abandoned.\<close>

fun attended :: "poll_event \<Rightarrow> bool" where
  "attended (Ctx_done e) = False"
| "attended Deadline = True"
| "attended (Tick r c) = (c = None \<and> not_aborted r)"

definition job_failed_with :: "poll_event list \<Rightarrow> go_error \<Rightarrow> bool" where
  "job_failed_with evs e \<longleftrightarrow>
     (\<exists>r c job. Tick r c \<in> set evs \<and> get_job r = Inr job \<and> job_status job = 4 \<and>
        \<not> is_no_data_error (job_error job) \<and> e = QueryError (job_error job))"

lemma poll_error_kind:
  assumes "poll_job l t f j k evs = Some (calls, Inl e)" and "\<forall>ev \<in> set evs. attended ev"
    and "\<forall>rid. not_aborted (f rid)"
  shows "suspicious (Some e) \<or> job_failed_with evs e"
  using assms(1,2)
proof (induction evs arbitrary: k calls)
  case (Cons ev evs)
  have later: "job_failed_with (ev # evs) e" if "job_failed_with evs e"
    using that by (auto simp: job_failed_with_def)
  show ?case
  proof (cases ev)
    case (Tick r c)
    with Cons.prems(2) have r: "not_aborted r" "c = None" by auto
    show ?thesis
    proof (cases rule: tick_cases [of r])
      case run
      with Cons.prems Tick obtain calls' where "poll_job l t f j 0 evs = Some (calls', Inl e)"
        by (auto simp: poll_running simp del: poll_job.simps)
      with Cons later show ?thesis by fastforce
    next
      case trans
      show ?thesis
      proof (cases "k + 1 < max_consecutive_poll_errors")
        case True
        with Cons.prems Tick r trans obtain calls' where
            "poll_job l t f j (k + 1) evs = Some (calls', Inl e)"
          by (auto simp: poll_transient simp del: poll_job.simps)
        with Cons later show ?thesis by fastforce
      next
        case False
        obtain err where err: "get_job r = Inl err"
          using trans by (cases "get_job r") (auto simp: transient_reply_def)
        with Cons.prems Tick r trans False show ?thesis
          by (auto simp: poll_transient get_job_suspicious simp del: poll_job.simps)
      qed
    next
      case over
      with Cons.prems Tick have d: "snd (decided_by l f r) = Inl e"
        by (simp add: poll_decided case_prod_unfold del: poll_job.simps)
      show ?thesis
      proof (cases "get_job r")
        case (Inl err)
        with d r show ?thesis by (auto simp: decided_by_def get_job_suspicious)
      next
        case (Inr job)
        with d assms(3) Tick show ?thesis
          by (auto simp: decided_by_def get_result_suspicious job_failed_with_def
              job_status_failed_def split: if_splits option.splits)
      qed
    qed
  qed (use Cons.prems in auto)
qed simp

text \<open>
  A failed query that nobody abandoned (no context done, no time limit of the client's
  own hit) makes the session suspect Redash exactly when the failure is not the data source's own
  verdict on the SQL: an error is either suspicious or the text with which the job reported that it
  failed, never both.
\<close>

theorem suspicion_spares_sql_errors:
  assumes "execute_query c env sql ds = Some (calls, Inl e)"
    and "\<forall>ev \<in> set (poll_events env). attended ev"
    and "not_aborted (submit_reply env)" and "\<forall>rid. not_aborted (result_reply env rid)"
  shows "suspicious (Some e) \<longleftrightarrow> \<not> job_failed_with (poll_events env) e"
proof -
  have "suspicious (Some e) \<or> job_failed_with (poll_events env) e"
    using assms poll_error_kind [of _ _ _ _ 0 "poll_events env" _ e, OF _ assms(2,4)]
    by (auto simp: execute_query_def not_aborted_transport decoded_capped_suspicious
        parse_result_suspicious split: http_reply.splits if_splits sum.splits option.splits)
  moreover have "\<not> suspicious (Some e)" if "job_failed_with (poll_events env) e"
    using that by (auto simp: job_failed_with_def)
  ultimately show ?thesis by blast
qed

theorem suspicion_spares_sql_errors_witness:
  "suspicious (Some (Plain (status_text ''redash API error'' 500 @ '': '' @ redash_error_message 0 None))) \<longleftrightarrow>
   \<not> job_failed_with [] (Plain (status_text ''redash API error'' 500 @ '': '' @ redash_error_message 0 None))"
  using suspicion_spares_sql_errors [of "\<lparr>poll_timeout_text = [], max_result_bytes = 9\<rparr>"
      "\<lparr>submit_reply = Reply 500 0 None, poll_events = [], result_reply = \<lambda>_. Reply 500 0 None\<rparr>" "''x''" 1]
  by (simp add: execute_query_def)

text \<open>
  A submission that Redash never answers until the HTTP client's own limit of thirty
  seconds ends it is not taken as evidence against Redash, although nobody abandoned it: the error
  of that limit matches \<open>context.DeadlineExceeded\<close>, which \<open>Suspicious\<close> takes for a caller that gave
  up.
\<close>

theorem hung_submission_not_suspicious:
  assumes "submit_reply env = Transport (Aborted Ctx_deadline)"
  shows "\<exists>e. execute_query c env sql ds = Some ([PostQuery sql ds], Inl e) \<and> \<not> suspicious (Some e)"
  using assms by (simp add: execute_query_def suspicious_def)

theorem hung_submission_not_suspicious_witness:
  "\<exists>e. execute_query \<lparr>poll_timeout_text = [], max_result_bytes = 9\<rparr>
      \<lparr>submit_reply = Transport (Aborted Ctx_deadline), poll_events = [], result_reply = \<lambda>_. Reply 500 0 None\<rparr>
      ''x'' 1 = Some ([PostQuery ''x'' 1], Inl e) \<and> \<not> suspicious (Some e)"
  by (rule hung_submission_not_suspicious) simp

section \<open>The bounded reader\<close>

text \<open>A sequence of reads, each with the bytes asked for and those the body has ready.\<close>

fun reads :: "(nat \<times> nat) list \<Rightarrow> max_bytes_reader \<Rightarrow> string \<times> bool" where
  "reads [] m = ([], False)"
| "reads ((n, got) # rs) m =
     (case reader_read n got m of
        (Inl e, m') \<Rightarrow> ([], True)
      | (Inr data, m') \<Rightarrow> (let (rest, failed) = reads rs m' in (data @ rest, failed)))"

text \<open>
  Whatever the sizes of its reads, a reader bounded at \<open>limit\<close> hands over a prefix of
  the body of at most \<open>limit + 1\<close> bytes, never more memory than that, and it fails only after it
  has handed over exactly \<open>limit + 1\<close>, so a body within the limit is never cut.
\<close>

theorem max_bytes_reader_bound:
  assumes "0 \<le> limit" and "reads rs (new_max_bytes_reader b limit) = (out, failed)"
  shows "prefix out b \<and> int (length out) \<le> limit + 1 \<and>
    (if failed then int (length out) = limit + 1 else True)"
proof -
  have "prefix out (body m) \<and> int (length out) \<le> remaining m \<and> (failed \<longrightarrow> int (length out) = remaining m)"
    if "reads rs m = (out, failed)" "0 \<le> remaining m" for m
    using that
  proof (induction rs arbitrary: m out)
    case (Cons r rs)
    obtain n got where r: "r = (n, got)" by (cases r)
    show ?case
    proof (cases "remaining m \<le> 0")
      case True
      with Cons.prems r show ?thesis by (auto simp: reader_read_def)
    next
      case False
      let ?len = "if int n > remaining m then nat (remaining m) else n"
      let ?data = "take (min got ?len) (body m)"
      let ?m = "m\<lparr>body := drop (length ?data) (body m), remaining := remaining m - int (length ?data)\<rparr>"
      have step: "reader_read n got m = (Inr ?data, ?m)" using False by (simp add: reader_read_def Let_def)
      have small: "int (length ?data) \<le> remaining m" using False by auto
      obtain out' where out': "reads rs ?m = (out', failed)" "out = ?data @ out'"
        using Cons.prems(1) unfolding r reads.simps step by (auto simp: Let_def split: prod.splits)
      with Cons.IH [of ?m out'] small
      have "prefix out' (drop (length ?data) (body m))" "int (length out') \<le> remaining m - int (length ?data)"
          "failed \<longrightarrow> int (length out') = remaining m - int (length ?data)" by auto
      moreover have "prefix out (?data @ drop (length ?data) (body m))"
        using calculation(1) out'(2) by (simp add: same_prefix_prefix)
      then have "prefix out (body m)"
        by (metis append_take_drop_id length_take min.absorb_iff2 min.cobounded1 take_all_iff
            append_eq_conv_conj min.commute)
      ultimately show ?thesis using out'(2) by simp
    qed
  qed simp
  from this [of "new_max_bytes_reader b limit"] assms show ?thesis
    by (simp add: new_max_bytes_reader_def)
qed

theorem max_bytes_reader_bound_witness:
  "prefix ''abc'' ''abcdef'' \<and> int (length ''abc'') = 2 + 1"
proof -
  have "reads [(2, 9), (9, 9), (1, 1)] (new_max_bytes_reader ''abcdef'' 2) = (''abc'', True)"
    by code_simp
  from max_bytes_reader_bound [OF _ this] show ?thesis by simp
qed

section \<open>Schemas\<close>

text \<open>
  An answer of the schema endpoint without a job that carries an error, or no schema,
  is a failure although its status is 200, so nothing empty is remembered as the session's schema:
  a success comes from an answer whose schema is an array, with one table for each of its elements.
\<close>

theorem schema_success_has_schema:
  assumes "get_schema raw_text c (Reply 200 len (Some (JObj kvs))) evs ds = Some (calls, Inr tables)"
    and "member ''job'' kvs = None"
  shows "\<exists>vs. member ''schema'' kvs = Some (JArr vs) \<and> length tables = length vs \<and>
    member ''error'' kvs \<in> {None, Some JNull} \<and> calls = [GetSchemaOf ds]"
proof -
  obtain s where s: "decode_slice decode_table_raw (member ''schema'' kvs) = Some s"
    and t: "envelope_tables raw_text \<lparr>se_schema = s, se_error = member ''error'' kvs, se_job = None\<rparr> = Inr tables"
    and calls: "calls = [GetSchemaOf ds]"
    using assms by (auto simp: get_schema_def decoded_def decode_schema_envelope_def decode_struct_def
        decode_ptr_def split: sum.splits option.splits)
  then obtain raws where raws: "s = Some raws" "tables = map to_schema_table raws"
      "member ''error'' kvs \<in> {None, Some JNull}"
    by (auto simp: envelope_tables_def split: if_splits option.splits)
  with s obtain vs where "member ''schema'' kvs = Some (JArr vs)" "decode_all decode_table_raw vs = Some raws"
    by (auto simp: decode_slice_def split: option.splits json.splits)
  with raws calls show ?thesis by (simp add: decode_all_length)
qed

theorem schema_success_has_schema_witness:
  "\<exists>vs. member ''schema'' [(''schema'', JArr [])] = Some (JArr vs) \<and> length ([] :: schema_table list) = length vs"
proof -
  have "get_schema (\<lambda>_. []) \<lparr>poll_timeout_text = [], max_result_bytes = 9\<rparr>
      (Reply 200 13 (Some (JObj [(''schema'', JArr [])]))) [] 4 = Some ([GetSchemaOf 4], Inr [])"
    by code_simp
  from schema_success_has_schema [OF this] show ?thesis by (auto simp: member_def equal_fold_def to_lower_def)
qed

end
