(* ===== verification/Pg_Messages.thy ===== *)
theory Pg_Messages
  imports Redash_Types "HOL-Library.Word"
begin

text \<open>
  The backend messages that \<open>internal/pgwire\<close> writes and \<open>types.go\<close>. The encoder is
  \<open>pgproto3\<close>, which is not part of the repository: a write to the connection is the list of messages
  in it. An encoder error (a message above one gibibyte) is not modelled.
\<close>

section \<open>Types\<close>

definition oid_bool :: "32 word" where "oid_bool = 16"
definition oid_int8 :: "32 word" where "oid_int8 = 20"
definition oid_int4 :: "32 word" where "oid_int4 = 23"
definition oid_text :: "32 word" where "oid_text = 25"
definition oid_float8 :: "32 word" where "oid_float8 = 701"
definition oid_date :: "32 word" where "oid_date = 1082"
definition oid_timestamp :: "32 word" where "oid_timestamp = 1114"
definition oid_timestamptz :: "32 word" where "oid_timestamptz = 1184"
definition oid_jsonb :: "32 word" where "oid_jsonb = 3802"

lemmas oid_defs = oid_bool_def oid_int8_def oid_int4_def oid_text_def oid_float8_def oid_date_def
  oid_timestamp_def oid_timestamptz_def oid_jsonb_def

definition redash_type_to_pg_oid :: "string \<Rightarrow> 32 word" where
  "redash_type_to_pg_oid ty =
     (if ty = ''string'' then oid_text
      else if ty = ''integer'' then oid_int8
      else if ty = ''float'' then oid_float8
      else if ty = ''boolean'' then oid_bool
      else if ty = ''datetime'' then oid_timestamp
      else if ty = ''date'' then oid_date
      else if ty = ''json'' \<or> ty = ''jsonb'' then oid_jsonb
      else oid_text)"

definition redash_type_to_pg_size :: "string \<Rightarrow> int" where
  "redash_type_to_pg_size ty =
     (if ty = ''boolean'' then 1
      else if ty = ''integer'' then 8
      else if ty = ''float'' then 8
      else if ty = ''date'' then 4
      else if ty = ''datetime'' then 8
      else -1)"

text \<open>The size PostgreSQL declares for a type, as far as the proxy uses them.\<close>

definition pg_type_size :: "32 word \<Rightarrow> int" where
  "pg_type_size oid =
     (if oid = oid_bool then 1 else if oid = oid_int4 \<or> oid = oid_date then 4
      else if oid \<in> {oid_int8, oid_float8, oid_timestamp, oid_timestamptz} then 8 else -1)"

lemma type_sizes_agree: "redash_type_to_pg_size ty = pg_type_size (redash_type_to_pg_oid ty)"
  by (simp add: redash_type_to_pg_size_def redash_type_to_pg_oid_def pg_type_size_def oid_defs)

section \<open>Messages\<close>

record field_description =
  fd_name :: string
  fd_oid :: "32 word"
  fd_size :: int

datatype be_msg =
    RowDescription "field_description list"
  | DataRow "string option list"
  | CommandComplete string
  | ReadyForQuery
  | ErrorResponse (severity: string) (sql_state: string) (err_message: string) (hint: string)
  | NoticeResponse string string
  | EmptyQueryResponse
  | AuthenticationOk
  | AuthenticationCleartextPassword
  | ParameterStatus string string
  | BackendKeyData "32 word" string
  | DenyEncryption

section \<open>Replies\<close>

definition send_error_code :: "string \<Rightarrow> string \<Rightarrow> string \<Rightarrow> be_msg list" where
  "send_error_code code msg h = [ErrorResponse ''ERROR'' code msg h, ReadyForQuery]"

definition send_error :: "string \<Rightarrow> be_msg list" where
  "send_error msg = send_error_code ''XX000'' msg []"

definition send_fatal :: "string \<Rightarrow> string \<Rightarrow> be_msg list" where
  "send_fatal code msg = [ErrorResponse ''FATAL'' code msg []]"

definition send_empty_query :: "be_msg list" where
  "send_empty_query = [EmptyQueryResponse, ReadyForQuery]"

definition send_command_complete :: "string \<Rightarrow> be_msg list" where
  "send_command_complete tag = [CommandComplete tag, ReadyForQuery]"

definition text_field :: "string \<Rightarrow> field_description" where
  "text_field name = \<lparr>fd_name = name, fd_oid = oid_text, fd_size = -1\<rparr>"

definition send_single_row_result :: "string \<Rightarrow> string \<Rightarrow> be_msg list" where
  "send_single_row_result col v =
     [RowDescription [text_field col], DataRow [Some v], CommandComplete ''SELECT 1'', ReadyForQuery]"

definition send_ready_for_query :: "be_msg list" where
  "send_ready_for_query = [ReadyForQuery]"

definition send_empty_result :: "string list \<Rightarrow> be_msg list" where
  "send_empty_result cols =
     [RowDescription (map text_field cols), CommandComplete ''SELECT 0'', ReadyForQuery]"

section \<open>What a client of the simple protocol expects\<close>

text \<open>
  The answer to one simple query: rows that fit the described columns and a command tag, or an
  empty query, or an error, after notices, and at last one \<open>ReadyForQuery\<close>.
\<close>

fun result_body :: "nat option \<Rightarrow> be_msg list \<Rightarrow> bool" where
  "result_body n (DataRow vs # ms) = (n = Some (length vs) \<and> result_body n ms)"
| "result_body n (NoticeResponse c t # ms) = result_body n ms"
| "result_body n [CommandComplete tag, ReadyForQuery] = True"
| "result_body n ms = False"

fun simple_reply :: "be_msg list \<Rightarrow> bool" where
  "simple_reply (RowDescription fs # ms) = result_body (Some (length fs)) ms"
| "simple_reply [EmptyQueryResponse, ReadyForQuery] = True"
| "simple_reply [ErrorResponse sev code t h, ReadyForQuery] = (sev = ''ERROR'')"
| "simple_reply ms = result_body None ms"

text \<open>Such an answer ends with its only \<open>ReadyForQuery\<close> and holds at most one error.\<close>

definition ready_count :: "be_msg list \<Rightarrow> nat" where
  "ready_count ms = length (filter (\<lambda>m. m = ReadyForQuery) ms)"

definition error_count :: "be_msg list \<Rightarrow> nat" where
  "error_count ms = length (filter is_ErrorResponse ms)"

lemma counts_simps [simp]:
  "ready_count [] = 0" "ready_count (m # ms) = (if m = ReadyForQuery then 1 else 0) + ready_count ms"
  "ready_count (ms @ ns) = ready_count ms + ready_count ns"
  "error_count [] = 0" "error_count (m # ms) = (if is_ErrorResponse m then 1 else 0) + error_count ms"
  "error_count (ms @ ns) = error_count ms + error_count ns"
  by (simp_all add: ready_count_def error_count_def)

lemma result_body_ready: "result_body n ms \<Longrightarrow> last ms = ReadyForQuery \<and> ready_count ms = 1 \<and> error_count ms = 0 \<and> ms \<noteq> []"
  by (induction n ms rule: result_body.induct) auto

lemma simple_reply_ready: "simple_reply ms \<Longrightarrow> last ms = ReadyForQuery \<and> ready_count ms = 1 \<and> error_count ms \<le> 1 \<and> ms \<noteq> []"
  by (induction ms rule: simple_reply.induct) (auto dest: result_body_ready)

named_theorems reply_shape \<open>the replies that answer one simple query\<close>

lemma send_replies [reply_shape]:
  "simple_reply (send_error_code code msg h)" "simple_reply (send_error msg)"
  "simple_reply send_empty_query" "simple_reply (send_command_complete tag)"
  "simple_reply (send_single_row_result col v)" "simple_reply (send_empty_result cols)"
  by (simp_all add: send_error_code_def send_error_def send_empty_query_def
      send_command_complete_def send_single_row_result_def send_empty_result_def)

end
