(* ===== verification/Pg_Datetime.thy ===== *)
theory Pg_Datetime
  imports Redash_Types
begin

text \<open>
  The date and time values of \<open>internal/pgwire/query.go\<close>: \<open>parseDatetime\<close> over its nine layouts,
  the classification of a column and \<open>formatDatetime\<close>. \<open>time.Parse\<close> and \<open>Time.Format\<close> are modelled
  for the elements these layouts use; a layout is the list of its elements.
\<close>

section \<open>The calendar\<close>

record civil =
  year :: int
  month :: nat
  day :: nat
  secs :: int
  nanos :: int

definition is_leap :: "int \<Rightarrow> bool" where
  "is_leap y = (y mod 4 = 0 \<and> (y mod 100 \<noteq> 0 \<or> y mod 400 = 0))"

definition days_in :: "nat \<Rightarrow> int \<Rightarrow> nat" where
  "days_in m y =
     (if m = 2 then (if is_leap y then 29 else 28)
      else if m = 4 \<or> m = 6 \<or> m = 9 \<or> m = 11 then 30 else 31)"

definition next_day :: "civil \<Rightarrow> civil" where
  "next_day t =
     (if day t < days_in (month t) (year t) then t\<lparr>day := day t + 1\<rparr>
      else if month t < 12 then t\<lparr>month := month t + 1, day := 1\<rparr>
      else t\<lparr>year := year t + 1, month := 1, day := 1\<rparr>)"

definition prev_day :: "civil \<Rightarrow> civil" where
  "prev_day t =
     (if 1 < day t then t\<lparr>day := day t - 1\<rparr>
      else if 1 < month t then t\<lparr>month := month t - 1, day := days_in (month t - 1) (year t)\<rparr>
      else t\<lparr>year := year t - 1, month := 12, day := 31\<rparr>)"

definition valid_date :: "civil \<Rightarrow> bool" where
  "valid_date t \<longleftrightarrow> 1 \<le> month t \<and> month t \<le> 12 \<and> 1 \<le> day t \<and> day t \<le> days_in (month t) (year t)"

text \<open>\<open>secs\<close> counts the seconds of the day; the days they overflow move the date.\<close>

definition shift_days :: "int \<Rightarrow> civil \<Rightarrow> civil" where
  "shift_days n t =
     (if n < 0 then (prev_day ^^ nat (- n)) t else (next_day ^^ nat n) t)"

definition to_utc :: "int \<Rightarrow> civil \<Rightarrow> civil" where
  "to_utc offset t =
     (let s = secs t - offset in
      shift_days (s div 86400) t\<lparr>secs := s mod 86400\<rparr>)"

section \<open>Parsing\<close>

datatype layout_item = Year4 | Month2 | Day2 | Hour | Minute2 | Second2 | ZoneColon | ZoneShort
  | ZonePlain | Literal char

record parse_state =
  p_year :: int
  p_month :: nat
  p_day :: nat
  p_hour :: nat
  p_min :: nat
  p_sec :: nat
  p_nanos :: int
  p_offset :: int

definition digit_val :: "char \<Rightarrow> nat" where
  "digit_val c = byte c - 48"

text \<open>\<open>getnum\<close>: two digits, or one where the layout does not fix the width.\<close>

definition getnum :: "bool \<Rightarrow> string \<Rightarrow> (nat \<times> string) option" where
  "getnum fixed s =
     (case s of
        [] \<Rightarrow> None
      | c # r \<Rightarrow>
          if \<not> is_digit c then None
          else (case r of
              [] \<Rightarrow> if fixed then None else Some (digit_val c, r)
            | d # r' \<Rightarrow>
                if is_digit d then Some (digit_val c * 10 + digit_val d, r')
                else if fixed then None else Some (digit_val c, r)))"

text \<open>The fraction of a second after the seconds: at most nine of its digits count.\<close>

definition nanos_of :: "string \<Rightarrow> int" where
  "nanos_of ds =
     (let d9 = take 9 ds in
      foldl (\<lambda>n c. n * 10 + int (digit_val c)) 0 d9 * 10 ^ (9 - length d9))"

definition take_fraction :: "string \<Rightarrow> int \<times> string" where
  "take_fraction s =
     (case s of
        p # d # r \<Rightarrow>
          if (p = CHR ''.'' \<or> p = CHR '','') \<and> is_digit d
          then (nanos_of (takeWhile is_digit (d # r)), dropWhile is_digit (d # r))
          else (0, s)
      | _ \<Rightarrow> (0, s))"

definition zone_offset :: "char \<Rightarrow> string \<Rightarrow> string \<Rightarrow> int option" where
  "zone_offset sign hh mm =
     (case (getnum True hh, getnum True mm) of
        (Some (h, _), Some (m, _)) \<Rightarrow>
          if 24 < h \<or> 60 < m then None
          else if sign = CHR ''+'' then Some (int ((h * 60 + m) * 60))
          else if sign = CHR ''-'' then Some (- int ((h * 60 + m) * 60))
          else None
      | _ \<Rightarrow> None)"

definition take_zone :: "layout_item \<Rightarrow> string \<Rightarrow> (int \<times> string) option" where
  "take_zone item s =
     (if has_prefix s ''Z'' then Some (0, drop 1 s)
      else if item = ZoneColon then
        (if length s < 6 \<or> s ! 3 \<noteq> CHR '':'' then None
         else map_option (\<lambda>off. (off, drop 6 s)) (zone_offset (s ! 0) (substr s 1 3) (substr s 4 6)))
      else if item = ZoneShort then
        (if length s < 3 then None
         else map_option (\<lambda>off. (off, drop 3 s)) (zone_offset (s ! 0) (substr s 1 3) ''00''))
      else
        (if length s < 5 then None
         else map_option (\<lambda>off. (off, drop 5 s)) (zone_offset (s ! 0) (substr s 1 3) (substr s 3 5))))"

fun parse_items :: "layout_item list \<Rightarrow> string \<Rightarrow> parse_state \<Rightarrow> parse_state option" where
  "parse_items [] s p = (if s = [] then Some p else None)"
| "parse_items (Year4 # items) s p =
     (if length s < 4 \<or> \<not> list_all is_digit (take 4 s) then None
      else parse_items items (drop 4 s)
        (p\<lparr>p_year := int (foldl (\<lambda>n c. n * 10 + digit_val c) 0 (take 4 s))\<rparr>))"
| "parse_items (Month2 # items) s p =
     (case getnum True s of
        None \<Rightarrow> None
      | Some (n, s') \<Rightarrow> if n = 0 \<or> 12 < n then None else parse_items items s' (p\<lparr>p_month := n\<rparr>))"
| "parse_items (Day2 # items) s p =
     (case getnum True s of
        None \<Rightarrow> None
      | Some (n, s') \<Rightarrow> parse_items items s' (p\<lparr>p_day := n\<rparr>))"
| "parse_items (Hour # items) s p =
     (case getnum False s of
        None \<Rightarrow> None
      | Some (n, s') \<Rightarrow> if 24 \<le> n then None else parse_items items s' (p\<lparr>p_hour := n\<rparr>))"
| "parse_items (Minute2 # items) s p =
     (case getnum True s of
        None \<Rightarrow> None
      | Some (n, s') \<Rightarrow> if 60 \<le> n then None else parse_items items s' (p\<lparr>p_min := n\<rparr>))"
| "parse_items (Second2 # items) s p =
     (case getnum True s of
        None \<Rightarrow> None
      | Some (n, s') \<Rightarrow>
          if 60 \<le> n then None
          else (case take_fraction s' of
              (ns, s'') \<Rightarrow> parse_items items s'' (p\<lparr>p_sec := n, p_nanos := ns\<rparr>)))"
| "parse_items (ZoneColon # items) s p =
     (case take_zone ZoneColon s of None \<Rightarrow> None
      | Some (off, s') \<Rightarrow> parse_items items s' (p\<lparr>p_offset := off\<rparr>))"
| "parse_items (ZoneShort # items) s p =
     (case take_zone ZoneShort s of None \<Rightarrow> None
      | Some (off, s') \<Rightarrow> parse_items items s' (p\<lparr>p_offset := off\<rparr>))"
| "parse_items (ZonePlain # items) s p =
     (case take_zone ZonePlain s of None \<Rightarrow> None
      | Some (off, s') \<Rightarrow> parse_items items s' (p\<lparr>p_offset := off\<rparr>))"
| "parse_items (Literal c # items) s p =
     (if c = CHR '' '' then
        (if s \<noteq> [] \<and> hd s \<noteq> CHR '' '' then None
         else parse_items items (dropWhile (\<lambda>x. x = CHR '' '') s) p)
      else if s = [] \<or> hd s \<noteq> c then None
      else parse_items items (tl s) p)"

text \<open>A parsed time: its civil date and time of day, and its offset from UTC in seconds.\<close>

definition time_parse :: "layout_item list \<Rightarrow> string \<Rightarrow> (civil \<times> int) option" where
  "time_parse layout s =
     (case parse_items layout s \<lparr>p_year = 0, p_month = 1, p_day = 1, p_hour = 0, p_min = 0,
             p_sec = 0, p_nanos = 0, p_offset = 0\<rparr> of
        None \<Rightarrow> None
      | Some p \<Rightarrow>
          if p_day p < 1 \<or> days_in (p_month p) (p_year p) < p_day p then None
          else Some (\<lparr>year = p_year p, month = p_month p, day = p_day p,
                      secs = int (p_hour p * 3600 + p_min p * 60 + p_sec p), nanos = p_nanos p\<rparr>,
                     p_offset p))"

definition date_items :: "layout_item list" where
  "date_items = [Year4, Literal CHR ''-'', Month2, Literal CHR ''-'', Day2]"

definition clock_items :: "layout_item list" where
  "clock_items = [Hour, Literal CHR '':'', Minute2, Literal CHR '':'', Second2]"

definition naive_layouts :: "layout_item list list" where
  "naive_layouts =
     [date_items @ [Literal CHR ''T''] @ clock_items,
      date_items @ [Literal CHR '' ''] @ clock_items,
      date_items]"

definition aware_layouts :: "layout_item list list" where
  "aware_layouts =
     [date_items @ [Literal CHR ''T''] @ clock_items @ [ZoneColon],
      date_items @ [Literal CHR '' ''] @ clock_items @ [ZoneColon],
      date_items @ [Literal CHR ''T''] @ clock_items @ [ZonePlain],
      date_items @ [Literal CHR '' ''] @ clock_items @ [ZonePlain],
      date_items @ [Literal CHR ''T''] @ clock_items @ [ZoneShort],
      date_items @ [Literal CHR '' ''] @ clock_items @ [ZoneShort]]"

datatype datetime_kind = DatetimeText | DatetimeNaive | DatetimeAware

fun first_parse :: "layout_item list list \<Rightarrow> string \<Rightarrow> (civil \<times> int) option" where
  "first_parse [] s = None"
| "first_parse (l # ls) s = (case time_parse l s of None \<Rightarrow> first_parse ls s | Some t \<Rightarrow> Some t)"

definition zero_time :: "civil \<times> int" where
  "zero_time = (\<lparr>year = 1, month = 1, day = 1, secs = 0, nanos = 0\<rparr>, 0)"

definition parse_datetime :: "json \<Rightarrow> (civil \<times> int) \<times> datetime_kind" where
  "parse_datetime v =
     (case v of
        JStr s \<Rightarrow>
          (case first_parse naive_layouts s of
             Some t \<Rightarrow> (t, DatetimeNaive)
           | None \<Rightarrow>
               (case first_parse aware_layouts s of
                  Some t \<Rightarrow> (t, DatetimeAware)
                | None \<Rightarrow> (zero_time, DatetimeText)))
      | _ \<Rightarrow> (zero_time, DatetimeText))"

section \<open>Columns\<close>

text \<open>A value of a row under a column name; a missing one and a null are nil.\<close>

definition cell :: "(string \<rightharpoonup> json) \<Rightarrow> string \<Rightarrow> json option" where
  "cell row name = (case row name of None \<Rightarrow> None | Some JNull \<Rightarrow> None | Some v \<Rightarrow> Some v)"

fun column_kind_from :: "(string \<rightharpoonup> json) list \<Rightarrow> string \<Rightarrow> datetime_kind \<Rightarrow> bool \<Rightarrow> datetime_kind" where
  "column_kind_from [] name k seen = k"
| "column_kind_from (row # rs) name k seen =
     (case cell row name of
        None \<Rightarrow> column_kind_from rs name k seen
      | Some v \<Rightarrow>
          let k' = snd (parse_datetime v) in
          if k' = DatetimeText \<or> (seen \<and> k' \<noteq> k) then DatetimeText
          else column_kind_from rs name k' True)"

definition datetime_column_kind :: "(string \<rightharpoonup> json) list \<Rightarrow> string \<Rightarrow> datetime_kind" where
  "datetime_column_kind rs name = column_kind_from rs name DatetimeNaive False"

section \<open>Formatting\<close>

text \<open>\<open>appendInt\<close>: a decimal padded with zeros to a width.\<close>

definition pad :: "nat \<Rightarrow> int \<Rightarrow> string" where
  "pad w n =
     (let ds = nat_to_string (nat \<bar>n\<bar>);
          body = replicate (w - length ds) (CHR ''0'') @ ds in
      if n < 0 then CHR ''-'' # body else body)"

text \<open>The element \<open>.999999\<close>: microseconds, cut off rather than rounded, without trailing zeros.\<close>

definition frac6 :: "int \<Rightarrow> string" where
  "frac6 ns =
     (let ds = rev (dropWhile (\<lambda>c. c = CHR ''0'') (rev (pad 6 (ns div 1000)))) in
      if ds = [] then [] else CHR ''.'' # ds)"

definition format_civil :: "civil \<Rightarrow> string" where
  "format_civil t =
     pad 4 (year t) @ ''-'' @ pad 2 (int (month t)) @ ''-'' @ pad 2 (int (day t)) @ '' '' @
     pad 2 (secs t div 3600) @ '':'' @ pad 2 (secs t div 60 mod 60) @ '':'' @ pad 2 (secs t mod 60) @
     frac6 (nanos t)"

end
