(* ===== verification/Pg_Result.thy ===== *)
theory Pg_Result
  imports Pg_Messages Pg_Datetime
begin

text \<open>
  How \<open>internal/pgwire/query.go\<close> renders a query result: the row description, the data rows, the
  command tag and \<open>SendQueryResult\<close>.
\<close>

section \<open>Values\<close>

fun is_complex :: "json \<Rightarrow> bool" where
  "is_complex (JObj kvs) = True"
| "is_complex (JArr xs) = True"
| "is_complex v = False"

text \<open>\<open>fmt.Sprintf("%v", val)\<close> on the scalars a decoded row holds.\<close>

fun sprint_value :: "json \<Rightarrow> string" where
  "sprint_value (JStr s) = s"
| "sprint_value (JNum n) = n"
| "sprint_value (JBool b) = (if b then ''true'' else ''false'')"
| "sprint_value v = ''<nil>''"

fun index_any :: "string \<Rightarrow> string \<Rightarrow> nat option" where
  "index_any [] cs = None"
| "index_any (c # s) cs = (if c \<in> set cs then Some 0 else map_option Suc (index_any s cs))"

definition format_value :: "json \<Rightarrow> string \<Rightarrow> string" where
  "format_value v ty =
     (if is_complex v then json_marshal v
      else if ty = ''boolean'' then
        (case v of
           JBool b \<Rightarrow> if b then ''t'' else ''f''
         | JStr s \<Rightarrow>
             let lower = to_lower s in
             if lower = ''true'' \<or> lower = ''1'' \<or> lower = ''t'' then ''t'' else ''f''
         | _ \<Rightarrow> sprint_value v)
      else if ty = ''integer'' then sprint_value v
      else if ty = ''float'' then sprint_value v
      else if ty = ''date'' then
        (let s = sprint_value v in
         case index_any s ''T '' of Some i \<Rightarrow> take i s | None \<Rightarrow> s)
      else sprint_value v)"

definition format_datetime :: "json \<Rightarrow> datetime_kind \<Rightarrow> string" where
  "format_datetime v dk =
     (case parse_datetime v of
        ((t, offset), k) \<Rightarrow>
          if dk = DatetimeText \<or> k = DatetimeText then format_value v []
          else if dk = DatetimeAware then format_civil (to_utc offset t) @ ''+00''
          else format_civil t)"

section \<open>Descriptions and rows\<close>

fun column_json_from :: "(string \<rightharpoonup> json) list \<Rightarrow> string \<Rightarrow> bool \<Rightarrow> bool" where
  "column_json_from [] name any_complex = any_complex"
| "column_json_from (row # rs) name any_complex =
     (case cell row name of
        None \<Rightarrow> column_json_from rs name any_complex
      | Some v \<Rightarrow> if is_complex v then column_json_from rs name True else False)"

definition column_is_json :: "(string \<rightharpoonup> json) list \<Rightarrow> string \<Rightarrow> bool" where
  "column_is_json rs name = column_json_from rs name False"

definition describe_column :: "(string \<rightharpoonup> json) list \<Rightarrow> column \<Rightarrow> field_description" where
  "describe_column rs col =
     (let oid = redash_type_to_pg_oid (col_type col);
          size = redash_type_to_pg_size (col_type col);
          (oid, size) =
            (if col_type col = ''datetime'' then
               (case datetime_column_kind rs (col_name col) of
                  DatetimeAware \<Rightarrow> (oid_timestamptz, size)
                | DatetimeText \<Rightarrow> (oid_text, -1)
                | DatetimeNaive \<Rightarrow> (oid, size))
             else (oid, size));
          (oid, size) = (if column_is_json rs (col_name col) then (oid_jsonb, -1) else (oid, size)) in
      \<lparr>fd_name = col_name col, fd_oid = oid, fd_size = size\<rparr>)"

definition build_row_description :: "column list \<Rightarrow> (string \<rightharpoonup> json) list \<Rightarrow> field_description list" where
  "build_row_description cols rs = map (describe_column rs) cols"

definition render_cell :: "(string \<rightharpoonup> json) list \<Rightarrow> (string \<rightharpoonup> json) \<Rightarrow> column \<Rightarrow> string option" where
  "render_cell rs row col =
     (case cell row (col_name col) of
        None \<Rightarrow> None
      | Some v \<Rightarrow>
          if col_type col = ''datetime''
          then Some (format_datetime v (datetime_column_kind rs (col_name col)))
          else Some (format_value v (col_type col)))"

definition build_data_rows :: "column list \<Rightarrow> (string \<rightharpoonup> json) list \<Rightarrow> string option list list" where
  "build_data_rows cols rs = map (\<lambda>row. map (render_cell rs row) cols) rs"

section \<open>The reply\<close>

definition command_tag :: "string \<Rightarrow> nat \<Rightarrow> string" where
  "command_tag sql row_count =
     (let lower = to_lower (trim_space sql) in
      if has_prefix lower ''insert'' then ''INSERT 0 '' @ nat_to_string row_count
      else if has_prefix lower ''update'' then ''UPDATE '' @ nat_to_string row_count
      else if has_prefix lower ''delete'' then ''DELETE '' @ nat_to_string row_count
      else if has_prefix lower ''create'' then ''CREATE TABLE''
      else if has_prefix lower ''drop'' then ''DROP TABLE''
      else if has_prefix lower ''alter'' then ''ALTER TABLE''
      else ''SELECT '' @ nat_to_string row_count)"

definition is_write_without_result_rows :: "string \<Rightarrow> query_result \<Rightarrow> bool" where
  "is_write_without_result_rows sql result =
     (let lower = to_lower (trim_space sql) in
      (has_prefix lower ''insert'' \<or> has_prefix lower ''update'' \<or> has_prefix lower ''delete'') \<and>
      rows result = [])"

definition affected_rows_notice :: string where
  "affected_rows_notice =
     ''redash-wire: Redash does not report affected-row counts; the command tag count is not accurate for writes''"

definition send_query_result :: "string \<Rightarrow> query_result \<Rightarrow> be_msg list" where
  "send_query_result sql result =
     (if columns result \<noteq> [] then
        RowDescription (build_row_description (columns result) (rows result)) #
        map DataRow (build_data_rows (columns result) (rows result))
      else []) @
     (if is_write_without_result_rows sql result then [NoticeResponse ''01000'' affected_rows_notice] else []) @
     [CommandComplete (command_tag sql (length (rows result))), ReadyForQuery]"

section \<open>The calendar\<close>

lemma days_in_simps [simp]: "0 < days_in m y" "Suc 0 \<le> days_in m y" "days_in 12 y = 31" "days_in (Suc 0) y = 31"
  by (simp_all add: days_in_def)

lemma next_day_valid: "valid_date t \<Longrightarrow> valid_date (next_day t)"
  by (cases t) (simp add: valid_date_def next_day_def)

lemma prev_day_valid: "valid_date t \<Longrightarrow> valid_date (prev_day t)"
  by (cases t) (auto simp: valid_date_def prev_day_def)

lemma prev_next_day:
  assumes "valid_date t"
  shows "prev_day (next_day t) = t"
proof (cases "day t < days_in (month t) (year t)")
  case True
  with assms show ?thesis by (cases t) (simp add: valid_date_def next_day_def prev_day_def)
next
  case False
  with assms have d: "day t = days_in (month t) (year t)" by (simp add: valid_date_def)
  show ?thesis
  proof (cases "month t < 12")
    case True
    with d assms show ?thesis by (cases t) (simp add: valid_date_def next_day_def prev_day_def)
  next
    case False
    with assms have "month t = 12" by (simp add: valid_date_def)
    with d show ?thesis by (cases t) (simp add: next_day_def prev_day_def)
  qed
qed

lemma next_prev_day:
  assumes "valid_date t"
  shows "next_day (prev_day t) = t"
proof (cases "1 < day t")
  case True
  with assms show ?thesis by (cases t) (auto simp: valid_date_def next_day_def prev_day_def)
next
  case False
  with assms have d: "day t = 1" by (simp add: valid_date_def)
  show ?thesis
  proof (cases "1 < month t")
    case True
    with d assms show ?thesis by (cases t) (auto simp: valid_date_def next_day_def prev_day_def)
  next
    case False
    with assms have "month t = 1" by (simp add: valid_date_def)
    with d show ?thesis by (cases t) (simp add: next_day_def prev_day_def)
  qed
qed

lemma day_secs [simp]:
  "secs (next_day t) = secs t" "secs (prev_day t) = secs t"
  "next_day (t\<lparr>secs := s\<rparr>) = (next_day t)\<lparr>secs := s\<rparr>" "prev_day (t\<lparr>secs := s\<rparr>) = (prev_day t)\<lparr>secs := s\<rparr>"
  "valid_date (t\<lparr>secs := s\<rparr>) = valid_date t"
  by (simp_all add: next_day_def prev_day_def valid_date_def)

lemma funpow_day_valid:
  "valid_date t \<Longrightarrow> valid_date ((next_day ^^ n) t)" "valid_date t \<Longrightarrow> valid_date ((prev_day ^^ n) t)"
  by (induction n) (simp_all add: next_day_valid prev_day_valid)

lemma funpow_inverse:
  assumes "\<And>t. P t \<Longrightarrow> g (f t) = t" and "\<And>t. P t \<Longrightarrow> P (f t)" and "P t"
  shows "(g ^^ n) ((f ^^ n) t) = t"
  using assms(3)
proof (induction n arbitrary: t)
  case (Suc n)
  have "(g ^^ Suc n) ((f ^^ Suc n) t) = g ((g ^^ n) ((f ^^ n) (f t)))"
    by (simp add: funpow_swap1)
  also have "\<dots> = g (f t)" using Suc assms(2) by simp
  finally show ?case using Suc.prems assms(1) by simp
qed simp

lemma funpow_day_secs [simp]:
  "secs ((next_day ^^ n) t) = secs t" "secs ((prev_day ^^ n) t) = secs t"
  "(next_day ^^ n) (t\<lparr>secs := s\<rparr>) = ((next_day ^^ n) t)\<lparr>secs := s\<rparr>"
  "(prev_day ^^ n) (t\<lparr>secs := s\<rparr>) = ((prev_day ^^ n) t)\<lparr>secs := s\<rparr>"
  by (induction n) simp_all

lemma shift_days_inverse: "valid_date t \<Longrightarrow> shift_days (- n) (shift_days n t) = t"
proof (cases "n < 0")
  case True
  then show "valid_date t \<Longrightarrow> ?thesis"
    using funpow_inverse [of valid_date next_day prev_day t "nat (- n)"]
    by (simp add: shift_days_def next_prev_day prev_day_valid)
next
  case False
  then show "valid_date t \<Longrightarrow> ?thesis"
    using funpow_inverse [of valid_date prev_day next_day t "nat n"]
    by (cases "n = 0") (simp_all add: shift_days_def prev_next_day next_day_valid)
qed

lemma shift_days_secs [simp]:
  "secs (shift_days n t) = secs t" "shift_days n (t\<lparr>secs := s\<rparr>) = (shift_days n t)\<lparr>secs := s\<rparr>"
  by (simp_all add: shift_days_def)

lemma shift_days_valid: "valid_date t \<Longrightarrow> valid_date (shift_days n t)"
  by (simp add: shift_days_def funpow_day_valid)

text \<open>
  Converting a valid time to UTC loses nothing: the result is a valid date with a time
  of day between 0 and 86399 seconds and the same fraction, and shifting it by the opposite offset
  gives the original time back, across months, years and leap days.
\<close>

theorem to_utc_roundtrip:
  assumes "valid_date t" and "0 \<le> secs t" and "secs t < 86400"
  shows "valid_date (to_utc offset t) \<and> 0 \<le> secs (to_utc offset t) \<and> secs (to_utc offset t) < 86400 \<and>
    to_utc (- offset) (to_utc offset t) = t"
proof -
  let ?s = "secs t - offset"
  have u: "to_utc offset t = (shift_days (?s div 86400) t)\<lparr>secs := ?s mod 86400\<rparr>"
    by (simp add: to_utc_def Let_def)
  have e: "?s mod 86400 + offset = secs t + - (?s div 86400) * 86400"
    by (simp add: minus_div_mult_eq_mod [symmetric])
  have "(secs t + q * 86400) div 86400 = q" "(secs t + q * 86400) mod 86400 = secs t" for q
    using assms by simp_all
  then have "(?s mod 86400 + offset) div 86400 = - (?s div 86400)"
      "(?s mod 86400 + offset) mod 86400 = secs t" unfolding e by blast+
  then have "to_utc (- offset) (to_utc offset t) = (shift_days (- (?s div 86400)) (shift_days (?s div 86400) t))\<lparr>secs := secs t\<rparr>"
    by (simp add: to_utc_def u Let_def)
  with assms show ?thesis by (simp add: u shift_days_inverse shift_days_valid)
qed

theorem to_utc_roundtrip_witness:
  "to_utc (- 19800) (to_utc 19800 \<lparr>year = 2024, month = 3, day = 1, secs = 3600, nanos = 5\<rparr>) =
   \<lparr>year = 2024, month = 3, day = 1, secs = 3600, nanos = 5\<rparr>"
  using to_utc_roundtrip [of "\<lparr>year = 2024, month = 3, day = 1, secs = 3600, nanos = 5\<rparr>" 19800]
  by (simp add: valid_date_def days_in_def)

section \<open>The kind of a column\<close>

definition cell_values :: "(string \<rightharpoonup> json) list \<Rightarrow> string \<Rightarrow> json list" where
  "cell_values rs name = List.map_filter (\<lambda>row. cell row name) rs"

lemma cell_values_simps [simp]:
  "cell_values [] name = []"
  "cell_values (row # rs) name =
     (case cell row name of None \<Rightarrow> cell_values rs name | Some v \<Rightarrow> v # cell_values rs name)"
  by (simp_all add: cell_values_def map_filter_simps split: option.split)

definition value_kind :: "json \<Rightarrow> datetime_kind" where
  "value_kind v = snd (parse_datetime v)"

lemma column_kind_seen:
  "k \<noteq> DatetimeText \<Longrightarrow> column_kind_from rs name k True =
     (if \<forall>v \<in> set (cell_values rs name). value_kind v = k then k else DatetimeText)"
  by (induction rs name k True rule: column_kind_from.induct)
    (auto simp: value_kind_def Let_def split: option.split)

lemma datetime_column_kind_eq:
  "datetime_column_kind rs name =
     (case cell_values rs name of
        [] \<Rightarrow> DatetimeNaive
      | v # vs \<Rightarrow> if \<forall>w \<in> set vs. value_kind w = value_kind v then value_kind v else DatetimeText)"
proof (induction rs)
  case (Cons row rs)
  then show ?case
    by (auto simp: datetime_column_kind_def column_kind_seen value_kind_def Let_def split: option.split)
qed (simp add: datetime_column_kind_def)

lemma column_json_iff:
  "column_json_from rs name b \<longleftrightarrow>
     (\<forall>v \<in> set (cell_values rs name). is_complex v) \<and> (b \<or> cell_values rs name \<noteq> [])"
  by (induction rs name b rule: column_json_from.induct) (auto split: option.split)

text \<open>
  Property C34: the type a column is announced with is the one its values keep: a column is JSONB
  exactly when it has a value and every value is an object or an array; otherwise a datetime column
  is timestamptz when it has a value and every value carries a zone, timestamp when no value does
  and all parse, and text when they mix or one does not parse; any other column has the type Redash
  declares. The size is the one PostgreSQL gives that type.
\<close>

theorem described_type_fits_values:
  "let vs = cell_values rs (col_name col); f = describe_column rs col in
     fd_oid f = (if vs \<noteq> [] \<and> list_all is_complex vs then oid_jsonb
       else if col_type col \<noteq> ''datetime'' then redash_type_to_pg_oid (col_type col)
       else if vs \<noteq> [] \<and> list_all (\<lambda>v. value_kind v = DatetimeAware) vs then oid_timestamptz
       else if list_all (\<lambda>v. value_kind v = DatetimeNaive) vs then oid_timestamp
       else oid_text) \<and>
     fd_size f = pg_type_size (fd_oid f) \<and> fd_name f = col_name col"
proof -
  define vs where "vs = cell_values rs (col_name col)"
  have json: "column_is_json rs (col_name col) \<longleftrightarrow> vs \<noteq> [] \<and> list_all is_complex vs"
    by (auto simp: column_is_json_def column_json_iff vs_def list_all_iff)
  have dt: "datetime_column_kind rs (col_name col) =
      (if vs \<noteq> [] \<and> list_all (\<lambda>v. value_kind v = DatetimeAware) vs then DatetimeAware
       else if list_all (\<lambda>v. value_kind v = DatetimeNaive) vs then DatetimeNaive else DatetimeText)"
    unfolding datetime_column_kind_eq vs_def [symmetric]
    by (cases vs) (auto simp: list_all_iff, (metis datetime_kind.exhaust)+)
  show ?thesis
    unfolding vs_def [symmetric] Let_def
    using type_sizes_agree [of "col_type col"]
    by (simp add: describe_column_def json dt Let_def pg_type_size_def oid_defs
        redash_type_to_pg_oid_def redash_type_to_pg_size_def)
qed

section \<open>The shape of the reply\<close>

lemma result_body_rows:
  "list_all (\<lambda>vs. length vs = n) rws \<Longrightarrow> result_body (Some n) (map DataRow rws @ ms) = result_body (Some n) ms"
  by (induction rws) simp_all

lemma data_rows_width: "list_all (\<lambda>vs. length vs = length cols) (build_data_rows cols rs)"
  by (simp add: build_data_rows_def list_all_iff)

lemma send_query_result_shape [reply_shape]: "simple_reply (send_query_result sql result)"
  using data_rows_width [of "columns result" "rows result"]
  by (simp add: send_query_result_def build_row_description_def result_body_rows)

end
