(* ===== verification/Pg_Local.thy ===== *)
theory Pg_Local
  imports Pg_Messages Redash_Registry Sqltext
begin

text \<open>
  The statements \<open>internal/pgwire/query.go\<close> answers without Redash: their classification
  (\<open>IsLocalQuery\<close>, \<open>IsCatalogQuery\<close>), \<open>HandleLocalQuery\<close> with the refusal of read-write requests, and
  \<open>handleShowCommand\<close>. The two regular expressions of the package that are needed here and in
  \<open>rewrite.go\<close> are written out as matchers.
\<close>

section \<open>Text helpers\<close>

text \<open>\<open>strings.TrimRight\<close> and \<open>strings.ReplaceAll\<close> of one byte.\<close>

definition trim_right_set :: "string \<Rightarrow> string \<Rightarrow> string" where
  "trim_right_set cutset s = trim_right (\<lambda>c. c \<in> set cutset) s"

definition replace_byte :: "char \<Rightarrow> char \<Rightarrow> string \<Rightarrow> string" where
  "replace_byte a b s = map (\<lambda>c. if c = a then b else c) s"

section \<open>Classification\<close>

definition normalize :: "string \<Rightarrow> string" where
  "normalize sql = to_lower (trim_space (redact Postgres sql))"

definition has_keyword :: "string \<Rightarrow> string \<Rightarrow> bool" where
  "has_keyword lower kw =
     (has_prefix lower kw \<and> length kw < length lower \<and> blank4 (lower ! length kw))"

definition is_simple_select :: "string \<Rightarrow> bool" where
  "is_simple_select lower = (has_keyword lower ''select'' \<and> \<not> contains_token lower ''from'')"

definition function_patterns :: "string list" where
  "function_patterns =
     [''version()'', ''current_database()'', ''current_schema()'', ''current_schemas('',
      ''current_user'', ''session_user'', ''inet_server_addr()'', ''inet_server_port()'',
      ''pg_is_in_recovery()'', ''pg_backend_pid()'', ''pg_postmaster_start_time()'']"

definition is_local_query :: "string \<Rightarrow> bool" where
  "is_local_query sql =
     (let lower = normalize sql in
      if has_keyword lower ''set'' \<or> has_keyword lower ''show'' then True
      else if has_prefix lower ''begin'' \<or> has_prefix lower ''commit'' \<or> has_prefix lower ''rollback'' then True
      else if has_prefix lower ''deallocate'' \<or> has_prefix lower ''close'' \<or> has_prefix lower ''discard'' then True
      else if is_simple_select lower \<and> list_ex (contains_token lower) function_patterns then True
      else contains_token lower ''pg_database'')"

definition pg_tables :: "string list" where
  "pg_tables =
     [''pg_type'', ''pg_class'', ''pg_namespace'', ''pg_proc'',
      ''pg_attribute'', ''pg_attrdef'', ''pg_constraint'', ''pg_index'',
      ''pg_trigger'', ''pg_description'', ''pg_depend'', ''pg_extension'',
      ''pg_enum'', ''pg_inherits'', ''pg_sequence'', ''pg_collation'',
      ''pg_am'', ''pg_roles'', ''pg_user'', ''pg_views'', ''pg_tables'',
      ''pg_indexes'', ''pg_settings'', ''pg_database'',
      ''pg_available_extensions'']"

definition contains_pg_catalog_ref :: "string \<Rightarrow> bool" where
  "contains_pg_catalog_ref lower =
     (if contains_token lower ''pg_catalog.'' \<or> contains_token lower ''information_schema.'' then True
      else if list_ex (contains_token lower) pg_tables then True
      else contains_str lower ''pg_statio_'' \<or> contains_str lower ''pg_stat_'')"

definition is_catalog_query :: "string \<Rightarrow> bool" where
  "is_catalog_query sql = contains_pg_catalog_ref (normalize sql)"

section \<open>Requests for a read-write transaction\<close>

text \<open>
  The regular expression \<open>readOnlySetting\<close>: a boundary, an optional \<open>default_\<close>, the name, then \<open>=\<close> or
  the word \<open>to\<close>, an optional quote and the value, of which at least one byte. Its blanks are those of
  RE2's \<open>\s\<close>; \<open>\b\<close> is the change between word bytes and others.
\<close>

definition re_space :: "char \<Rightarrow> bool" where
  "re_space c = (blank4 c \<or> c = CHR 0x0C)"

definition re_lower_alnum :: "char \<Rightarrow> bool" where
  "re_lower_alnum c = (is_digit c \<or> (97 \<le> byte c \<and> byte c \<le> 122))"

definition re_word :: "char \<Rightarrow> bool" where
  "re_word c = (is_alpha c \<or> is_digit c \<or> c = CHR ''_'')"

definition setting_value :: "string \<Rightarrow> string option" where
  "setting_value s =
     (let s1 = dropWhile re_space s;
          s2 = (if has_prefix s1 [CHR 0x27] then tl s1 else s1);
          v = takeWhile re_lower_alnum s2 in
      if v = [] then None else Some v)"

definition setting_assignment :: "string \<Rightarrow> string option" where
  "setting_assignment s =
     (let s1 = dropWhile re_space s in
      if has_prefix s1 ''='' then setting_value (tl s1)
      else if has_prefix s1 ''to'' \<and> s1 \<noteq> s \<and> (length s1 = 2 \<or> \<not> re_word (s1 ! 2))
      then setting_value (drop 2 s1)
      else None)"

definition setting_at :: "string \<Rightarrow> string option" where
  "setting_at s =
     (let s1 = (if has_prefix s ''default_transaction_read_only'' then drop 8 s else s) in
      if has_prefix s1 ''transaction_read_only'' then setting_assignment (drop 21 s1) else None)"

fun setting_from :: "bool \<Rightarrow> string \<Rightarrow> string option" where
  "setting_from first [] = None"
| "setting_from first (c # s) =
     (case (if first then setting_at (c # s) else None) of
        Some v \<Rightarrow> Some v
      | None \<Rightarrow>
          (case (if re_lower_alnum c \<or> c = CHR ''_'' then None else setting_at s) of
             Some v \<Rightarrow> Some v
           | None \<Rightarrow> setting_from False s))"

definition read_only_setting :: "string \<Rightarrow> string option" where
  "read_only_setting s = setting_from True s"

fun has_read_write :: "string list \<Rightarrow> bool" where
  "has_read_write (a # b # fs) = (a = ''read'' \<and> b = ''write'' \<or> has_read_write (b # fs))"
| "has_read_write fs = False"

definition asks_for_read_write :: "string \<Rightarrow> string \<Rightarrow> bool" where
  "asks_for_read_write lower raw =
     (case text_fields (replace_byte (CHR '';'') (CHR '' '') (replace_byte (CHR ''='') (CHR '' '') lower)) of
        [] \<Rightarrow> False
      | f # fs \<Rightarrow>
          if f = ''set'' then
            (case read_only_setting (to_lower raw) of
               Some v \<Rightarrow> if v = ''off'' \<or> v = ''false'' \<or> v = ''0'' \<or> v = ''no'' then True
                 else has_read_write (f # fs)
             | None \<Rightarrow> has_read_write (f # fs))
          else if f = ''begin'' \<or> f = ''start'' then has_read_write (f # fs)
          else False)"

section \<open>Local answers\<close>

definition sqlstate_connection_failure :: string where
  "sqlstate_connection_failure = ''08006''"

definition sqlstate_read_only :: string where
  "sqlstate_read_only = ''25006''"

definition read_only_hint :: string where
  "read_only_hint =
     ''redash-wire is running in read-only mode for this profile; only reads reach Redash. Set read_only: false in the config to allow writes.''"

definition on_off :: "bool \<Rightarrow> string" where
  "on_off b = (if b then ''on'' else ''off'')"

record local_session =
  startup_params :: "string \<rightharpoonup> string"
  sources :: "data_source list"
  listen_addr :: string
  read_only :: bool
  backend_pid :: "32 word"

text \<open>A Go map returns the zero value for a missing key.\<close>

definition param :: "(string \<rightharpoonup> string) \<Rightarrow> string \<Rightarrow> string" where
  "param m k = (case m k of None \<Rightarrow> [] | Some v \<Rightarrow> v)"

definition show_values :: "bool \<Rightarrow> (string \<times> string) list" where
  "show_values ro =
     [(''server_version'', ''14.0''),
      (''server_encoding'', ''UTF8''),
      (''client_encoding'', ''UTF8''),
      (''lc_collate'', ''en_US.UTF-8''),
      (''lc_ctype'', ''en_US.UTF-8''),
      (''is_superuser'', ''on''),
      (''session_authorization'', ''redash''),
      (''standard_conforming_strings'', ''on''),
      (''timezone'', ''UTC''),
      (''datestyle'', ''ISO, MDY''),
      (''integer_datetimes'', ''on''),
      (''max_identifier_length'', ''63''),
      (''transaction_isolation'', ''read committed''),
      (''search_path'', [CHR 0x22] @ ''$user'' @ [CHR 0x22] @ '', public''),
      (''transaction_read_only'', on_off ro),
      (''default_transaction_read_only'', on_off ro)]"

definition handle_show_command :: "string \<Rightarrow> bool \<Rightarrow> be_msg list" where
  "handle_show_command p ro =
     (case map_of (show_values ro) p of
        Some v \<Rightarrow> send_single_row_result p v
      | None \<Rightarrow> send_single_row_result p [])"

definition pg_database_fields :: "field_description list" where
  "pg_database_fields =
     [text_field ''datname'',
      \<lparr>fd_name = ''oid'', fd_oid = oid_int4, fd_size = 4\<rparr>,
      \<lparr>fd_name = ''datistemplate'', fd_oid = oid_bool, fd_size = 1\<rparr>,
      \<lparr>fd_name = ''datallowconn'', fd_oid = oid_bool, fd_size = 1\<rparr>]"

definition handle_pg_database_query :: "data_source list \<Rightarrow> be_msg list" where
  "handle_pg_database_query srcs =
     RowDescription pg_database_fields #
     map (\<lambda>ds. DataRow [Some (ds_name ds), Some (int_to_string (ds_id ds)), Some ''f'', Some ''t'']) srcs @
     [CommandComplete (''SELECT '' @ nat_to_string (length srcs)), ReadyForQuery]"

text \<open>\<open>now\<close> is the current time as \<open>time.Now\<close> formats it.\<close>

definition handle_local_query :: "string \<Rightarrow> string \<Rightarrow> local_session \<Rightarrow> be_msg list" where
  "handle_local_query now sql sess =
     (let lower = normalize sql;
          params = startup_params sess in
      if read_only sess \<and> asks_for_read_write lower sql then
        send_error_code sqlstate_read_only
          ''cannot set transaction read-write mode while redash-wire is in read-only mode'' read_only_hint
      else if has_keyword lower ''set'' then send_command_complete ''SET''
      else if has_prefix lower ''begin'' then send_command_complete ''BEGIN''
      else if has_prefix lower ''commit'' then send_command_complete ''COMMIT''
      else if has_prefix lower ''rollback'' then send_command_complete ''ROLLBACK''
      else if has_prefix lower ''deallocate'' then send_command_complete ''DEALLOCATE''
      else if has_prefix lower ''close'' then send_command_complete ''CLOSE CURSOR''
      else if has_prefix lower ''discard'' then send_command_complete ''DISCARD ALL''
      else if has_keyword lower ''show'' then
        handle_show_command
          (trim_space (trim_right_set [CHR '';'', CHR '' '', CHR 0x09, CHR 0x0D, CHR 0x0A] (drop 4 lower)))
          (read_only sess)
      else if contains_token lower ''pg_database'' then handle_pg_database_query (sources sess)
      else if \<not> is_simple_select lower then send_empty_result [''result'']
      else if contains_str lower ''version()'' then
        send_single_row_result ''version'' ''PostgreSQL 14.0 on redash-wire, compiled by redash-wire''
      else if contains_str lower ''current_database()'' then
        (let db = param params ''database'' in
         send_single_row_result ''current_database'' (if db = [] then ''redash'' else db))
      else if contains_str lower ''current_schema()'' then
        send_single_row_result ''current_schema'' ''public''
      else if contains_str lower ''current_schemas('' then
        send_single_row_result ''current_schemas'' ''{public}''
      else if contains_str lower ''current_user'' then
        (let user = param params ''user'' in
         send_single_row_result ''current_user'' (if user = [] then ''redash'' else user))
      else if contains_str lower ''session_user'' then
        (let user = param params ''user'' in
         send_single_row_result ''session_user'' (if user = [] then ''redash'' else user))
      else if contains_str lower ''inet_server_addr'' then
        (let host = (case split_host_port (listen_addr sess) of None \<Rightarrow> [] | Some (h, p) \<Rightarrow> h) in
         send_single_row_result ''inet_server_addr''
           (if host = [] \<or> host = ''0.0.0.0'' then ''127.0.0.1'' else host))
      else if contains_str lower ''inet_server_port'' then
        (let port = (case split_host_port (listen_addr sess) of None \<Rightarrow> [] | Some (h, p) \<Rightarrow> p) in
         send_single_row_result ''inet_server_port'' (if port = [] then ''15432'' else port))
      else if contains_str lower ''pg_is_in_recovery'' then
        send_single_row_result ''pg_is_in_recovery'' ''f''
      else if contains_str lower ''pg_backend_pid'' then
        send_single_row_result ''pg_backend_pid'' (nat_to_string (unat (backend_pid sess)))
      else if contains_str lower ''pg_postmaster_start_time'' then
        send_single_row_result ''pg_postmaster_start_time'' now
      else send_empty_result [''result''])"

section \<open>Shape of the answers\<close>

lemma pg_database_shape [reply_shape]: "simple_reply (handle_pg_database_query srcs)"
proof -
  have "result_body (Some 4) (map (\<lambda>ds. DataRow [Some (ds_name ds), Some (int_to_string (ds_id ds)),
      Some ''f'', Some ''t'']) srcs @ [CommandComplete t, ReadyForQuery])" for t
    by (induction srcs) simp_all
  moreover have "length pg_database_fields = 4" by (simp add: pg_database_fields_def)
  ultimately show ?thesis by (simp only: handle_pg_database_query_def simple_reply.simps)
qed

lemma show_shape [reply_shape]: "simple_reply (handle_show_command p ro)"
  by (simp add: handle_show_command_def reply_shape split: option.split)

lemma local_shape [reply_shape]: "simple_reply (handle_local_query now sql sess)"
  unfolding handle_local_query_def Let_def by (simp add: reply_shape)

section \<open>Dispatch\<close>

lemma contains_token_str: "contains_token s tok \<Longrightarrow> contains_str s tok"
proof -
  have "contains_token_from s tok k \<Longrightarrow> contains_str s tok" for k
  proof (subst (asm) contains_token_from.simps, cases "index_of (drop k s) tok")
    case (Some i)
    from index_of_SomeD [OF this] obtain b where "drop (i + k) s = tok @ b"
      by (auto simp: has_prefix_iff)
    then have "s = take (i + k) s @ tok @ b" by (metis append_take_drop_id)
    then show "contains_str s tok" by (auto simp: contains_str_iff)
  qed (simp split: if_splits)
  then show "contains_token s tok \<Longrightarrow> contains_str s tok" by (auto simp: contains_token_def)
qed

lemma contains_str_shorter: "contains_str s (t @ u) \<Longrightarrow> contains_str s t"
  by (fastforce simp: contains_str_iff)

text \<open>
  Dispatch and classification agree: every statement \<open>IsLocalQuery\<close> routes to
  \<open>HandleLocalQuery\<close> is answered by the branch that recognises it, never by the empty result of the
  fallbacks, and the answer is a complete reply to one simple query.
\<close>

theorem local_queries_answered:
  assumes "is_local_query sql"
  shows "simple_reply (handle_local_query now sql sess) \<and>
    handle_local_query now sql sess \<noteq> send_empty_result [''result'']"
proof -
  define lower where "lower = normalize sql"
  have fallbacks: "contains_token lower ''pg_database'' \<or>
      has_keyword lower ''set'' \<or> has_keyword lower ''show'' \<or> has_prefix lower ''begin'' \<or>
      has_prefix lower ''commit'' \<or> has_prefix lower ''rollback'' \<or> has_prefix lower ''deallocate'' \<or>
      has_prefix lower ''close'' \<or> has_prefix lower ''discard'' \<or>
      (is_simple_select lower \<and> list_ex (contains_str lower) function_patterns)"
    using assms contains_token_str [of lower]
    by (auto simp: is_local_query_def lower_def [symmetric] Let_def list_ex_iff split: if_splits)
  have short: "contains_str lower ''inet_server_addr()'' \<Longrightarrow> contains_str lower ''inet_server_addr''"
      "contains_str lower ''inet_server_port()'' \<Longrightarrow> contains_str lower ''inet_server_port''"
      "contains_str lower ''pg_is_in_recovery()'' \<Longrightarrow> contains_str lower ''pg_is_in_recovery''"
      "contains_str lower ''pg_backend_pid()'' \<Longrightarrow> contains_str lower ''pg_backend_pid''"
      "contains_str lower ''pg_postmaster_start_time()'' \<Longrightarrow> contains_str lower ''pg_postmaster_start_time''"
    by (rule contains_str_shorter [where u = "''()''"]; simp)+
  have differ: "send_error_code c m h \<noteq> send_empty_result cols"
      "send_command_complete t \<noteq> send_empty_result cols" "send_single_row_result c v \<noteq> send_empty_result cols"
      "handle_pg_database_query srcs \<noteq> send_empty_result [''result'']"
      "handle_show_command p ro \<noteq> send_empty_result cols" for c m h t v srcs p ro cols
    by (auto simp: send_error_code_def send_empty_result_def send_command_complete_def
        send_single_row_result_def handle_pg_database_query_def pg_database_fields_def
        handle_show_command_def split: option.split)
  have "handle_local_query now sql sess \<noteq> send_empty_result [''result'']"
    unfolding handle_local_query_def lower_def [symmetric] Let_def
    using fallbacks short by (auto simp: differ function_patterns_def)
  then show ?thesis by (simp add: local_shape)
qed

theorem local_queries_answered_witness:
  "handle_local_query [] ''SHOW transaction_read_only;''
     \<lparr>startup_params = Map.empty, sources = [], listen_addr = [], read_only = True, backend_pid = 1\<rparr>
   \<noteq> send_empty_result [''result'']"
proof -
  have "is_local_query ''SHOW transaction_read_only;''" by code_simp
  then show ?thesis by (rule local_queries_answered [THEN conjunct2])
qed

end
