(* ===== verification/Pg_Rewrite.thy ===== *)
theory Pg_Rewrite
  imports Pg_Local
begin

text \<open>
  \<open>internal/pgwire/rewrite.go\<close>: the rewriting of timestamp comparisons in the WHERE clause of an
  UPDATE or a DELETE, with its regular expression written out as a matcher.
\<close>

section \<open>The pattern\<close>

text \<open>A template with \<open>9\<close> for a digit and any other byte for itself; the text after it.\<close>

fun strip_template :: "string \<Rightarrow> string \<Rightarrow> string option" where
  "strip_template [] s = Some s"
| "strip_template (t # ts) [] = None"
| "strip_template (t # ts) (c # s) =
     (if (if t = CHR ''9'' then is_digit c else c = t) then strip_template ts s else None)"

text \<open>Up to three of the digits at the head, and the text after them.\<close>

definition strip_fraction :: "string \<Rightarrow> string option" where
  "strip_fraction s =
     (let n = min 3 (length (takeWhile is_digit s)) in if n = 0 then None else Some (drop n s))"

definition strip_zone :: "string \<Rightarrow> string" where
  "strip_zone s =
     (if has_prefix s ''Z'' then drop 1 s
      else case strip_template ''99'' (drop 1 s) of
        None \<Rightarrow> s
      | Some r \<Rightarrow>
          if has_prefix s ''+'' \<or> has_prefix s ''-'' then
            (case strip_template '':99'' r of None \<Rightarrow> r | Some r' \<Rightarrow> r')
          else s)"

text \<open>The second group and its closing quote: the literal, and the text after the quote.\<close>

definition match_literal :: "string \<Rightarrow> (string \<times> string) option" where
  "match_literal s =
     (case strip_template ''9999-99-99 99:99:99.'' s of
        None \<Rightarrow> None
      | Some r \<Rightarrow>
          (case strip_fraction r of
             None \<Rightarrow> None
           | Some r1 \<Rightarrow>
               let r2 = strip_zone r1 in
               if has_prefix r2 [CHR 0x27] then Some (take (length s - length r2) s, drop 1 r2)
               else None))"

definition match_comparison :: "string \<Rightarrow> (string \<times> string \<times> string) option" where
  "match_comparison s =
     (if \<not> has_prefix s [CHR 0x22] then None
      else
        let name = takeWhile (\<lambda>c. c \<noteq> CHR 0x22) (drop 1 s);
            r = drop (1 + length name) s in
        if name = [] \<or> r = [] then None
        else
          let r1 = dropWhile re_space (drop 1 r) in
          if \<not> has_prefix r1 ''='' then None
          else
            let r2 = dropWhile re_space (drop 1 r1) in
            if \<not> has_prefix r2 [CHR 0x27] then None
            else map_option (\<lambda>(lit, rest). (name, lit, rest)) (match_literal (drop 1 r2)))"

section \<open>The rewriting\<close>

definition date_trunc_comparison :: "string \<Rightarrow> string \<Rightarrow> string" where
  "date_trunc_comparison name lit =
     ''date_trunc('' @ [CHR 0x27] @ ''milliseconds'' @ [CHR 0x27] @ '', '' @ [CHR 0x22] @ name @ [CHR 0x22] @
     '') = '' @ [CHR 0x27] @ lit @ [CHR 0x27]"

lemma strip_template_length: "strip_template t u = Some v \<Longrightarrow> length v \<le> length u"
  by (induction t u rule: strip_template.induct) (auto split: if_splits)

lemma strip_fraction_length: "strip_fraction u = Some v \<Longrightarrow> length v \<le> length u"
  by (auto simp: strip_fraction_def Let_def split: if_splits)

lemma strip_zone_length: "length (strip_zone u) \<le> length u"
proof (cases "strip_template ''99'' (drop 1 u)")
  case (Some r)
  then have "length r \<le> length u"
    using strip_template_length [OF Some] by simp
  then show ?thesis
    using Some strip_template_length [of "'':99''" r]
    by (fastforce simp: strip_zone_def split: option.splits)
qed (simp add: strip_zone_def)

lemma has_prefix_drop1: "has_prefix u [c] \<Longrightarrow> length (drop 1 u) < length u"
  by (auto simp: has_prefix_iff)

lemma match_literal_shorter:
  assumes "match_literal s = Some (lit, rest)"
  shows "length rest < length s"
proof -
  obtain r r1 where *: "strip_template ''9999-99-99 99:99:99.'' s = Some r" "strip_fraction r = Some r1"
      "has_prefix (strip_zone r1) [CHR 0x27]" "rest = drop 1 (strip_zone r1)"
    using assms by (auto simp: match_literal_def Let_def split: option.splits if_splits)
  from has_prefix_drop1 [OF *(3)] *(4) have "length rest < length (strip_zone r1)" by simp
  also have "\<dots> \<le> length r1" by (rule strip_zone_length)
  also have "\<dots> \<le> length r" by (rule strip_fraction_length [OF *(2)])
  also have "\<dots> \<le> length s" by (rule strip_template_length [OF *(1)])
  finally show ?thesis .
qed

lemma match_comparison_shorter:
  assumes "match_comparison s = Some (name, lit, rest)"
  shows "length rest < length s"
proof -
  let ?r = "drop (1 + length (takeWhile (\<lambda>c. c \<noteq> CHR 0x22) (drop 1 s))) s"
  let ?r1 = "dropWhile re_space (drop 1 ?r)"
  let ?r2 = "dropWhile re_space (drop 1 ?r1)"
  have "match_literal (drop 1 ?r2) = Some (lit, rest)"
    using assms by (auto simp: match_comparison_def Let_def split: if_splits)
  then have "length rest < length (drop 1 ?r2)" by (rule match_literal_shorter)
  also have "\<dots> \<le> length ?r2" by simp
  also have "\<dots> \<le> length (drop 1 ?r1)" by (rule length_dropWhile)
  also have "\<dots> \<le> length ?r1" by simp
  also have "\<dots> \<le> length (drop 1 ?r)" by (rule length_dropWhile)
  also have "\<dots> \<le> length s" by simp
  finally show ?thesis .
qed

function replace_comparisons :: "string \<Rightarrow> string" where
  "replace_comparisons [] = []"
| "replace_comparisons (c # s) =
     (case match_comparison (c # s) of
        None \<Rightarrow> c # replace_comparisons s
      | Some (name, lit, rest) \<Rightarrow> date_trunc_comparison name lit @ replace_comparisons rest)"
  by pat_completeness auto
termination
  by (relation "measure length") (auto dest: match_comparison_shorter)

definition rewrite_timestamp_comparisons :: "string \<Rightarrow> string" where
  "rewrite_timestamp_comparisons sql =
     (let lower = to_lower (trim_space sql) in
      if \<not> has_prefix lower ''update'' \<and> \<not> has_prefix lower ''delete'' then sql
      else case index_of (to_lower (redact Postgres sql)) '' where '' of
        None \<Rightarrow> sql
      | Some where_idx \<Rightarrow>
          let pre = take (where_idx + 7) sql;
              where_clause = drop (where_idx + 7) sql;
              rewritten = replace_comparisons where_clause in
          if rewritten = where_clause then sql else pre @ rewritten)"

section \<open>What is left alone\<close>

text \<open>A text in which no comparison matches is unchanged; in particular one without a quoted name.\<close>

lemma replace_unmatched:
  "(\<And>i. match_comparison (drop i s) = None) \<Longrightarrow> replace_comparisons s = s"
proof (induction s)
  case (Cons c s)
  have "match_comparison (drop i s) = None" for i using Cons.prems [of "Suc i"] by simp
  with Cons.IH Cons.prems [of 0] show ?case by simp
qed simp

lemma match_needs_point: "match_comparison s = Some m \<Longrightarrow> CHR ''.'' \<in> set s"
proof -
  have tmpl: "strip_template t u = Some v \<Longrightarrow> CHR ''.'' \<in> set t \<Longrightarrow> CHR ''.'' \<in> set u" for t u v
    by (induction t u rule: strip_template.induct) (auto split: if_splits)
  have lit: "match_literal u = Some x \<Longrightarrow> CHR ''.'' \<in> set u" for u x
    using tmpl [of "''9999-99-99 99:99:99.''" u]
    by (auto simp: match_literal_def simp del: strip_template.simps split: option.splits)
  let ?r = "drop (1 + length (takeWhile (\<lambda>c. c \<noteq> CHR 0x22) (drop 1 s))) s"
  assume "match_comparison s = Some m"
  then have "CHR ''.'' \<in> set (drop 1 (dropWhile re_space (drop 1 (dropWhile re_space (drop 1 ?r)))))"
    by (auto simp: match_comparison_def Let_def dest!: lit split: if_splits)
  then show "CHR ''.'' \<in> set s"
    by (meson in_set_dropD set_dropWhileD)
qed

text \<open>
  Only the WHERE clause of an UPDATE or a DELETE can change, and only when it compares
  against a literal with a fraction of a second: the statement is unchanged when it does not open
  with one of these words, when its code has no WHERE, and when the clause has no decimal point; and
  whatever happens, everything up to and including the first \<open>where\<close> of its code is unchanged.
\<close>

theorem rewrite_touches_where_only:
  "(case index_of (to_lower (redact Postgres sql)) '' where '' of
      None \<Rightarrow> rewrite_timestamp_comparisons sql = sql
    | Some k \<Rightarrow> prefix (take (k + 7) sql) (rewrite_timestamp_comparisons sql) \<and>
        (if CHR ''.'' \<notin> set (drop (k + 7) sql) then rewrite_timestamp_comparisons sql = sql else True)) \<and>
   (if has_prefix (to_lower (trim_space sql)) ''update'' \<or> has_prefix (to_lower (trim_space sql)) ''delete''
    then True else rewrite_timestamp_comparisons sql = sql)"
proof (cases "index_of (to_lower (redact Postgres sql)) '' where ''")
  case None
  then show ?thesis by (simp add: rewrite_timestamp_comparisons_def)
next
  case (Some k)
  have "replace_comparisons (drop (k + 7) sql) = drop (k + 7) sql" if "CHR ''.'' \<notin> set (drop (k + 7) sql)"
  proof (rule replace_unmatched)
    fix i
    show "match_comparison (drop i (drop (k + 7) sql)) = None"
      using that match_needs_point by (metis in_set_dropD option.exhaust)
  qed
  with Some show ?thesis
    by (auto simp: rewrite_timestamp_comparisons_def Let_def take_is_prefix)
qed

end
