(* ===== verification/Pg_Startup.thy ===== *)
theory Pg_Startup
  imports Pg_Local
begin

text \<open>
  \<open>internal/pgwire/startup.go\<close>: the startup exchange up to the first \<open>ReadyForQuery\<close>. What the client
  sends is a list of inputs; an exhausted list is a closed connection.
\<close>

section \<open>What the client sends\<close>

datatype fe_msg =
    Query string
  | Terminate
  | Parse | Bind | Describe | Execute | Close | Flush
  | Sync
  | PasswordMessage string
  | UnsupportedMessage

datatype startup_msg =
    SSLRequest
  | GSSEncRequest
  | CancelRequest "32 word" string
  | StartupMessage "string \<rightharpoonup> string"
  | OtherStartup

datatype client_input = Startup startup_msg | Message fe_msg

section \<open>The exchange\<close>

datatype startup_error =
    ConnectionLost
  | ErrAuthFailed
  | ErrRefused string
  | ErrCancelRequest
  | UnexpectedMessage

definition parameter_statuses :: "bool \<Rightarrow> be_msg list" where
  "parameter_statuses ro =
     [ParameterStatus ''server_version'' ''14.0'',
      ParameterStatus ''server_encoding'' ''UTF8'',
      ParameterStatus ''client_encoding'' ''UTF8'',
      ParameterStatus ''DateStyle'' ''ISO, MDY'',
      ParameterStatus ''TimeZone'' ''UTC'',
      ParameterStatus ''standard_conforming_strings'' ''on'',
      ParameterStatus ''integer_datetimes'' ''on'',
      ParameterStatus ''default_transaction_read_only'' (on_off ro)]"

text \<open>\<open>ConstantTimeCompare\<close> is equality of the byte strings.\<close>

definition authenticate :: "string \<Rightarrow> string \<Rightarrow> string \<Rightarrow> client_input list \<Rightarrow>
    be_msg list \<times> startup_error option \<times> client_input list" where
  "authenticate client_user username password inputs =
     (case inputs of
        [] \<Rightarrow> ([AuthenticationCleartextPassword], Some ConnectionLost, [])
      | i # rest \<Rightarrow>
          (case i of
             Message (PasswordMessage pw) \<Rightarrow>
               let user_ok = (client_user = username); pass_ok = (pw = password) in
               if \<not> user_ok \<or> \<not> pass_ok then
                 ([AuthenticationCleartextPassword,
                   ErrorResponse ''FATAL'' ''28P01''
                     (''password authentication failed for user '' @ go_quote client_user) []],
                  Some ErrAuthFailed, rest)
               else ([AuthenticationCleartextPassword], None, rest)
           | _ \<Rightarrow> ([AuthenticationCleartextPassword], Some UnexpectedMessage, rest)))"

text \<open>
  The settings of the exchange: the credentials, the key of the session, the mode and the admission
  check, a step on the state \<open>'g\<close> of the gate with the reason of a refusal.
\<close>

record 'g startup_config =
  username :: string
  password :: string
  key_pid :: "32 word"
  key_secret :: string
  ro_mode :: bool
  admit :: "'g \<Rightarrow> string option \<times> 'g"

text \<open>The result: what was written, how it ended, the cancellation asked for, the gate, and what is
  still to be read.\<close>

record 'g startup_result =
  written :: "be_msg list"
  ended :: "startup_error + (string \<rightharpoonup> string)"
  cancel_asked :: "(32 word \<times> string) option"
  gate_after :: 'g
  unread :: "client_input list"

fun handle_startup :: "'g startup_config \<Rightarrow> client_input list \<Rightarrow> 'g \<Rightarrow> 'g startup_result" where
  "handle_startup cfg [] g =
     \<lparr>written = [], ended = Inl ConnectionLost, cancel_asked = None, gate_after = g, unread = []\<rparr>"
| "handle_startup cfg (Message m # rest) g =
     \<lparr>written = [], ended = Inl ConnectionLost, cancel_asked = None, gate_after = g, unread = rest\<rparr>"
| "handle_startup cfg (Startup SSLRequest # rest) g =
     (let r = handle_startup cfg rest g in r\<lparr>written := DenyEncryption # written r\<rparr>)"
| "handle_startup cfg (Startup GSSEncRequest # rest) g =
     (let r = handle_startup cfg rest g in r\<lparr>written := DenyEncryption # written r\<rparr>)"
| "handle_startup cfg (Startup (CancelRequest pid secret) # rest) g =
     \<lparr>written = [], ended = Inl ErrCancelRequest, cancel_asked = Some (pid, secret), gate_after = g,
      unread = rest\<rparr>"
| "handle_startup cfg (Startup OtherStartup # rest) g =
     \<lparr>written = [], ended = Inl UnexpectedMessage, cancel_asked = None, gate_after = g, unread = rest\<rparr>"
| "handle_startup cfg (Startup (StartupMessage params) # rest) g =
     (case authenticate (param params ''user'') (username cfg) (password cfg) rest of
        (w, Some err, rest') \<Rightarrow>
          \<lparr>written = w, ended = Inl err, cancel_asked = None, gate_after = g, unread = rest'\<rparr>
      | (w, None, rest') \<Rightarrow>
          (case admit cfg g of
             (Some why, g') \<Rightarrow>
               \<lparr>written = w @ send_fatal sqlstate_connection_failure why, ended = Inl (ErrRefused why),
                cancel_asked = None, gate_after = g', unread = rest'\<rparr>
           | (None, g') \<Rightarrow>
               \<lparr>written = w @ [AuthenticationOk] @ parameter_statuses (ro_mode cfg) @
                  [BackendKeyData (key_pid cfg) (key_secret cfg), ReadyForQuery],
                ended = Inr params, cancel_asked = None, gate_after = g', unread = rest'\<rparr>))"

section \<open>Safety of the exchange\<close>

definition is_request :: "startup_msg \<Rightarrow> bool" where
  "is_request m = (m = SSLRequest \<or> m = GSSEncRequest)"

text \<open>The encryption requests a client may repeat, and what is left after them.\<close>

lemma handle_startup_requests:
  "list_all is_request ms \<Longrightarrow> handle_startup cfg (map Startup ms @ rest) g =
     (let r = handle_startup cfg rest g in r\<lparr>written := replicate (length ms) DenyEncryption @ written r\<rparr>)"
  by (induction ms) (auto simp: is_request_def Let_def)

definition discloses :: "be_msg \<Rightarrow> bool" where
  "discloses m \<longleftrightarrow> m = AuthenticationOk \<or> m = ReadyForQuery \<or> (\<exists>p s. m = BackendKeyData p s) \<or>
     (\<exists>n v. m = ParameterStatus n v)"


end
