(* ===== verification/Go_Regexp.thy ===== *)
theory Go_Regexp
  imports Wire_Prelude
begin

text \<open>
  The part of Go's \<open>regexp\<close> that \<open>internal/pgwire/catalog.go\<close> uses: the syntax of its patterns, the ends
  of a match in the order Perl and Go prefer them, leftmost search, all matches, and the captured groups.
  One byte is one character, as it is in ASCII. The laws relate the ends to what a pattern means.
\<close>

section \<open>Patterns\<close>

text \<open>Repetition is greedy (\<open>Rx_many\<close>) or lazy (\<open>Rx_few\<close>); \<open>Rx_edge\<close> is the word boundary \<open>\b\<close>.\<close>

datatype rx =
    Rx_empty
  | Rx_byte "char \<Rightarrow> bool"
  | Rx_seq rx rx
  | Rx_alt rx rx
  | Rx_many rx
  | Rx_few rx
  | Rx_group nat rx
  | Rx_start
  | Rx_stop
  | Rx_edge

definition rx_word_byte :: "char \<Rightarrow> bool" where
  "rx_word_byte c \<longleftrightarrow> is_alpha c \<or> is_digit c \<or> c = CHR ''_''"

definition rx_space_byte :: "char \<Rightarrow> bool" where
  "rx_space_byte c \<longleftrightarrow> blank4 c \<or> c = CHR 0x0C"

definition word_edge :: "string \<Rightarrow> nat \<Rightarrow> bool" where
  "word_edge s i \<longleftrightarrow> (0 < i \<and> rx_word_byte (s ! (i - 1))) \<noteq> (i < length s \<and> rx_word_byte (s ! i))"

subsection \<open>Abbreviations of the syntax\<close>

definition rx_lit :: "string \<Rightarrow> rx" where
  "rx_lit t = foldr (\<lambda>c. Rx_seq (Rx_byte (\<lambda>x. x = c))) t Rx_empty"

definition rx_some :: "rx \<Rightarrow> rx" where
  "rx_some r = Rx_seq r (Rx_many r)"

definition rx_opt :: "rx \<Rightarrow> rx" where
  "rx_opt r = Rx_alt r Rx_empty"

definition rx_cat :: "rx list \<Rightarrow> rx" where
  "rx_cat rs = foldr Rx_seq rs Rx_empty"

fun rx_one_of :: "rx list \<Rightarrow> rx" where
  "rx_one_of [] = Rx_byte (\<lambda>_. False)"
| "rx_one_of [r] = r"
| "rx_one_of (r # rs) = Rx_alt r (rx_one_of rs)"

definition rx_spaces :: rx where "rx_spaces = Rx_many (Rx_byte rx_space_byte)"
definition rx_any :: rx where "rx_any = Rx_byte (\<lambda>_. True)"

section \<open>The ends of a match\<close>

text \<open>A state is a position and the groups captured so far, the latest first.\<close>

type_synonym rx_state = "nat \<times> (nat \<times> nat \<times> nat) list"

text \<open>Iterations that consume something, of which there are at most as many as bytes are left.\<close>

primrec many_ends :: "(rx_state \<Rightarrow> rx_state list) \<Rightarrow> nat \<Rightarrow> rx_state \<Rightarrow> rx_state list" where
  "many_ends f 0 st = [st]"
| "many_ends f (Suc n) st = concat (map (many_ends f n) (filter (\<lambda>st'. fst st < fst st') (f st))) @ [st]"

primrec few_ends :: "(rx_state \<Rightarrow> rx_state list) \<Rightarrow> nat \<Rightarrow> rx_state \<Rightarrow> rx_state list" where
  "few_ends f 0 st = [st]"
| "few_ends f (Suc n) st = st # concat (map (few_ends f n) (filter (\<lambda>st'. fst st < fst st') (f st)))"

primrec rx_ends :: "rx \<Rightarrow> string \<Rightarrow> rx_state \<Rightarrow> rx_state list" where
  "rx_ends Rx_empty s st = [st]"
| "rx_ends (Rx_byte p) s st = (if fst st < length s \<and> p (s ! fst st) then [(fst st + 1, snd st)] else [])"
| "rx_ends (Rx_seq a b) s st = concat (map (rx_ends b s) (rx_ends a s st))"
| "rx_ends (Rx_alt a b) s st = rx_ends a s st @ rx_ends b s st"
| "rx_ends (Rx_many r) s st = many_ends (rx_ends r s) (length s - fst st) st"
| "rx_ends (Rx_few r) s st = few_ends (rx_ends r s) (length s - fst st) st"
| "rx_ends (Rx_group k r) s st = map (\<lambda>(j, caps). (j, (k, fst st, j) # caps)) (rx_ends r s st)"
| "rx_ends Rx_start s st = (if fst st = 0 then [st] else [])"
| "rx_ends Rx_stop s st = (if fst st = length s then [st] else [])"
| "rx_ends Rx_edge s st = (if word_edge s (fst st) then [st] else [])"

section \<open>Search\<close>

text \<open>The leftmost match from a position on: its start, and its end with the groups.\<close>

definition rx_search :: "rx \<Rightarrow> string \<Rightarrow> nat \<Rightarrow> (nat \<times> rx_state) option" where
  "rx_search r s i =
     (case find (\<lambda>a. rx_ends r s (a, []) \<noteq> []) [i..<Suc (length s)] of
        None \<Rightarrow> None
      | Some a \<Rightarrow> Some (a, hd (rx_ends r s (a, []))))"

definition rx_matches :: "rx \<Rightarrow> string \<Rightarrow> bool" where
  "rx_matches r s \<longleftrightarrow> rx_search r s 0 \<noteq> None"

text \<open>\<open>FindStringIndex\<close> and \<open>FindStringSubmatch\<close>: the span of the match or of a group.\<close>

definition rx_span :: "rx \<Rightarrow> string \<Rightarrow> (nat \<times> nat) option" where
  "rx_span r s = map_option (\<lambda>(a, b, caps). (a, b)) (rx_search r s 0)"

definition group_text :: "string \<Rightarrow> (nat \<times> nat \<times> nat) list \<Rightarrow> nat \<Rightarrow> string" where
  "group_text s caps k = (case map_of caps k of None \<Rightarrow> [] | Some (a, b) \<Rightarrow> substr s a b)"

definition rx_group_of :: "rx \<Rightarrow> nat \<Rightarrow> string \<Rightarrow> string option" where
  "rx_group_of r k s = map_option (\<lambda>(a, b, caps). group_text s caps k) (rx_search r s 0)"

lemma find_upt_Some: "find P [i..<n] = Some a \<longleftrightarrow> i \<le> a \<and> a < n \<and> P a \<and> (\<forall>b. i \<le> b \<longrightarrow> b < a \<longrightarrow> \<not> P b)"
proof (induction "n - i" arbitrary: i)
  case (Suc k)
  then have u: "[i..<n] = i # [Suc i..<n]" by (simp add: upt_conv_Cons)
  from Suc.hyps(2) have "k = n - Suc i" by simp
  note ih = Suc.hyps(1) [OF this]
  show ?case
  proof (cases "P i")
    case True
    with Suc.hyps(2) show ?thesis by (auto simp: u)
  next
    case False
    then have "(\<forall>b. i \<le> b \<longrightarrow> b < a \<longrightarrow> \<not> P b) \<longleftrightarrow> (\<forall>b. Suc i \<le> b \<longrightarrow> b < a \<longrightarrow> \<not> P b)"
      by (metis Suc_leD Suc_leI le_neq_implies_less)
    with False ih show ?thesis by (auto simp: u Suc_le_eq le_less)
  qed
qed auto

lemma find_upt_None: "find P [i..<n] = None \<longleftrightarrow> (\<forall>a. i \<le> a \<longrightarrow> a < n \<longrightarrow> \<not> P a)"
  by (auto simp: find_None_iff)

lemma rx_search_bounds: "rx_search r s i = Some (a, st) \<Longrightarrow> i \<le> a \<and> a \<le> length s"
  by (auto simp: rx_search_def find_upt_Some simp del: upt_Suc split: option.splits)

text \<open>\<open>FindAll\<close>: each search starts where the match before ended.\<close>

function rx_find_all :: "rx \<Rightarrow> string \<Rightarrow> nat \<Rightarrow> (nat \<times> rx_state) list" where
  "rx_find_all r s i =
     (case rx_search r s i of
        None \<Rightarrow> []
      | Some (a, b, caps) \<Rightarrow> (a, b, caps) # rx_find_all r s (max b (a + 1)))"
  by pat_completeness auto
termination
proof (relation "measure (\<lambda>(r, s, i). Suc (length s) - i)", goal_cases)
  case (2 r s i m a st b caps)
  then have "i \<le> a \<and> a \<le> length s" using rx_search_bounds [of r s i a st] by simp
  then show ?case by auto
qed simp

declare rx_find_all.simps [simp del]

section \<open>What a pattern means\<close>

text \<open>A match of the text between two positions, without order and without captures.\<close>

inductive rx_between :: "rx \<Rightarrow> string \<Rightarrow> nat \<Rightarrow> nat \<Rightarrow> bool" where
  empty: "rx_between Rx_empty s i i"
| byte: "i < length s \<Longrightarrow> p (s ! i) \<Longrightarrow> rx_between (Rx_byte p) s i (i + 1)"
| seq: "rx_between a s i j \<Longrightarrow> rx_between b s j k \<Longrightarrow> rx_between (Rx_seq a b) s i k"
| alt1: "rx_between a s i j \<Longrightarrow> rx_between (Rx_alt a b) s i j"
| alt2: "rx_between b s i j \<Longrightarrow> rx_between (Rx_alt a b) s i j"
| many0: "rx_between (Rx_many r) s i i"
| many: "rx_between r s i j \<Longrightarrow> rx_between (Rx_many r) s j k \<Longrightarrow> rx_between (Rx_many r) s i k"
| few0: "rx_between (Rx_few r) s i i"
| few: "rx_between r s i j \<Longrightarrow> rx_between (Rx_few r) s j k \<Longrightarrow> rx_between (Rx_few r) s i k"
| group: "rx_between r s i j \<Longrightarrow> rx_between (Rx_group n r) s i j"
| start: "rx_between Rx_start s 0 0"
| stop: "rx_between Rx_stop s (length s) (length s)"
| edge: "word_edge s i \<Longrightarrow> rx_between Rx_edge s i i"

inductive_simps rx_between_simps [simp]:
  "rx_between Rx_empty s i j" "rx_between (Rx_byte p) s i j" "rx_between (Rx_seq a b) s i j"
  "rx_between (Rx_alt a b) s i j" "rx_between (Rx_group n r) s i j" "rx_between Rx_start s i j"
  "rx_between Rx_stop s i j" "rx_between Rx_edge s i j"

inductive_cases rx_between_manyE: "rx_between (Rx_many r) s i j"
inductive_cases rx_between_fewE: "rx_between (Rx_few r) s i j"

lemma rx_between_bounds: "rx_between r s i j \<Longrightarrow> i \<le> length s \<Longrightarrow> i \<le> j \<and> j \<le> length s"
  by (induction rule: rx_between.induct) auto

text \<open>Both repetitions reach what iterations that consume something reach.\<close>

inductive steps_up :: "(nat \<Rightarrow> nat \<Rightarrow> bool) \<Rightarrow> nat \<Rightarrow> nat \<Rightarrow> bool" for R where
  here: "steps_up R i i"
| up: "R i j \<Longrightarrow> i < j \<Longrightarrow> steps_up R j k \<Longrightarrow> steps_up R i k"

lemma steps_up_many: "steps_up (rx_between r s) i j \<Longrightarrow> rx_between (Rx_many r) s i j \<and> rx_between (Rx_few r) s i j"
  by (induction rule: steps_up.induct) (auto intro: rx_between.many0 rx_between.few0 rx_between.many rx_between.few)

lemma many_steps_up:
  "rx_between q s i j \<Longrightarrow> i \<le> length s \<Longrightarrow> q = Rx_many r \<or> q = Rx_few r \<Longrightarrow> steps_up (rx_between r s) i j"
proof (induction rule: rx_between.induct)
  case (many r' s i j k)
  then have b: "i \<le> j" "j \<le> length s" using rx_between_bounds by blast+
  with many show ?case by (cases "i = j") (auto intro: steps_up.up)
next
  case (few r' s i j k)
  then have b: "i \<le> j" "j \<le> length s" using rx_between_bounds by blast+
  with few show ?case by (cases "i = j") (auto intro: steps_up.up)
qed (auto intro: steps_up.here)

lemma repeat_iff_steps_up:
  "i \<le> length s \<Longrightarrow> rx_between (Rx_many r) s i j \<longleftrightarrow> steps_up (rx_between r s) i j"
  "i \<le> length s \<Longrightarrow> rx_between (Rx_few r) s i j \<longleftrightarrow> steps_up (rx_between r s) i j"
  using steps_up_many many_steps_up by blast+

text \<open>The positions a list of states reaches.\<close>

definition reaches :: "rx_state list \<Rightarrow> nat \<Rightarrow> bool" where
  "reaches sts j \<longleftrightarrow> j \<in> fst ` set sts"

lemma repeat_reaches:
  assumes "\<And>st j. fst st \<le> m \<Longrightarrow> reaches (f st) j \<longleftrightarrow> R (fst st) j"
    and "\<And>i j. R i j \<Longrightarrow> i \<le> m \<Longrightarrow> j \<le> m" and "fst st \<le> m" and "m - fst st \<le> n"
  shows "(reaches (many_ends f n st) j \<longleftrightarrow> steps_up R (fst st) j) \<and> (reaches (few_ends f n st) j \<longleftrightarrow> steps_up R (fst st) j)"
  using assms(3,4)
proof (induction n arbitrary: st)
  case 0
  then have m: "fst st = m" by simp
  have "j = m" if "steps_up R m j"
    using that assms(2) [of m] by (cases rule: steps_up.cases) (auto dest: leD)
  then show ?case using m by (auto simp: reaches_def intro: steps_up.here)
next
  case (Suc n)
  have ih: "(reaches (many_ends f n st') j \<longleftrightarrow> steps_up R (fst st') j) \<and> (reaches (few_ends f n st') j \<longleftrightarrow> steps_up R (fst st') j)"
    if "st' \<in> set (f st)" "fst st < fst st'" for st'
  proof -
    have "R (fst st) (fst st')" using assms(1) [OF Suc.prems(1), of "fst st'"] that(1) by (auto simp: reaches_def)
    with assms(2) Suc.prems that(2) show ?thesis by (intro Suc.IH) auto
  qed
  have up: "steps_up R (fst st) j \<longleftrightarrow> j = fst st \<or> (\<exists>st' \<in> set (f st). fst st < fst st' \<and> steps_up R (fst st') j)"
  proof
    assume "steps_up R (fst st) j"
    then show "j = fst st \<or> (\<exists>st' \<in> set (f st). fst st < fst st' \<and> steps_up R (fst st') j)"
    proof (cases rule: steps_up.cases)
      case (up k)
      from assms(1) [OF Suc.prems(1), of k] up(1) have "reaches (f st) k" by simp
      with up(2,3) show ?thesis by (auto simp: reaches_def)
    qed simp
  qed (use assms(1) [OF Suc.prems(1)] in \<open>auto simp: reaches_def intro: steps_up.here steps_up.up\<close>)
  show ?case unfolding up using ih by (auto simp: reaches_def)
qed

lemma rx_ends_iff: "fst st \<le> length s \<Longrightarrow> reaches (rx_ends r s st) j \<longleftrightarrow> rx_between r s (fst st) j"
proof (induction r arbitrary: st j)
  case (Rx_seq a b)
  have b: "reaches (rx_ends b s st') j \<longleftrightarrow> rx_between b s (fst st') j" if "st' \<in> set (rx_ends a s st)" for st'
  proof -
    have "reaches (rx_ends a s st) (fst st')" using that by (simp add: reaches_def)
    then have "rx_between a s (fst st) (fst st')" by (simp only: Rx_seq.IH(1) [OF Rx_seq.prems])
    then have "fst st' \<le> length s" using rx_between_bounds Rx_seq.prems by blast
    then show ?thesis by (rule Rx_seq.IH(2))
  qed
  have "reaches (rx_ends (Rx_seq a b) s st) j \<longleftrightarrow> (\<exists>st' \<in> set (rx_ends a s st). reaches (rx_ends b s st') j)"
    by (auto simp: reaches_def)
  also have "\<dots> \<longleftrightarrow> (\<exists>st' \<in> set (rx_ends a s st). rx_between b s (fst st') j)" using b by blast
  also have "\<dots> \<longleftrightarrow> (\<exists>k. reaches (rx_ends a s st) k \<and> rx_between b s k j)" by (auto simp: reaches_def)
  also have "\<dots> \<longleftrightarrow> rx_between (Rx_seq a b) s (fst st) j" by (simp add: Rx_seq.IH(1) [OF Rx_seq.prems])
  finally show ?case .
next
  case (Rx_alt a b)
  from Rx_alt.IH(1) [OF Rx_alt.prems, of j] Rx_alt.IH(2) [OF Rx_alt.prems, of j] show ?case
    by (simp add: reaches_def image_Un)
next
  case (Rx_many r)
  have "rx_between r s i k \<Longrightarrow> i \<le> length s \<Longrightarrow> k \<le> length s" for i k using rx_between_bounds by blast
  with repeat_reaches [of "length s" "rx_ends r s" "rx_between r s" st "length s - fst st" j, OF Rx_many.IH] Rx_many.prems
  show ?case by (simp add: repeat_iff_steps_up)
next
  case (Rx_few r)
  have "rx_between r s i k \<Longrightarrow> i \<le> length s \<Longrightarrow> k \<le> length s" for i k using rx_between_bounds by blast
  with repeat_reaches [of "length s" "rx_ends r s" "rx_between r s" st "length s - fst st" j, OF Rx_few.IH] Rx_few.prems
  show ?case by (simp add: repeat_iff_steps_up)
next
  case (Rx_group k r)
  from Rx_group.IH [OF Rx_group.prems, of j] show ?case
    by (simp add: reaches_def image_image case_prod_beta)
qed (auto simp: reaches_def)

text \<open>The search succeeds exactly if the pattern occurs, and then at its leftmost occurrence.\<close>

lemma rx_ends_nonempty: "i \<le> length s \<Longrightarrow> rx_ends r s (i, c) \<noteq> [] \<longleftrightarrow> (\<exists>j. rx_between r s i j)"
proof -
  assume "i \<le> length s"
  then have "rx_between r s i j \<longleftrightarrow> reaches (rx_ends r s (i, c)) j" for j
    using rx_ends_iff [of "(i, c)" s r j] by simp
  then show ?thesis by (cases "rx_ends r s (i, c)") (auto simp: reaches_def)
qed

lemma rx_search_None: "rx_search r s i = None \<longleftrightarrow> (\<forall>a j. i \<le> a \<longrightarrow> a \<le> length s \<longrightarrow> \<not> rx_between r s a j)"
proof -
  have "rx_search r s i = None \<longleftrightarrow> find (\<lambda>a. rx_ends r s (a, []) \<noteq> []) [i..<Suc (length s)] = None"
    by (simp add: rx_search_def del: upt_Suc split: option.split)
  then show ?thesis using rx_ends_nonempty [of _ s r "[]"] unfolding find_upt_None less_Suc_eq_le by blast
qed

lemma rx_search_Some:
  assumes "rx_search r s i = Some (a, b, caps)"
  shows "i \<le> a \<and> rx_between r s a b \<and> a \<le> b \<and> b \<le> length s \<and> (\<forall>a' j. i \<le> a' \<longrightarrow> a' < a \<longrightarrow> \<not> rx_between r s a' j)"
proof -
  from assms have f: "find (\<lambda>a. rx_ends r s (a, []) \<noteq> []) [i..<Suc (length s)] = Some a" "hd (rx_ends r s (a, [])) = (b, caps)"
    by (auto simp: rx_search_def simp del: upt_Suc split: option.splits)
  from f(1) have a: "i \<le> a" "a \<le> length s" "rx_ends r s (a, []) \<noteq> []"
      and least: "\<And>a'. i \<le> a' \<Longrightarrow> a' < a \<Longrightarrow> rx_ends r s (a', []) = []"
    by (auto simp: find_upt_Some simp del: upt_Suc)
  have "(b, caps) \<in> set (rx_ends r s (a, []))" using f(2) a(3) by (metis list.set_sel(1))
  then have "reaches (rx_ends r s (a, [])) b" by (force simp: reaches_def)
  with rx_ends_iff [of "(a, [])" s r b] a have m: "rx_between r s a b" by simp
  have "\<not> rx_between r s a' j" if "i \<le> a'" "a' < a" for a' j
    using least [OF that] rx_ends_nonempty [of a' s r "[]"] that a(2) by auto
  with m rx_between_bounds [OF m] a show ?thesis by auto
qed

lemma rx_matches_iff: "rx_matches r s \<longleftrightarrow> (\<exists>a j. a \<le> length s \<and> rx_between r s a j)"
  using rx_search_None [of r s 0] by (auto simp: rx_matches_def)

end
