(* ===== verification/Pg_Select.thy ===== *)
theory Pg_Select
  imports Go_Regexp Pg_Local
begin

text \<open>
  \<open>internal/pgwire/catalog.go\<close>, the select lists of introspection queries: the patterns of the file, the
  columns a query asks for with their names, and the values its expressions have in a row, \<open>CASE\<close> among
  them. Keywords are found in the redacted text and read from the original, which share positions.
\<close>

section \<open>Patterns\<close>

definition cat_ident_byte :: "char \<Rightarrow> bool" where
  "cat_ident_byte c \<longleftrightarrow> c = CHR ''_'' \<or> c = CHR ''$'' \<or> is_alpha c \<or> is_digit c"

definition cat_token_at :: "string \<Rightarrow> nat \<Rightarrow> string \<Rightarrow> bool" where
  "cat_token_at s i tok \<longleftrightarrow>
     has_prefix (drop i s) tok \<and>
     (i = 0 \<or> \<not> cat_ident_byte (s ! (i - 1))) \<and>
     (i + length tok = length s \<or> \<not> cat_ident_byte (s ! (i + length tok)))"

definition rx_spaces1 :: rx where "rx_spaces1 = rx_some (Rx_byte rx_space_byte)"

text \<open>\<open>[A-Za-z_][\w$]*\<close> and a quoted name.\<close>

definition rx_name :: rx where
  "rx_name = Rx_seq (Rx_byte (\<lambda>c. is_alpha c \<or> c = CHR ''_'')) (Rx_many (Rx_byte (\<lambda>c. rx_word_byte c \<or> c = CHR ''$'')))"

definition rx_quoted_name :: rx where
  "rx_quoted_name = rx_cat [rx_lit [CHR 0x22], rx_some (Rx_byte (\<lambda>c. c \<noteq> CHR 0x22)), rx_lit [CHR 0x22]]"

text \<open>A word up to case.\<close>

definition rx_fold :: "string \<Rightarrow> rx" where
  "rx_fold t = foldr (\<lambda>c. Rx_seq (Rx_byte (\<lambda>x. lower_byte x = c))) t Rx_empty"

definition rx_schema_prefix :: rx where
  "rx_schema_prefix = Rx_many (Rx_seq rx_name (rx_lit ''.''))"

definition select_start_re :: rx where
  "select_start_re =
     rx_cat [Rx_start, rx_spaces, rx_lit ''select'', rx_spaces1,
       rx_opt (rx_cat [rx_one_of [rx_lit ''distinct'', rx_lit ''all''], rx_spaces1])]"

definition ident_re :: rx where
  "ident_re =
     rx_cat [Rx_start, rx_one_of [rx_name, rx_quoted_name],
       Rx_many (Rx_seq (rx_lit ''.'') (rx_one_of [rx_name, rx_quoted_name])), Rx_stop]"

definition bare_ident_re :: rx where
  "bare_ident_re = rx_cat [Rx_start, rx_name, Rx_stop]"

definition func_call_re :: rx where
  "func_call_re =
     rx_cat [Rx_start, rx_schema_prefix, Rx_group 1 rx_name, rx_spaces, rx_lit ''('', Rx_many rx_any, rx_lit '')'', Rx_stop]"

definition cast_suffix_re :: rx where
  "cast_suffix_re =
     rx_cat
       [rx_some (rx_cat [rx_spaces, rx_lit ''::'', rx_spaces, rx_schema_prefix, rx_name,
          rx_opt (rx_cat [rx_lit ''('', Rx_many (Rx_byte (\<lambda>c. c \<noteq> CHR '')'')), rx_lit '')''])]),
        rx_spaces, Rx_stop]"

definition literal_re :: rx where
  "literal_re = rx_cat [Rx_start, rx_lit [CHR 0x27], Rx_group 1 (Rx_many rx_any), rx_lit [CHR 0x27], Rx_stop]"

definition number_re :: rx where
  "number_re =
     rx_cat [Rx_start, rx_opt (rx_lit ''-''), rx_some (Rx_byte is_digit),
       rx_opt (Rx_seq (rx_lit ''.'') (rx_some (Rx_byte is_digit))), Rx_stop]"

section \<open>Text helpers\<close>

definition trim_byte :: "char \<Rightarrow> string \<Rightarrow> string" where
  "trim_byte b s = trim_right (\<lambda>c. c = b) (trim_left (\<lambda>c. c = b) s)"

definition cut_prefix :: "string \<Rightarrow> string \<Rightarrow> string" where
  "cut_prefix p s = (if has_prefix s p then drop (length p) s else s)"

definition cut_suffix :: "string \<Rightarrow> string \<Rightarrow> string" where
  "cut_suffix p s = (if has_suffix s p then take (length s - length p) s else s)"

text \<open>\<open>strings.LastIndex\<close>.\<close>

definition last_index_of :: "string \<Rightarrow> string \<Rightarrow> nat option" where
  "last_index_of s t = find (\<lambda>i. has_prefix (drop i s) t) (rev [0..<Suc (length s)])"

definition unqualify :: "string \<Rightarrow> string" where
  "unqualify s =
     (let s1 = trim_byte (CHR 0x22) (trim_space s) in
      trim_byte (CHR 0x22)
        (case last_index_byte s1 (CHR ''.'') of Some i \<Rightarrow> drop (i + 1) s1 | None \<Rightarrow> s1))"

section \<open>The select list\<close>

record sel_col =
  sel_output :: string
  sel_expr :: string
  sel_cast :: string

definition plain_col :: "string \<Rightarrow> sel_col" where
  "plain_col name = \<lparr>sel_output = name, sel_expr = name, sel_cast = []\<rparr>"

definition header_col :: "string \<Rightarrow> sel_col" where
  "header_col name = \<lparr>sel_output = name, sel_expr = [], sel_cast = []\<rparr>"

text \<open>The end of the list: the first \<open>from\<close> outside parentheses.\<close>

function cat_list_end :: "string \<Rightarrow> nat \<Rightarrow> int \<Rightarrow> nat" where
  "cat_list_end red i depth =
     (if length red \<le> i then length red
      else if red ! i = CHR ''('' then cat_list_end red (i + 1) (depth + 1)
      else if red ! i = CHR '')'' then cat_list_end red (i + 1) (depth - 1)
      else if red ! i = CHR ''f'' \<and> depth = 0 \<and> cat_token_at red i ''from'' then i
      else cat_list_end red (i + 1) depth)"
  by pat_completeness auto
termination
  by (relation "measure (\<lambda>(red, i, depth). length red - i)") auto

declare cat_list_end.simps [simp del]

definition cat_select_list :: "string \<Rightarrow> string option" where
  "cat_select_list sql =
     (let red = to_lower (redact Postgres sql) in
      case rx_span select_start_re red of
        None \<Rightarrow> None
      | Some (a, b) \<Rightarrow> Some (substr sql b (cat_list_end red b 0)))"

text \<open>The last top-level \<open>AS\<close> of an item: where the blank before it stands.\<close>

function alias_at :: "string \<Rightarrow> nat \<Rightarrow> int \<Rightarrow> nat option \<Rightarrow> nat option" where
  "alias_at red i depth at =
     (if length red \<le> i + 3 then at
      else if red ! i = CHR ''('' then alias_at red (i + 1) (depth + 1) at
      else if red ! i = CHR '')'' then alias_at red (i + 1) (depth - 1) at
      else if blank4 (red ! i) \<and> depth = 0 \<and> substr red (i + 1) (i + 3) = ''as'' \<and> blank4 (red ! (i + 3))
      then alias_at red (i + 1) depth (Some i)
      else alias_at red (i + 1) depth at)"
  by pat_completeness auto
termination
  by (relation "measure (\<lambda>(red, i, depth, at). length red - i)") auto

declare alias_at.simps [simp del]

definition cat_split_alias :: "string \<Rightarrow> string \<times> string" where
  "cat_split_alias item =
     (let red = to_lower (redact Postgres item) in
      case alias_at red 0 0 None of
        Some k \<Rightarrow> (trim_space (take k item), trim_byte (CHR 0x22) (trim_space (drop (k + 3) item)))
      | None \<Rightarrow>
          (case text_fields red of
             [f, g] \<Rightarrow>
               (case last_index_of red g of
                  None \<Rightarrow> (item, [])
                | Some k \<Rightarrow> if rx_matches bare_ident_re (drop k item) then (trim_space (take k item), drop k item)
                            else (item, []))
           | _ \<Rightarrow> (item, [])))"

text \<open>An expression with its trailing casts taken off.\<close>

definition expr_col :: "string \<Rightarrow> sel_col" where
  "expr_col text0 =
     (let expr = trim_space text0 in
      case rx_span cast_suffix_re expr of
        None \<Rightarrow> \<lparr>sel_output = [], sel_expr = expr, sel_cast = []\<rparr>
      | Some (a, b) \<Rightarrow> \<lparr>sel_output = [], sel_expr = trim_space (take a expr), sel_cast = to_lower (drop a expr)\<rparr>)"

text \<open>
  \<open>parseSelCol\<close> and \<open>requestedColumns\<close>, over the function that names an unaliased expression, which
  itself asks for the columns of a scalar subquery.
\<close>

definition parse_sel_col_with :: "(string \<Rightarrow> string) \<Rightarrow> string \<Rightarrow> sel_col option" where
  "parse_sel_col_with name_of item0 =
     (let item = trim_space item0 in
      if item = [] then None
      else
        let (expr, al) = cat_split_alias item;
            c = expr_col expr;
            output = (if al = [] then name_of (sel_expr c) else al) in
        if output = [] then None else Some (c\<lparr>sel_output := output\<rparr>))"

definition requested_columns_with :: "(string \<Rightarrow> string) \<Rightarrow> string \<Rightarrow> sel_col list \<Rightarrow> sel_col list" where
  "requested_columns_with name_of sql defaults =
     (case cat_select_list sql of
        None \<Rightarrow> defaults
      | Some list0 \<Rightarrow>
          let list = trim_space list0 in
          if list = [] \<or> CHR ''*'' \<in> set list then defaults
          else
            let cols = List.map_filter (parse_sel_col_with name_of) (split_top_level_commas Postgres list) in
            if cols = [] then defaults else cols)"

definition expr_name_with :: "(string \<Rightarrow> string) \<Rightarrow> string \<Rightarrow> string" where
  "expr_name_with name_of expr =
     (if rx_matches ident_re expr then unqualify expr
      else if has_prefix expr ''('' then
        (case requested_columns_with name_of (cut_suffix '')'' (cut_prefix ''('' expr)) [] of
           c # cs \<Rightarrow> sel_output c
         | [] \<Rightarrow> ''?column?'')
      else if cat_token_at (to_lower expr) 0 ''case'' then ''case''
      else case rx_group_of func_call_re 1 expr of Some f \<Rightarrow> f | None \<Rightarrow> ''?column?'')"

subsection \<open>Pieces are no longer than the text\<close>

lemma length_trim_space: "length (trim_space s) \<le> length s"
  unfolding trim_space_def using length_trim_left length_trim_right le_trans by blast

lemma length_expr_col: "length (sel_expr (expr_col s)) \<le> length s"
  using length_trim_space [of s] length_trim_space [of "take (fst (the (rx_span cast_suffix_re (trim_space s)))) (trim_space s)"]
  by (auto simp: expr_col_def Let_def split: option.splits)

lemma length_split_alias: "length (fst (cat_split_alias item)) \<le> length item"
  using length_trim_space [of "take k item" for k]
  by (auto simp: cat_split_alias_def Let_def split: option.splits list.splits intro: le_trans)

lemma length_substr_le: "length (substr s a b) \<le> length s"
  by simp

lemma split_commas_from_length: "piece \<in> set (split_commas_from s m depth start i) \<Longrightarrow> length piece \<le> length s"
proof (induction s m depth start i rule: split_commas_from.induct)
  case (1 s m depth start i)
  then show ?case
    by (subst (asm) split_commas_from.simps) (auto split: if_splits)
qed

lemma split_commas_length: "piece \<in> set (split_top_level_commas d s) \<Longrightarrow> length piece \<le> length s"
  unfolding split_top_level_commas_def by (rule split_commas_from_length)

lemma rx_span_bounds: "rx_span r s = Some (a, b) \<Longrightarrow> rx_between r s a b \<and> a \<le> b \<and> b \<le> length s"
  using rx_search_Some [of r s 0 a b] by (auto simp: rx_span_def)

lemma rx_lit_between: "rx_between (rx_lit t) s i j \<Longrightarrow> j = i + length t"
  by (induction t arbitrary: i) (fastforce simp: rx_lit_def)+

lemma rx_spaces_between: "rx_between rx_spaces s i j \<Longrightarrow> i \<le> length s \<Longrightarrow> i \<le> j"
  using rx_between_bounds by blast

lemma select_start_between:
  assumes "rx_between select_start_re s a b"
  shows "6 \<le> b"
proof -
  from assms obtain k m where k: "rx_between (rx_lit ''select'') s k m" and m: "rx_between
      (rx_cat [rx_spaces1, rx_opt (rx_cat [rx_one_of [rx_lit ''distinct'', rx_lit ''all''], rx_spaces1])]) s m b"
    by (auto simp: select_start_re_def rx_cat_def)
  have "m = k + 6" using rx_lit_between [OF k] by simp
  moreover have "k + 6 \<le> length s"
    using k by (auto simp: rx_lit_def)
  ultimately show ?thesis using rx_between_bounds [OF m] by simp
qed

lemma length_select_list: "cat_select_list sql = Some l \<Longrightarrow> length l < length sql"
proof -
  assume l: "cat_select_list sql = Some l"
  let ?red = "to_lower (redact Postgres sql)"
  from l obtain a b where ab: "rx_span select_start_re ?red = Some (a, b)" "l = substr sql b (cat_list_end ?red b 0)"
    by (auto simp: cat_select_list_def Let_def split: option.splits)
  from rx_span_bounds [OF ab(1)] select_start_between have "6 \<le> b" "b \<le> length sql"
    by (auto simp: redact_def)
  then show ?thesis by (simp add: ab(2))
qed

subsection \<open>Names\<close>

lemma parse_sel_col_cong:
  assumes "\<And>e. length e \<le> length item \<Longrightarrow> f e = g e"
  shows "parse_sel_col_with f item = parse_sel_col_with g item"
proof -
  have "length (sel_expr (expr_col (fst (cat_split_alias (trim_space item))))) \<le> length item"
    by (rule le_trans [OF length_expr_col le_trans [OF length_split_alias length_trim_space]])
  with assms show ?thesis by (simp add: parse_sel_col_with_def Let_def case_prod_beta)
qed

lemma requested_columns_cong:
  assumes "\<And>e. length e < length sql \<Longrightarrow> f e = g e"
  shows "requested_columns_with f sql defaults = requested_columns_with g sql defaults"
proof (cases "cat_select_list sql")
  case (Some l)
  have "parse_sel_col_with f item = parse_sel_col_with g item"
    if "item \<in> set (split_top_level_commas Postgres (trim_space l))" for item
  proof (rule parse_sel_col_cong)
    fix e :: string assume "length e \<le> length item"
    also have "\<dots> \<le> length (trim_space l)" by (rule split_commas_length [OF that])
    also have "\<dots> \<le> length l" by (rule length_trim_space)
    also have "\<dots> < length sql" by (rule length_select_list [OF Some])
    finally show "f e = g e" by (rule assms)
  qed
  then have "List.map_filter (parse_sel_col_with f) (split_top_level_commas Postgres (trim_space l)) =
      List.map_filter (parse_sel_col_with g) (split_top_level_commas Postgres (trim_space l))"
    by (simp add: List.map_filter_def cong: filter_cong map_cong)
  then show ?thesis by (simp add: requested_columns_with_def Some Let_def)
qed (simp add: requested_columns_with_def)

lemma expr_name_cong [fundef_cong]:
  assumes "expr = expr'" and "\<And>e. length e < length expr' \<Longrightarrow> f e = g e"
  shows "expr_name_with f expr = expr_name_with g expr'"
proof -
  have "requested_columns_with f (cut_suffix '')'' (cut_prefix ''('' expr)) [] = requested_columns_with g (cut_suffix '')'' (cut_prefix ''('' expr)) []"
    using assms by (intro requested_columns_cong) (auto simp: cut_suffix_def cut_prefix_def split: if_splits)
  then show ?thesis by (simp add: expr_name_with_def assms(1))
qed

function expr_name :: "string \<Rightarrow> string" where
  "expr_name expr = expr_name_with expr_name expr"
  by pat_completeness auto
termination
  by (relation "measure length") auto

declare expr_name.simps [simp del]

definition requested_columns :: "string \<Rightarrow> sel_col list \<Rightarrow> sel_col list" where
  "requested_columns = requested_columns_with expr_name"

definition parse_sel_col :: "string \<Rightarrow> sel_col option" where
  "parse_sel_col = parse_sel_col_with expr_name"

definition output_names :: "sel_col list \<Rightarrow> string list" where
  "output_names cols = map sel_output cols"

section \<open>Values\<close>

text \<open>A value of a catalog row; \<open>None\<close> is null, also for what the proxy cannot know.\<close>

datatype cat_value = Cat_text string | Cat_number int

fun cat_print :: "cat_value \<Rightarrow> string" where
  "cat_print (Cat_text s) = s"
| "cat_print (Cat_number n) = int_to_string n"

type_synonym cat_lookup = "string \<Rightarrow> cat_value option"

definition same_value :: "cat_value option \<Rightarrow> cat_value option \<Rightarrow> bool" where
  "same_value a b \<longleftrightarrow> (case (a, b) of (Some x, Some y) \<Rightarrow> cat_print x = cat_print y | _ \<Rightarrow> False)"

subsection \<open>\<open>CASE\<close>\<close>

definition case_keywords :: "string list" where
  "case_keywords = [''case'', ''when'', ''then'', ''else'', ''end'']"

text \<open>The keywords at depth zero: each with its start and its end.\<close>

function case_spans :: "string \<Rightarrow> nat \<Rightarrow> int \<Rightarrow> (string \<times> nat \<times> nat) list" where
  "case_spans red i depth =
     (if length red \<le> i then []
      else if red ! i = CHR ''('' then case_spans red (i + 1) (depth + 1)
      else if red ! i = CHR '')'' then case_spans red (i + 1) (depth - 1)
      else if depth \<noteq> 0 then case_spans red (i + 1) depth
      else case find (cat_token_at red i) case_keywords of
        None \<Rightarrow> case_spans red (i + 1) depth
      | Some kw \<Rightarrow> (kw, i, i + length kw) # case_spans red (i + max 1 (length kw)) depth)"
  by pat_completeness auto
termination
  by (relation "measure (\<lambda>(red, i, depth). length red - i)") auto

declare case_spans.simps [simp del]

text \<open>
  What the loop over the keywords meets, in order: a condition with its result, the result of an
  \<open>ELSE\<close>, or a \<open>WHEN\<close> that ends the evaluation because nothing fits after it.
\<close>

datatype case_arm = When_then string string | Otherwise string | Broken_when

fun case_arms :: "string \<Rightarrow> (string \<times> nat \<times> nat) list \<Rightarrow> case_arm list" where
  "case_arms expr ((kw, a, b) # (kw', a', b') # rest) =
     (if kw = ''when'' then
        (if kw' \<noteq> ''then'' \<or> rest = [] then [Broken_when]
         else When_then (substr expr b a') (substr expr b' (fst (snd (hd rest)))) # case_arms expr rest)
      else if kw = ''else'' then [Otherwise (substr expr b a')]
      else case_arms expr ((kw', a', b') # rest))"
| "case_arms expr spans = []"

text \<open>The operand, empty for a searched \<open>CASE\<close>, and the arms.\<close>

definition case_parts :: "string \<Rightarrow> (string \<times> case_arm list) option" where
  "case_parts expr =
     (let spans = case_spans (to_lower (redact Postgres expr)) 0 0 in
      if length spans < 4 \<or> fst (hd spans) \<noteq> ''case'' \<or> fst (last spans) \<noteq> ''end'' then None
      else Some (trim_space (substr expr (snd (snd (hd spans))) (fst (snd (spans ! 1)))), case_arms expr (tl spans)))"

definition cond_re :: rx where
  "cond_re =
     rx_cat [Rx_start, rx_spaces, Rx_group 1 (Rx_seq rx_any (Rx_few rx_any)), rx_spaces,
       Rx_group 2 (rx_one_of [rx_lit ''='', rx_lit ''<>'', rx_lit ''!='',
         rx_cat [Rx_edge, rx_fold ''not'', rx_spaces1, rx_fold ''in'', Rx_edge],
         rx_cat [Rx_edge, rx_fold ''in'', Rx_edge]]),
       rx_spaces, Rx_group 3 (Rx_seq rx_any (Rx_few rx_any)), rx_spaces, Rx_stop]"

text \<open>A condition: its left side, its operator and its right side, as spans of the redacted text.\<close>

definition cond_parts :: "string \<Rightarrow> (string \<times> string \<times> string) option" where
  "cond_parts cond =
     (case rx_search cond_re (redact Postgres cond) 0 of
        None \<Rightarrow> None
      | Some (a, b, caps) \<Rightarrow>
          Some (group_text cond caps 1, join_with '' '' (text_fields (to_lower (group_text cond caps 2))),
                trim_space (group_text cond caps 3)))"

definition eval_cond_with :: "(sel_col \<Rightarrow> cat_value option) \<Rightarrow> string \<Rightarrow> bool" where
  "eval_cond_with ev cond =
     (case cond_parts cond of
        None \<Rightarrow> False
      | Some (lhs, op, rhs) \<Rightarrow>
          let left = ev (expr_col lhs) in
          if left = None then False
          else if op = ''='' \<or> op = ''<>'' \<or> op = ''!='' then
            let r = ev (expr_col rhs) in r \<noteq> None \<and> (op = ''='') = same_value left r
          else
            let items = split_top_level_commas Postgres (cut_suffix '')'' (cut_prefix ''('' rhs)) in
            list_ex (\<lambda>item. same_value left (ev (expr_col item))) items = (op = ''in''))"

fun eval_arms_with ::
  "(sel_col \<Rightarrow> cat_value option) \<Rightarrow> string \<Rightarrow> cat_value option \<Rightarrow> case_arm list \<Rightarrow> cat_value option" where
  "eval_arms_with ev operand opv [] = None"
| "eval_arms_with ev operand opv (Broken_when # arms) = None"
| "eval_arms_with ev operand opv (Otherwise r # arms) = ev (expr_col r)"
| "eval_arms_with ev operand opv (When_then c r # arms) =
     (if (if operand \<noteq> [] then same_value opv (ev (expr_col c)) else eval_cond_with ev c)
      then ev (expr_col r) else eval_arms_with ev operand opv arms)"

definition eval_case_with :: "(sel_col \<Rightarrow> cat_value option) \<Rightarrow> string \<Rightarrow> cat_value option" where
  "eval_case_with ev expr =
     (case case_parts expr of
        None \<Rightarrow> None
      | Some (operand, arms) \<Rightarrow>
          let opv = (if operand \<noteq> [] then ev (expr_col operand) else None) in
          eval_arms_with ev operand opv arms)"

text \<open>\<open>strings.ReplaceAll\<close> of a doubled quote by one.\<close>

fun single_quotes :: "string \<Rightarrow> string" where
  "single_quotes (a # b # s) =
     (if a = CHR 0x27 \<and> b = CHR 0x27 then CHR 0x27 # single_quotes s else a # single_quotes (b # s))"
| "single_quotes s = s"

definition eval_expr_with :: "cat_lookup \<Rightarrow> (sel_col \<Rightarrow> cat_value option) \<Rightarrow> sel_col \<Rightarrow> cat_value option" where
  "eval_expr_with get ev c =
     (let expr = trim_space (sel_expr c); lower = to_lower expr in
      if expr = [] then None
      else if lower = ''true'' then Some (Cat_text ''t'')
      else if lower = ''false'' then Some (Cat_text ''f'')
      else if lower = ''null'' then None
      else if rx_matches ident_re expr then
        get (if contains_str (sel_cast c) ''regclass'' then ''regclass'' else to_lower (unqualify expr))
      else if rx_matches number_re expr then Some (Cat_text expr)
      else if has_prefix expr [CHR 0x27] then
        (case rx_group_of literal_re 1 expr of
           Some m \<Rightarrow> Some (Cat_text (single_quotes m)) | None \<Rightarrow> None)
      else if cat_token_at lower 0 ''case'' then eval_case_with ev expr
      else case rx_group_of func_call_re 1 expr of
        Some f \<Rightarrow> get (''fn:'' @ to_lower f) | None \<Rightarrow> None)"

subsection \<open>Recursion on shorter expressions\<close>

lemma case_spans_end: "(kw, a, b) \<in> set (case_spans red i depth) \<Longrightarrow> i < b"
proof (induction red i depth rule: case_spans.induct)
  case (1 red i depth)
  have step: "i + 1 < b \<Longrightarrow> i < b" by simp
  consider "length red \<le> i" | "i < length red" "red ! i = CHR ''(''" | "i < length red" "red ! i = CHR '')''"
    | "i < length red" "red ! i \<noteq> CHR ''(''" "red ! i \<noteq> CHR '')''" "depth \<noteq> 0"
    | "i < length red" "red ! i \<noteq> CHR ''(''" "red ! i \<noteq> CHR '')''" "depth = 0" by linarith
  then show ?case
  proof cases
    case 1
    with "1.prems" show ?thesis by (simp add: case_spans.simps [of red i])
  next
    case 2
    with "1.prems" have "(kw, a, b) \<in> set (case_spans red (i + 1) (depth + 1))"
      by (simp add: case_spans.simps [of red i])
    with "1.IH"(1) 2 show ?thesis by (intro step) simp
  next
    case 3
    with "1.prems" have "(kw, a, b) \<in> set (case_spans red (i + 1) (depth - 1))"
      by (simp add: case_spans.simps [of red i])
    with "1.IH"(2) 3 show ?thesis by (intro step) simp
  next
    case 4
    with "1.prems" have "(kw, a, b) \<in> set (case_spans red (i + 1) depth)"
      by (simp add: case_spans.simps [of red i])
    with "1.IH"(3) 4 show ?thesis by (intro step) simp
  next
    case 5
    show ?thesis
    proof (cases "find (cat_token_at red i) case_keywords")
      case None
      with 5 "1.prems" have "(kw, a, b) \<in> set (case_spans red (i + 1) depth)"
        by (simp add: case_spans.simps [of red i])
      with "1.IH"(4) 5 None show ?thesis by (intro step) simp
    next
      case (Some k)
      then have "k \<in> set case_keywords" by (auto simp: find_Some_iff)
      then have "0 < length k" by (auto simp: case_keywords_def)
      from 5 "1.prems" Some consider "b = i + length k"
        | "(kw, a, b) \<in> set (case_spans red (i + max 1 (length k)) depth)"
        by (auto simp: case_spans.simps [of red i])
      then show ?thesis
      proof cases
        case 2
        with "1.IH"(5) 5 Some have "i + max 1 (length k) < b" by simp
        then show ?thesis by simp
      qed (use \<open>0 < length k\<close> in simp)
    qed
  qed
qed

primrec arm_texts :: "case_arm \<Rightarrow> string set" where
  "arm_texts (When_then c r) = {c, r}"
| "arm_texts (Otherwise r) = {r}"
| "arm_texts Broken_when = {}"

lemma case_arms_texts:
  "arm \<in> set (case_arms expr spans) \<Longrightarrow> t \<in> arm_texts arm \<Longrightarrow>
   \<exists>(kw, a, b) \<in> set spans. \<exists>x. t = substr expr b x"
  by (induction expr spans rule: case_arms.induct) (auto split: if_splits)

lemma substr_shorter: "expr \<noteq> [] \<Longrightarrow> 0 < b \<Longrightarrow> length (substr expr b x) < length expr"
  by (simp add: substr_def) (auto simp: min_def)

lemma case_parts_shorter:
  assumes "case_parts expr = Some (operand, arms)"
  shows "length operand < length expr" and "arm \<in> set arms \<Longrightarrow> t \<in> arm_texts arm \<Longrightarrow> length t < length expr"
proof -
  let ?spans = "case_spans (to_lower (redact Postgres expr)) 0 0"
  from assms have n: "4 \<le> length ?spans"
    and op: "operand = trim_space (substr expr (snd (snd (hd ?spans))) (fst (snd (?spans ! 1))))"
    and arms: "arms = case_arms expr (tl ?spans)"
    by (auto simp: case_parts_def Let_def split: if_splits)
  have "expr \<noteq> []" using n by (auto simp: redact_def case_spans.simps [of "[]"])
  have hd: "hd ?spans \<in> set ?spans" using n by (intro hd_in_set) auto
  have pos: "sp \<in> set ?spans \<Longrightarrow> 0 < snd (snd sp)" for sp
    using case_spans_end [of "fst sp" "fst (snd sp)" "snd (snd sp)"] by simp
  show "length operand < length expr"
    unfolding op by (rule le_less_trans [OF length_trim_space substr_shorter [OF \<open>expr \<noteq> []\<close> pos [OF hd]]])
  assume "arm \<in> set arms" "t \<in> arm_texts arm"
  from case_arms_texts [OF this(1) [unfolded arms] this(2)] obtain sp x
    where "sp \<in> set (tl ?spans)" and t: "t = substr expr (snd (snd sp)) x" by fastforce
  then have "sp \<in> set ?spans" using n by (cases ?spans) auto
  from substr_shorter [OF \<open>expr \<noteq> []\<close> pos [OF this]] show "length t < length expr" by (simp add: t)
qed

lemma cond_parts_length:
  assumes "cond_parts cond = Some (lhs, op, rhs)"
  shows "length lhs \<le> length cond \<and> length rhs \<le> length cond"
proof -
  have g: "length (group_text cond caps k) \<le> length cond" for caps k
    by (simp add: group_text_def min.coboundedI2 split: option.split prod.split)
  then show ?thesis using assms le_trans [OF length_trim_space g]
    by (auto simp: cond_parts_def split: option.splits)
qed

lemma eval_cond_cong:
  assumes "\<And>c. length (sel_expr c) \<le> length cond \<Longrightarrow> ev c = ev' c"
  shows "eval_cond_with ev cond = eval_cond_with ev' cond"
proof (cases "cond_parts cond")
  case (Some p)
  obtain lhs op rhs where p: "p = (lhs, op, rhs)" by (cases p)
  have ev: "length t \<le> length cond \<Longrightarrow> ev (expr_col t) = ev' (expr_col t)" for t
    by (rule assms) (rule le_trans [OF length_expr_col])
  have l: "length lhs \<le> length cond" "length rhs \<le> length cond"
    using cond_parts_length Some p by auto
  have items: "ev (expr_col item) = ev' (expr_col item)"
    if "item \<in> set (split_top_level_commas Postgres (cut_suffix '')'' (cut_prefix ''('' rhs)))" for item
  proof (rule ev)
    have "length item \<le> length (cut_suffix '')'' (cut_prefix ''('' rhs))" by (rule split_commas_length [OF that])
    also have "\<dots> \<le> length rhs" by (auto simp: cut_suffix_def cut_prefix_def)
    finally show "length item \<le> length cond" using l(2) by simp
  qed
  show ?thesis
    by (simp add: eval_cond_with_def Some p ev l items Let_def list_ex_iff)
qed (simp add: eval_cond_with_def)

lemma eval_arms_cong:
  assumes "\<And>c. length (sel_expr c) < n \<Longrightarrow> ev c = ev' c"
    and "\<And>arm t. arm \<in> set arms \<Longrightarrow> t \<in> arm_texts arm \<Longrightarrow> length t < n"
  shows "eval_arms_with ev operand opv arms = eval_arms_with ev' operand opv arms"
  using assms(2)
proof (induction arms)
  case (Cons arm arms)
  have ev: "length t < n \<Longrightarrow> ev (expr_col t) = ev' (expr_col t)" for t
    by (rule assms(1)) (rule le_less_trans [OF length_expr_col])
  have t: "t \<in> arm_texts arm \<Longrightarrow> length t < n" for t by (rule Cons.prems) auto
  have ih: "eval_arms_with ev operand opv arms = eval_arms_with ev' operand opv arms"
    by (rule Cons.IH) (rule Cons.prems, auto)
  show ?case
  proof (cases arm)
    case (When_then c r)
    have "eval_cond_with ev c = eval_cond_with ev' c"
      by (rule eval_cond_cong) (use When_then t assms(1) in \<open>simp add: le_less_trans\<close>)
    with When_then t ih show ?thesis by (cases "operand = []") (simp_all add: ev)
  qed (use t in \<open>simp_all add: ev\<close>)
qed simp

lemma eval_case_cong:
  assumes "\<And>c. length (sel_expr c) < length expr \<Longrightarrow> ev c = ev' c"
  shows "eval_case_with ev expr = eval_case_with ev' expr"
proof (cases "case_parts expr")
  case (Some p)
  obtain operand arms where p: "p = (operand, arms)" by (cases p)
  note shorter = case_parts_shorter [OF Some [unfolded p]]
  have "ev (expr_col operand) = ev' (expr_col operand)"
    by (rule assms) (rule le_less_trans [OF length_expr_col shorter(1)])
  with eval_arms_cong [OF assms shorter(2)] show ?thesis
    by (simp add: eval_case_with_def Some p)
qed (simp add: eval_case_with_def)

lemma eval_expr_cong [fundef_cong]:
  assumes "get = get'" and "c = c'"
    and "\<And>d. length (sel_expr d) < length (sel_expr c') \<Longrightarrow> ev d = ev' d"
  shows "eval_expr_with get ev c = eval_expr_with get' ev' c'"
proof -
  have "eval_case_with ev (trim_space (sel_expr c')) = eval_case_with ev' (trim_space (sel_expr c'))"
    by (rule eval_case_cong) (rule assms(3), erule less_le_trans [OF _ length_trim_space])
  then show ?thesis by (simp add: eval_expr_with_def Let_def assms(1,2))
qed

function eval_expr :: "cat_lookup \<Rightarrow> sel_col \<Rightarrow> cat_value option" where
  "eval_expr get c = eval_expr_with get (eval_expr get) c"
  by pat_completeness auto
termination
  by (relation "measure (\<lambda>(get, c). length (sel_expr c))") auto

declare eval_expr.simps [simp del]

definition eval_case :: "cat_lookup \<Rightarrow> string \<Rightarrow> cat_value option" where
  "eval_case get = eval_case_with (eval_expr get)"

definition eval_cond :: "cat_lookup \<Rightarrow> string \<Rightarrow> bool" where
  "eval_cond get = eval_cond_with (eval_expr get)"

definition row_for :: "sel_col list \<Rightarrow> cat_lookup \<Rightarrow> cat_value option list" where
  "row_for cols get = map (eval_expr get) cols"

end
