(* ===== verification/Pg_Catalog.thy ===== *)
theory Pg_Catalog
  imports Pg_Select
begin

text \<open>
  \<open>internal/pgwire/catalog.go\<close>, the answers to introspection queries: what a row of \<open>pg_class\<close> or
  \<open>pg_attribute\<close> holds for a cached table, the part of a \<open>WHERE\<close> clause that selects tables, and the
  handlers. Predicates are found in the redacted text and their literals read from the original at the
  same offsets. A pattern that the client supplies is compiled by the argument \<open>compile\<close>, which stands
  for \<open>regexp.Compile\<close> with the matching of what it compiled; \<open>None\<close> is its error.
\<close>

text \<open>What \<open>regexp.Compile\<close> makes of a pattern: nothing, or the strings in which it is found.\<close>

type_synonym regexp_compile = "string \<Rightarrow> (string \<Rightarrow> bool) option"

section \<open>Rows of the catalog\<close>

definition first_table_oid :: int where "first_table_oid = 16384"

definition table_oid :: "nat \<Rightarrow> int" where "table_oid i = first_table_oid + int i"

definition pg_class_lookup :: "nat \<Rightarrow> schema_table \<Rightarrow> cat_lookup" where
  "pg_class_lookup i t key =
     (if key \<in> {''oid'', ''relfilenode''} then Some (Cat_number (table_oid i))
      else if key \<in> {''relname'', ''regclass'', ''table_name'', ''tablename''} then Some (Cat_text (st_name t))
      else if key \<in> {''nspname'', ''table_schema'', ''schemaname''} then Some (Cat_text ''public'')
      else if key = ''table_catalog'' then Some (Cat_text ''redash'')
      else if key = ''table_type'' then Some (Cat_text ''BASE TABLE'')
      else if key = ''relkind'' then Some (Cat_text ''r'')
      else if key = ''relnamespace'' then Some (Cat_number 2200)
      else if key = ''relowner'' then Some (Cat_number 10)
      else if key \<in> {''fn:pg_get_userbyid'', ''tableowner''} then Some (Cat_text ''redash'')
      else if key = ''relam'' then Some (Cat_number 2)
      else if key = ''amname'' then Some (Cat_text ''heap'')
      else if key = ''relnatts'' then Some (Cat_number (int (length (st_columns t))))
      else if key = ''reltuples'' then Some (Cat_number (-1))
      else if key \<in> {''relpages'', ''relchecks'', ''reltablespace'', ''reltoastrelid'', ''reloftype''}
      then Some (Cat_number 0)
      else if key = ''relpersistence'' then Some (Cat_text ''p'')
      else if key = ''relreplident'' then Some (Cat_text ''d'')
      else if key \<in> {''relispopulated'', ''fn:pg_table_is_visible''} then Some (Cat_text ''t'')
      else if key \<in> {''relhasindex'', ''relhasrules'', ''relhastriggers'', ''relrowsecurity'',
        ''relforcerowsecurity'', ''relhasoids'', ''relispartition'', ''relisshared'', ''relhassubclass''}
      then Some (Cat_text ''f'')
      else None)"

definition pg_attribute_lookup :: "nat \<Rightarrow> schema_table \<Rightarrow> nat \<Rightarrow> string \<Rightarrow> cat_lookup" where
  "pg_attribute_lookup i t ordinal name key =
     (if key \<in> {''attname'', ''column_name''} then Some (Cat_text name)
      else if key \<in> {''attnum'', ''ordinal_position''} then Some (Cat_number (int ordinal))
      else if key = ''attrelid'' then Some (Cat_number (table_oid i))
      else if key = ''atttypid'' then Some (Cat_number (uint oid_text))
      else if key \<in> {''fn:format_type'', ''typname'', ''data_type'', ''udt_name'', ''type_name'', ''column_type''}
      then Some (Cat_text ''text'')
      else if key \<in> {''atttypmod'', ''attlen''} then Some (Cat_number (-1))
      else if key \<in> {''attndims'', ''attinhcount''} then Some (Cat_number 0)
      else if key = ''attcollation'' then Some (Cat_number 100)
      else if key = ''attstorage'' then Some (Cat_text ''x'')
      else if key = ''attalign'' then Some (Cat_text ''i'')
      else if key \<in> {''attidentity'', ''attgenerated'', ''attcompression''} then Some (Cat_text [])
      else if key \<in> {''attnotnull'', ''atthasdef'', ''attisdropped'', ''attbyval''} then Some (Cat_text ''f'')
      else if key = ''attislocal'' then Some (Cat_text ''t'')
      else if key = ''is_nullable'' then Some (Cat_text ''YES'')
      else pg_class_lookup i t key)"

section \<open>The relations a query names\<close>

record relation_filter =
  rf_names :: "string list"
  rf_patterns :: "(string \<Rightarrow> bool) list"
  rf_oids :: "int list"
  rf_none :: bool

definition rx_word :: "string list \<Rightarrow> rx" where
  "rx_word ws = Rx_seq Rx_edge (rx_one_of (map rx_lit ws))"

definition name_eq_re :: rx where
  "name_eq_re = rx_cat [rx_word [''relname'', ''table_name'', ''tablename''], rx_spaces, rx_lit ''='']"

definition oid_eq_re :: rx where
  "oid_eq_re = rx_cat [rx_word [''oid'', ''attrelid''], rx_spaces, rx_lit ''='']"

definition rx_tilde :: rx where
  "rx_tilde = Rx_seq (rx_lit ''~'') (rx_opt (rx_lit ''*''))"

definition rx_operator :: rx where
  "rx_operator =
     rx_cat [rx_lit ''operator'', rx_spaces, rx_lit ''('', rx_spaces, rx_lit ''pg_catalog'', rx_spaces, rx_lit ''.'',
       rx_spaces, rx_tilde, rx_spaces, rx_lit '')'']"

definition name_pattern_re :: rx where
  "name_pattern_re =
     rx_cat [rx_word [''relname''], rx_spaces, Rx_group 1 (rx_one_of [rx_tilde, rx_operator])]"

definition schema_re :: rx where
  "schema_re =
     rx_cat [rx_word [''nspname'', ''table_schema'', ''schemaname''], rx_spaces,
       Rx_group 1 (rx_one_of [rx_lit ''='', rx_tilde, rx_operator])]"

definition empty_join_re :: rx where
  "empty_join_re =
     rx_cat [Rx_group 1 (rx_one_of [rx_lit '','', rx_word [''join''], rx_word [''from'']]), rx_spaces1,
       rx_opt (rx_lit ''pg_catalog.''),
       rx_one_of (map rx_lit [''pg_inherits'', ''pg_index'', ''pg_constraint'', ''pg_trigger'', ''pg_rewrite'',
         ''pg_policy'', ''pg_depend'', ''pg_partitioned_table'']), Rx_edge]"

definition leading_int_re :: rx where
  "leading_int_re = rx_cat [Rx_start, rx_spaces, Rx_group 1 (rx_some (Rx_byte is_digit)), Rx_edge]"

definition rx_quoted :: rx where
  "rx_quoted = rx_cat [rx_lit [CHR 0x27], Rx_group 1 (Rx_many (Rx_byte (\<lambda>c. c \<noteq> CHR 0x27))), rx_lit [CHR 0x27]]"

definition leading_quoted_re :: rx where
  "leading_quoted_re = rx_cat [Rx_start, rx_spaces, rx_quoted]"

text \<open>The string literal that opens at a position of the original text.\<close>

definition quoted_at :: "string \<Rightarrow> nat \<Rightarrow> string option" where
  "quoted_at sql i = rx_group_of leading_quoted_re 1 (drop i sql)"

text \<open>
  \<open>strconv.Atoi\<close>: its value and whether it failed. Out of range it fails with the nearest value, and
  with zero on anything else that is no number.
\<close>

definition cat_atoi :: "string \<Rightarrow> int \<times> bool" where
  "cat_atoi s =
     (let digits = (if s \<noteq> [] \<and> hd s \<in> {CHR ''+'', CHR ''-''} then tl s else s);
          minus = has_prefix s ''-'' in
      case (if digits = [] then None else digits_value 0 digits) of
        None \<Rightarrow> (0, False)
      | Some n \<Rightarrow>
          if minus then (if n \<le> 2 ^ 63 then (- n, True) else (- (2 ^ 63), False))
          else if n < 2 ^ 63 then (n, True) else (2 ^ 63 - 1, False))"

text \<open>The predicates on oids: a number, a quoted number, or a quoted name; a column is passed over.\<close>

definition oid_pred :: "string \<Rightarrow> nat \<Rightarrow> (int + string) option" where
  "oid_pred sql at =
     (case rx_group_of leading_int_re 1 (drop at sql) of
        Some m \<Rightarrow> Some (Inl (fst (cat_atoi m)))
      | None \<Rightarrow>
          (case quoted_at sql at of
             None \<Rightarrow> None
           | Some v \<Rightarrow> if snd (cat_atoi v) then Some (Inl (fst (cat_atoi v))) else Some (Inr (unqualify v))))"

text \<open>The ends of the matches of an operator, with the text of its group.\<close>

definition op_matches :: "rx \<Rightarrow> string \<Rightarrow> (nat \<times> string) list" where
  "op_matches r red = map (\<lambda>(a, b, caps). (b, group_text red caps 1)) (rx_find_all r red 0)"

definition is_outer_join :: "string \<Rightarrow> bool" where
  "is_outer_join before =
     (let f = text_fields before in f \<noteq> [] \<and> last f \<in> {''left'', ''full'', ''outer''})"

definition fold_flag :: "string \<Rightarrow> string \<Rightarrow> string" where
  "fold_flag op pat = (if CHR ''*'' \<in> set op then ''(?i)'' @ pat else pat)"

definition name_patterns :: "regexp_compile \<Rightarrow> string \<Rightarrow> string \<Rightarrow> (string \<Rightarrow> bool) list" where
  "name_patterns compile sql red =
     List.map_filter
       (\<lambda>(at, op). case quoted_at sql at of None \<Rightarrow> None | Some pat \<Rightarrow> compile (fold_flag op pat))
       (op_matches name_pattern_re red)"

definition other_schema :: "regexp_compile \<Rightarrow> string \<Rightarrow> string \<Rightarrow> bool" where
  "other_schema compile sql red =
     list_ex
       (\<lambda>(at, op).
          case quoted_at sql at of
            None \<Rightarrow> False
          | Some v \<Rightarrow>
              if op = ''='' then \<not> equal_fold v ''public''
              else (case compile (fold_flag op v) of None \<Rightarrow> False | Some matches \<Rightarrow> \<not> matches ''public''))
       (op_matches schema_re red)"

definition joins_empty :: "string \<Rightarrow> bool" where
  "joins_empty red =
     list_ex
       (\<lambda>(a, b, caps). \<not> (group_text red caps 1 = ''join'' \<and> is_outer_join (take (fst (the (map_of caps 1))) red)))
       (rx_find_all empty_join_re red 0)"

definition parse_relation_filter :: "regexp_compile \<Rightarrow> string \<Rightarrow> relation_filter" where
  "parse_relation_filter compile sql =
     (let red = to_lower (redact Postgres sql);
          named = List.map_filter (\<lambda>(at, op). quoted_at sql at) (op_matches name_eq_re red);
          preds = List.map_filter (\<lambda>(at, op). oid_pred sql at) (op_matches oid_eq_re red) in
      \<lparr>rf_names = named @ List.map_filter (\<lambda>p. case p of Inr n \<Rightarrow> Some n | Inl _ \<Rightarrow> None) preds,
       rf_patterns = name_patterns compile sql red,
       rf_oids = List.map_filter (\<lambda>p. case p of Inl n \<Rightarrow> Some n | Inr _ \<Rightarrow> None) preds,
       rf_none = other_schema compile sql red \<or> joins_empty red\<rparr>)"

definition admits :: "relation_filter \<Rightarrow> nat \<Rightarrow> schema_table \<Rightarrow> bool" where
  "admits f i t =
     (if rf_none f then False
      else if rf_names f \<noteq> [] \<and> \<not> list_ex (\<lambda>n. equal_fold n (st_name t)) (rf_names f) then False
      else if \<not> list_all (\<lambda>m. m (st_name t)) (rf_patterns f) then False
      else if rf_oids f \<noteq> [] \<and> \<not> list_ex (\<lambda>oid. oid = table_oid i) (rf_oids f) then False
      else True)"

definition admitted_tables ::
  "regexp_compile \<Rightarrow> string \<Rightarrow> schema_table list \<Rightarrow> bool \<Rightarrow> nat list" where
  "admitted_tables compile sql schema kind_ok =
     (if \<not> kind_ok then []
      else let f = parse_relation_filter compile sql in
        filter (\<lambda>i. admits f i (schema ! i)) [0..<length schema])"

section \<open>The kinds of relation a query asks for\<close>

record kind_predicate =
  kp_negated :: bool
  kp_values :: "string list"

definition kind_pred_re :: "string \<Rightarrow> rx" where
  "kind_pred_re col =
     rx_cat [Rx_edge, rx_lit col, Rx_edge, rx_spaces,
       Rx_group 1 (rx_one_of
         [rx_cat [rx_lit ''='', rx_spaces, rx_lit ''any'', rx_spaces, rx_lit ''(''],
          rx_cat [rx_lit ''not'', rx_spaces1, rx_lit ''in'', rx_spaces, rx_lit ''(''],
          rx_cat [rx_lit ''in'', rx_spaces, rx_lit ''(''],
          rx_lit ''!='', rx_lit ''<>'', rx_lit ''=''])]"

fun split_byte :: "char \<Rightarrow> string \<Rightarrow> string list" where
  "split_byte b [] = [[]]"
| "split_byte b (c # s) =
     (if c = b then [] # split_byte b s
      else case split_byte b s of p # ps \<Rightarrow> (c # p) # ps | [] \<Rightarrow> [[c]])"

definition expand_array_literal :: "string \<Rightarrow> string list" where
  "expand_array_literal v =
     (if \<not> has_prefix v ''{'' \<or> \<not> has_suffix v ''}'' then [v]
      else
        let brace = (\<lambda>c. c = CHR ''{'' \<or> c = CHR ''}'') in
        map (\<lambda>p. trim_byte (CHR 0x22) (trim_space p)) (split_byte (CHR '','') (trim_right brace (trim_left brace v))))"

definition column_predicates :: "string \<Rightarrow> rx \<Rightarrow> kind_predicate list" where
  "column_predicates sql re =
     (let red = to_lower (redact Postgres sql) in
      List.map_filter
        (\<lambda>(at, op0).
           let op = join_with [] (text_fields op0);
               neg = (op = ''<>'' \<or> op = ''!='' \<or> has_prefix op ''notin'') in
           if has_suffix op ''('' then
             let stop = (case index_byte (drop at red) (CHR '')'') of Some k \<Rightarrow> k | None \<Rightarrow> length red - at);
                 list = substr sql at (at + stop) in
             Some \<lparr>kp_negated = neg,
                   kp_values = concat (map (\<lambda>(b, v). expand_array_literal v) (op_matches rx_quoted list))\<rparr>
           else
             (case quoted_at sql at of
                None \<Rightarrow> None
              | Some v \<Rightarrow> Some \<lparr>kp_negated = neg, kp_values = expand_array_literal v\<rparr>))
        (op_matches re red))"

text \<open>The loop over the predicates, with its two flags.\<close>

fun predicates_admit_from :: "bool \<Rightarrow> bool \<Rightarrow> kind_predicate list \<Rightarrow> string \<Rightarrow> (string \<Rightarrow> string) \<Rightarrow> bool" where
  "predicates_admit_from has_positive found [] target norm = (\<not> has_positive \<or> found)"
| "predicates_admit_from has_positive found (p # ps) target norm =
     (if kp_negated p then
        (if list_ex (\<lambda>v. norm v = target) (kp_values p) then False
         else predicates_admit_from has_positive found ps target norm)
      else predicates_admit_from True (found \<or> list_ex (\<lambda>v. norm v = target) (kp_values p)) ps target norm)"

definition predicates_admit :: "kind_predicate list \<Rightarrow> string \<Rightarrow> (string \<Rightarrow> string) \<Rightarrow> bool" where
  "predicates_admit preds want norm = predicates_admit_from False False preds (norm want) norm"

definition relkind_admits_tables :: "string \<Rightarrow> bool" where
  "relkind_admits_tables sql = predicates_admit (column_predicates sql (kind_pred_re ''relkind'')) ''r'' (\<lambda>s. s)"

definition table_type_admits_base_tables :: "string \<Rightarrow> bool" where
  "table_type_admits_base_tables sql =
     predicates_admit (column_predicates sql (kind_pred_re ''table_type'')) ''BASE TABLE'' to_upper"

section \<open>Handlers\<close>

definition send_result :: "string list \<Rightarrow> cat_value option list list \<Rightarrow> be_msg list" where
  "send_result cols rs =
     RowDescription (map text_field cols) #
     map (\<lambda>r. DataRow (map (map_option cat_print) r)) rs @
     [CommandComplete (''SELECT '' @ nat_to_string (length rs)), ReadyForQuery]"

text \<open>One row per column of every table the query admits.\<close>

definition column_rows ::
  "regexp_compile \<Rightarrow> string \<Rightarrow> schema_table list \<Rightarrow> sel_col list \<Rightarrow> bool \<Rightarrow>
   cat_value option list list" where
  "column_rows compile sql schema cols kind_ok =
     concat (map
       (\<lambda>i. map (\<lambda>(ord, c). row_for cols (pg_attribute_lookup i (schema ! i) (ord + 1) (sc_name c)))
              (List.enumerate 0 (st_columns (schema ! i))))
       (admitted_tables compile sql schema kind_ok))"

definition table_rows ::
  "regexp_compile \<Rightarrow> string \<Rightarrow> schema_table list \<Rightarrow> sel_col list \<Rightarrow> bool \<Rightarrow>
   cat_value option list list" where
  "table_rows compile sql schema cols kind_ok =
     map (\<lambda>i. row_for cols (pg_class_lookup i (schema ! i))) (admitted_tables compile sql schema kind_ok)"

definition handle_pg_info_schema_tables ::
  "regexp_compile \<Rightarrow> string \<Rightarrow> schema_table list \<Rightarrow> be_msg list" where
  "handle_pg_info_schema_tables compile sql schema =
     (let cols = requested_columns sql (map plain_col [''table_schema'', ''table_name'', ''table_type'']) in
      send_result (output_names cols) (table_rows compile sql schema cols (table_type_admits_base_tables sql)))"

definition handle_pg_info_schema_columns ::
  "regexp_compile \<Rightarrow> string \<Rightarrow> schema_table list \<Rightarrow> be_msg list" where
  "handle_pg_info_schema_columns compile sql schema =
     (let cols = requested_columns sql
           (map plain_col [''table_name'', ''column_name'', ''ordinal_position'', ''data_type'', ''is_nullable'']) in
      send_result (output_names cols) (column_rows compile sql schema cols True))"

definition handle_pg_attribute ::
  "regexp_compile \<Rightarrow> string \<Rightarrow> schema_table list \<Rightarrow> be_msg list" where
  "handle_pg_attribute compile sql schema =
     (let cols = requested_columns sql (map plain_col [''attname'', ''attnum'', ''atttypid'']) in
      send_result (output_names cols) (column_rows compile sql schema cols (relkind_admits_tables sql)))"

definition handle_pg_class_query ::
  "regexp_compile \<Rightarrow> string \<Rightarrow> schema_table list \<Rightarrow> be_msg list" where
  "handle_pg_class_query compile sql schema =
     (let cols = requested_columns sql (map plain_col [''oid'', ''table_name'', ''table_schema'']) in
      send_result (output_names cols) (table_rows compile sql schema cols (relkind_admits_tables sql)))"

definition handle_pg_namespace_query :: "be_msg list" where
  "handle_pg_namespace_query =
     [RowDescription [text_field ''nspname''], DataRow [Some ''public''], CommandComplete ''SELECT 1'', ReadyForQuery]"

definition statio_fields :: "field_description list" where
  "statio_fields =
     [text_field ''name'', text_field ''comment'',
      \<lparr>fd_name = ''total_size'', fd_oid = oid_int8, fd_size = 8\<rparr>,
      \<lparr>fd_name = ''data_size'', fd_oid = oid_int8, fd_size = 8\<rparr>,
      \<lparr>fd_name = ''index_size'', fd_oid = oid_int8, fd_size = 8\<rparr>]"

definition handle_pg_statio_query :: "schema_table list \<Rightarrow> be_msg list" where
  "handle_pg_statio_query schema =
     RowDescription statio_fields #
     map (\<lambda>t. DataRow [Some (st_name t), None, None, None, None]) schema @
     [CommandComplete (''SELECT '' @ nat_to_string (length schema)), ReadyForQuery]"

definition handle_catalog_query ::
  "regexp_compile \<Rightarrow> string \<Rightarrow> schema_table list \<Rightarrow> data_source list \<Rightarrow> be_msg list" where
  "handle_catalog_query compile sql schema srcs =
     (let lower = normalize sql in
      if contains_token lower ''pg_database'' then handle_pg_database_query srcs
      else if contains_str lower ''pg_statio_user_tables'' then handle_pg_statio_query schema
      else if contains_token lower ''information_schema.columns'' then handle_pg_info_schema_columns compile sql schema
      else if contains_token lower ''information_schema.tables'' then handle_pg_info_schema_tables compile sql schema
      else if contains_token lower ''pg_attribute'' then handle_pg_attribute compile sql schema
      else if contains_token lower ''pg_class'' then handle_pg_class_query compile sql schema
      else if contains_token lower ''pg_type'' \<or> contains_token lower ''pg_enum'' then
        send_empty_result (output_names (requested_columns sql (map header_col [''oid'', ''typname''])))
      else if contains_token lower ''pg_proc'' then
        send_empty_result (output_names (requested_columns sql (map header_col [''oid'', ''proname''])))
      else if contains_token lower ''pg_namespace'' then handle_pg_namespace_query
      else if \<not> contains_token lower ''from'' then
        (let cols = requested_columns sql [header_col ''result''] in
         send_result (output_names cols) [replicate (length cols) None])
      else send_empty_result [''name''])"

section \<open>Shape of the answers\<close>

lemma result_rows_body:
  "list_all (\<lambda>r. length (f r) = n) rs \<Longrightarrow> result_body (Some n) (map (\<lambda>r. DataRow (f r)) rs @ [CommandComplete t, ReadyForQuery])"
  by (induction rs) simp_all

lemma send_result_shape [reply_shape]:
  "list_all (\<lambda>r. length r = length cols) rs \<Longrightarrow> simple_reply (send_result cols rs)"
  by (simp add: send_result_def result_rows_body)

lemma length_row_for [simp]: "length (row_for cols get) = length cols"
  by (simp add: row_for_def)

lemma length_output_names [simp]: "length (output_names cols) = length cols"
  by (simp add: output_names_def)

lemma table_rows_fit: "list_all (\<lambda>r. length r = length cols) (table_rows compile sql schema cols ok)"
  by (simp add: table_rows_def list_all_iff)

lemma column_rows_fit: "list_all (\<lambda>r. length r = length cols) (column_rows compile sql schema cols ok)"
  by (auto simp: column_rows_def list_all_iff)

lemma statio_shape [reply_shape]: "simple_reply (handle_pg_statio_query schema)"
proof -
  have "length statio_fields = 5" by (simp add: statio_fields_def)
  moreover have "list_all (\<lambda>t. length [Some (st_name t), None, None, None, None] = 5) schema"
    by (simp add: list_all_iff)
  ultimately show ?thesis using result_rows_body [of _ 5 schema] by (simp add: handle_pg_statio_query_def)
qed

lemma catalog_shape [reply_shape]: "simple_reply (handle_catalog_query compile sql schema srcs)"
  unfolding handle_catalog_query_def Let_def
  by (simp add: reply_shape table_rows_fit column_rows_fit handle_pg_info_schema_columns_def handle_pg_info_schema_tables_def
      handle_pg_attribute_def handle_pg_class_query_def handle_pg_namespace_query_def Let_def)

end
