(* ===== verification/Redash_Api.thy ===== *)
theory Redash_Api
  imports Redash_Client Schema_Cache
begin

text \<open>
  \<open>internal/redash/interfaces.go\<close>: the Redash API as the sessions of both wire servers see it, and the
  client behind it.
\<close>

section \<open>The interface\<close>

text \<open>What the interface answers, and the calls made of it.\<close>

record redash_api =
  api_execute :: "string \<Rightarrow> int \<Rightarrow> go_error + query_result"
  api_schema :: "int \<Rightarrow> go_error + schema_table list"

datatype api_call = Execute_query string int | Get_schema int

section \<open>The API behind the interface\<close>

text \<open>
  The Redash client as the interface: what a query or a schema request will meet is its environment;
  a call that never returns would be a value that is never used.
\<close>

definition client_api ::
  "(json \<Rightarrow> string) \<Rightarrow> client \<Rightarrow> (string \<Rightarrow> int \<Rightarrow> query_env) \<Rightarrow> (int \<Rightarrow> http_reply \<times> poll_event list) \<Rightarrow> redash_api" where
  "client_api raw_text c qenv senv =
     \<lparr>api_execute = (\<lambda>sql ds. case execute_query c (qenv sql ds) sql ds of
          Some (calls, res) \<Rightarrow> res | None \<Rightarrow> Inl Canceled),
      api_schema = (\<lambda>ds. case senv ds of (reply, evs) \<Rightarrow>
          (case get_schema raw_text c reply evs ds of Some (calls, res) \<Rightarrow> res | None \<Rightarrow> Inl Canceled))\<rparr>"

end
