(* ===== verification/Pg_Session.thy ===== *)
theory Pg_Session
  imports Pg_Startup Pg_Catalog Pg_Result Pg_Rewrite Write_Verb Redash_Api Redash_Registry Health_Checker
begin

text \<open>
  \<open>internal/proxy/session.go\<close>: one PostgreSQL session, from the startup exchange through the loop over
  client messages. The gate and the registry belong to the server and change between messages; the
  Redash API is the interface \<open>RedashAPI\<close>, given for each message as what it will answer. The argument
  \<open>compile\<close> compiles the patterns a client supplies in catalog queries (\<open>regexp.Compile\<close>).
\<close>

section \<open>The session and its surroundings\<close>

record pg_session =
  s_gate :: gate
  s_registry :: swappable_registry
  s_listen_addr :: string
  s_read_only :: bool
  data_source_id :: int
  ds_ty :: string
  s_params :: "string \<rightharpoonup> string"
  s_pid :: "32 word"
  extended_err :: bool
  schema_cache :: "schema_table list schema_cache"

text \<open>What handling a message writes and which calls it makes.\<close>

type_synonym reaction = "be_msg list \<times> api_call list \<times> pg_session"

definition suspect_gate :: "pg_session \<Rightarrow> pg_session" where
  "suspect_gate s = s\<lparr>s_gate := gate_suspect (s_gate s)\<rparr>"

definition admit_session :: "gate \<Rightarrow> string option \<times> gate" where
  "admit_session g =
     (if gate_up g then (None, g)
      else let g1 = gate_suspect g in (Some (client_message g1), g1))"

definition is_postgres_backend :: "pg_session \<Rightarrow> bool" where
  "is_postgres_backend s = is_postgres_compatible (ds_ty s)"

section \<open>Queries\<close>

definition session_schema :: "redash_api \<Rightarrow> pg_session \<Rightarrow> schema_table list \<times> api_call list \<times> pg_session" where
  "session_schema api s =
     (if data_source_id s = 0 then ([], [], s)
      else if \<not> gate_up (s_gate s) then ([], [], s)
      else
        case cache_get (\<lambda>calls. (api_schema api (data_source_id s), calls @ [Get_schema (data_source_id s)]))
               (schema_cache s, []) of
          (Inl err, c, calls) \<Rightarrow> ([], calls, s\<lparr>schema_cache := c\<rparr>)
        | (Inr tables, c, calls) \<Rightarrow> (tables, calls, s\<lparr>schema_cache := c\<rparr>))"

definition local_view :: "pg_session \<Rightarrow> data_source list \<Rightarrow> local_session" where
  "local_view s srcs =
     \<lparr>startup_params = s_params s, sources = srcs, listen_addr = s_listen_addr s,
      read_only = s_read_only s, backend_pid = s_pid s\<rparr>"

definition generic_failure :: string where
  "generic_failure = ''query execution failed (see proxy logs for details)''"

definition handle_query ::
  "regexp_compile \<Rightarrow> string \<Rightarrow> redash_api \<Rightarrow> string \<Rightarrow>
   pg_session \<Rightarrow> reaction" where
  "handle_query compile now api sql0 s =
     (let sql = trim_space sql0 in
      if sql = [] then (send_empty_query, [], s)
      else if is_multi_statement Postgres sql then
        (send_error ''multi-statement queries are not supported; send one statement per request'', [], s)
      else if \<not> gate_up (s_gate s) then
        let s1 = suspect_gate s in (send_error (client_message (s_gate s1)), [], s1)
      else if is_local_query sql then
        let srcs = filter_by_type (swappable_all (s_registry s)) is_postgres_compatible in
        (handle_local_query now sql (local_view s srcs), [], s)
      else if is_catalog_query sql then
        let srcs = filter_by_type (swappable_all (s_registry s)) is_postgres_compatible;
            (tables, calls, s1) = session_schema api s in
        (handle_catalog_query compile sql tables srcs, calls, s1)
      else if data_source_id s = 0 then
        (send_error ''no data source selected; connect with a valid database name (use SELECT datname FROM pg_database to list available data sources)'', [], s)
      else if s_read_only s \<and> write_verb Postgres sql \<noteq> [] then
        (send_error_code sqlstate_read_only
           (''cannot execute '' @ write_verb Postgres sql @ '' in a read-only transaction'') read_only_hint, [], s)
      else
        let sql1 = (if is_postgres_backend s then rewrite_timestamp_comparisons sql else sql);
            calls = [Execute_query sql1 (data_source_id s)] in
        (case api_execute api sql1 (data_source_id s) of
           Inl err \<Rightarrow>
             let s1 = (if suspicious (Some err) then suspect_gate s else s);
                 msg = (case as_query_error err of Some m \<Rightarrow> m | None \<Rightarrow> generic_failure) in
             (send_error msg, calls, s1)
         | Inr result \<Rightarrow> (send_query_result sql1 result, calls, s)))"

section \<open>The loop\<close>

definition send_extended_error :: "be_msg list" where
  "send_extended_error = [ErrorResponse ''ERROR'' ''0A000'' ''extended query protocol is not supported'' []]"

definition is_extended :: "fe_msg \<Rightarrow> bool" where
  "is_extended m = (m \<in> {Parse, Bind, Describe, Execute, Close, Flush})"

text \<open>One message: \<open>None\<close> ends the session.\<close>

definition handle_message ::
  "regexp_compile \<Rightarrow> string \<Rightarrow> redash_api \<Rightarrow> fe_msg \<Rightarrow>
   pg_session \<Rightarrow> reaction option" where
  "handle_message compile now api m s =
     (case m of
        Query sql \<Rightarrow> Some (handle_query compile now api sql (s\<lparr>extended_err := False\<rparr>))
      | Terminate \<Rightarrow> None
      | Sync \<Rightarrow> Some (send_ready_for_query, [], s\<lparr>extended_err := False\<rparr>)
      | _ \<Rightarrow>
          if is_extended m then
            (if \<not> extended_err s then Some (send_extended_error, [], s\<lparr>extended_err := True\<rparr>)
             else Some ([], [], s))
          else if extended_err s then Some ([], [], s)
          else Some (send_error ''unsupported message type'', [], s))"

text \<open>
  The loop over the messages of a connection, each with the state of the server's gate and registry
  when it arrives and what Redash will answer; a write that fails ends it for the messages whose
  writes the loop itself checks.
\<close>

record arrival =
  arrived :: fe_msg
  a_gate :: gate
  a_registry :: swappable_registry
  a_api :: redash_api
  a_now :: string
  write_fails :: bool

definition loop_checks_write :: "fe_msg \<Rightarrow> bool" where
  "loop_checks_write m = (\<not> (\<exists>sql. m = Query sql))"

fun serve_loop ::
  "regexp_compile \<Rightarrow> arrival list \<Rightarrow> pg_session \<Rightarrow> reaction" where
  "serve_loop compile [] s = ([], [], s)"
| "serve_loop compile (a # as) s =
     (let s1 = s\<lparr>s_gate := a_gate a, s_registry := a_registry a\<rparr> in
      case handle_message compile (a_now a) (a_api a) (arrived a) s1 of
        None \<Rightarrow> ([], [], s1)
      | Some (ms, calls, s2) \<Rightarrow>
          if write_fails a \<and> ms \<noteq> [] \<and> loop_checks_write (arrived a) then ([], calls, s2)
          else
            (let (ms', calls', s3) = serve_loop compile as s2 in
             ((if write_fails a then [] else ms) @ ms', calls @ calls', s3)))"

text \<open>
  \<open>serve\<close>: the exchange, then the choice of the data source by the database name or, without one,
  the user name.
\<close>

definition select_source :: "(string \<rightharpoonup> string) \<Rightarrow> pg_session \<Rightarrow> pg_session" where
  "select_source params s =
     (let db = (if param params ''database'' = [] then param params ''user'' else param params ''database'') in
      case swappable_lookup (s_registry s) db of
        Some ds \<Rightarrow>
          if is_postgres_compatible (ds_type ds)
          then s\<lparr>s_params := params, data_source_id := ds_id ds, ds_ty := ds_type ds\<rparr>
          else s\<lparr>s_params := params\<rparr>
      | None \<Rightarrow> s\<lparr>s_params := params\<rparr>)"

definition new_pg_session :: "gate \<Rightarrow> swappable_registry \<Rightarrow> string \<Rightarrow> bool \<Rightarrow> 32 word \<Rightarrow> pg_session" where
  "new_pg_session g reg0 addr ro pid =
     \<lparr>s_gate = g, s_registry = reg0, s_listen_addr = addr, s_read_only = ro, data_source_id = 0,
      ds_ty = [], s_params = Map.empty, s_pid = pid, extended_err = False,
      schema_cache = new_schema_cache\<rparr>"

definition serve_session ::
  "regexp_compile \<Rightarrow> string \<Rightarrow> string \<Rightarrow> string \<Rightarrow>
   client_input list \<Rightarrow> arrival list \<Rightarrow> pg_session \<Rightarrow>
   startup_error option \<times> (32 word \<times> string) option \<times> reaction" where
  "serve_session compile user pass secret inputs arrivals s =
     (let cfg = \<lparr>username = user, password = pass, key_pid = s_pid s, key_secret = secret,
                 ro_mode = s_read_only s, admit = admit_session\<rparr>;
          r = handle_startup cfg inputs (s_gate s);
          s1 = s\<lparr>s_gate := gate_after r\<rparr> in
      case ended r of
        Inl err \<Rightarrow> (Some err, cancel_asked r, (written r, [], s1))
      | Inr params \<Rightarrow>
          let (ms, calls, s2) = serve_loop compile arrivals (select_source params s1) in
          (None, cancel_asked r, (written r @ ms, calls, s2)))"

end
