(* ===== verification/Pg_Session_Laws.thy ===== *)
theory Pg_Session_Laws
  imports Pg_Session
begin

text \<open>
  The laws of a PostgreSQL session: what reaches Redash, what every query is answered with, what a
  client can learn of a failure, and how the unsupported extended protocol is answered.
\<close>

section \<open>What reaches Redash\<close>

lemma session_schema_fields:
  "session_schema api s = (ts, calls, s') \<Longrightarrow>
   (\<exists>c. s' = s\<lparr>schema_cache := c\<rparr>) \<and> (calls = [] \<or> calls = [Get_schema (data_source_id s)] \<and> gate_up (s_gate s) \<and> data_source_id s \<noteq> 0)"
  by (auto simp: session_schema_def cache_get_def Let_def split: if_splits prod.splits sum.splits
      intro: exI [of _ "schema_cache s"])

lemma handle_query_calls:
  assumes "handle_query compile now api sql0 s = (ms, calls, s')" and "call \<in> set calls"
  shows "gate_up (s_gate s) \<and> data_source_id s \<noteq> 0 \<and>
    \<not> is_multi_statement Postgres (trim_space sql0) \<and> \<not> is_local_query (trim_space sql0) \<and>
    (call = Get_schema (data_source_id s) \<and> is_catalog_query (trim_space sql0) \<or>
     \<not> is_catalog_query (trim_space sql0) \<and> calls = [call] \<and>
     call = Execute_query (if is_postgres_backend s then rewrite_timestamp_comparisons (trim_space sql0)
                           else trim_space sql0) (data_source_id s) \<and>
     (s_read_only s \<longrightarrow> write_verb Postgres (trim_space sql0) = []))"
  using assms
  by (auto simp: handle_query_def Let_def dest: session_schema_fields split: if_splits sum.splits prod.splits)

text \<open>The fields a query cannot change.\<close>

lemma handle_query_fields:
  assumes "handle_query compile now api sql0 s = (ms, calls, s')"
  shows "s_read_only s' = s_read_only s \<and> data_source_id s' = data_source_id s \<and> ds_ty s' = ds_ty s \<and>
    s_pid s' = s_pid s \<and> extended_err s' = extended_err s"
  using assms
  by (auto simp: handle_query_def Let_def suspect_gate_def dest!: session_schema_fields
      split: if_splits sum.splits prod.splits)

lemma handle_message_fields:
  assumes "handle_message compile now api m s = Some (ms, calls, s')"
  shows "s_read_only s' = s_read_only s \<and> data_source_id s' = data_source_id s \<and> ds_ty s' = ds_ty s"
  using assms handle_query_fields
  by (fastforce simp: handle_message_def split: fe_msg.splits if_splits)

lemma handle_message_calls:
  assumes "handle_message compile now api m s = Some (ms, calls, s')" and "call \<in> set calls"
  obtains sql where "m = Query sql" and "handle_query compile now api sql (s\<lparr>extended_err := False\<rparr>) = (ms, calls, s')"
  using assms by (auto simp: handle_message_def split: fe_msg.splits if_splits)

text \<open>
  Property C1: in read-only mode nothing but reads ever reaches Redash over a PostgreSQL session: every
  query it executes, in any run of the loop and whatever the gate, the registry and Redash do, is a
  statement a client sent, alone in its message, that \<open>WriteVerb\<close> finds to be a read, up to the
  rewriting of timestamp comparisons; and it goes to the data source chosen at startup.
\<close>

theorem read_only_session_only_reads:
  assumes "serve_loop compile arrivals s = (ms, calls, s')" and "s_read_only s"
    and "Execute_query sql' ds \<in> set calls"
  shows "\<exists>a sql. a \<in> set arrivals \<and> arrived a = Query sql \<and> write_verb Postgres (trim_space sql) = [] \<and>
    \<not> is_multi_statement Postgres (trim_space sql) \<and> gate_up (a_gate a) \<and>
    sql' \<in> {trim_space sql, rewrite_timestamp_comparisons (trim_space sql)} \<and>
    ds = data_source_id s \<and> ds \<noteq> 0"
  using assms
proof (induction arrivals arbitrary: s ms calls)
  case (Cons a arrivals)
  let ?s1 = "s\<lparr>s_gate := a_gate a, s_registry := a_registry a\<rparr>"
  show ?case
  proof (cases "handle_message compile (a_now a) (a_api a) (arrived a) ?s1")
    case None
    with Cons.prems show ?thesis by (simp add: Let_def)
  next
    case (Some r)
    then obtain ms1 calls1 s2 where step: "handle_message compile (a_now a) (a_api a) (arrived a) ?s1 = Some (ms1, calls1, s2)"
      by (cases r) auto
    have keep: "s_read_only s2" "data_source_id s2 = data_source_id s"
      using handle_message_fields [OF step] Cons.prems(2) by simp_all
    obtain ms2 calls2 s3 where rest: "serve_loop compile arrivals s2 = (ms2, calls2, s3)"
      by (cases "serve_loop compile arrivals s2") auto
    from Cons.prems(1,3) step rest
    have "Execute_query sql' ds \<in> set calls1 \<or> Execute_query sql' ds \<in> set calls2 \<and> s3 = s'"
      by (auto simp: Let_def split: if_splits)
    then show ?thesis
    proof
      assume c: "Execute_query sql' ds \<in> set calls1"
      from handle_message_calls [OF step this] obtain sql where sql: "arrived a = Query sql"
          "handle_query compile (a_now a) (a_api a) sql (?s1\<lparr>extended_err := False\<rparr>) = (ms1, calls1, s2)" .
      from handle_query_calls [OF sql(2) c] Cons.prems(2) sql(1) show ?thesis
        by (intro exI [of _ a] exI [of _ sql]) (auto split: if_splits)
    next
      assume c: "Execute_query sql' ds \<in> set calls2 \<and> s3 = s'"
      with Cons.IH [of s2 ms2 calls2] rest keep show ?thesis by auto
    qed
  qed
qed simp

definition sample_session :: pg_session where
  "sample_session = (new_pg_session new_gate (new_swappable []) [] True 1)\<lparr>data_source_id := 4, ds_ty := ''pg''\<rparr>"

definition sample_arrival :: "fe_msg \<Rightarrow> arrival" where
  "sample_arrival m = \<lparr>arrived = m, a_gate = new_gate, a_registry = new_swappable [],
     a_api = \<lparr>api_execute = \<lambda>_ _. Inr empty_result, api_schema = \<lambda>_. Inr []\<rparr>, a_now = [], write_fails = False\<rparr>"

lemma sample_read: "is_multi_statement Postgres ''SELECT a FROM t'' = False"
  "is_local_query ''SELECT a FROM t'' = False" "is_catalog_query ''SELECT a FROM t'' = False"
  "write_verb Postgres ''SELECT a FROM t'' = []" "trim_space '' SELECT a FROM t'' = ''SELECT a FROM t''"
  "rewrite_timestamp_comparisons ''SELECT a FROM t'' = ''SELECT a FROM t''"
  by code_simp+

theorem read_only_session_only_reads_witness:
  "\<exists>a sql. a \<in> set [sample_arrival (Query '' SELECT a FROM t'')] \<and> arrived a = Query sql \<and>
     ''SELECT a FROM t'' \<in> {trim_space sql, rewrite_timestamp_comparisons (trim_space sql)}"
proof -
  have "serve_loop (\<lambda>_. None) [sample_arrival (Query '' SELECT a FROM t'')] sample_session =
      (send_query_result ''SELECT a FROM t'' empty_result, [Execute_query ''SELECT a FROM t'' 4],
       sample_session\<lparr>s_gate := new_gate, s_registry := new_swappable []\<rparr>)"
    by (simp add: handle_message_def handle_query_def sample_arrival_def sample_session_def
        new_pg_session_def sample_read gate_up_def new_gate_def Let_def)
  from read_only_session_only_reads [OF this, of "''SELECT a FROM t''" 4] show ?thesis
    by (auto simp: sample_session_def new_pg_session_def)
qed

section \<open>What every query is answered with\<close>

text \<open>
  Property C3: every simple query gets exactly one complete answer, whatever the state of the gate and
  the registry, whatever Redash answers, and whether the query is empty, a batch, local, a catalog
  query, refused or executed: it ends with its only \<open>ReadyForQuery\<close> and holds at most one error, so
  the client and the proxy never lose step. Every row of an answer has as many values as its
  description has columns, in emulated catalogs and in results alike.
\<close>

theorem query_answered_once:
  "simple_reply (fst (handle_query compile now api sql s)) \<and>
    ready_count (fst (handle_query compile now api sql s)) = 1 \<and>
    error_count (fst (handle_query compile now api sql s)) \<le> 1 \<and>
    last (fst (handle_query compile now api sql s)) = ReadyForQuery"
proof -
  have "simple_reply (fst (handle_query compile now api sql s))"
    unfolding handle_query_def Let_def
    by (simp add: reply_shape case_prod_unfold split: sum.split)
  then show ?thesis using simple_reply_ready by blast
qed

text \<open>
  Property C28: a failure of the infrastructure tells the client nothing: an answer to an error that is
  not the data source's own verdict on the SQL does not depend on the error, so no host name or
  credential in it reaches the client; and the data source's verdict is passed on verbatim.
\<close>

theorem infrastructure_errors_hidden:
  assumes "as_query_error e1 = None" and "as_query_error e2 = None"
  shows "fst (handle_query compile now \<lparr>api_execute = \<lambda>_ _. Inl e1, api_schema = sc\<rparr> sql s) =
      fst (handle_query compile now \<lparr>api_execute = \<lambda>_ _. Inl e2, api_schema = sc\<rparr> sql s) \<and>
    (\<forall>e m ms calls s' q d. as_query_error e = Some m \<longrightarrow> Execute_query q d \<in> set calls \<longrightarrow>
      handle_query compile now \<lparr>api_execute = \<lambda>_ _. Inl e, api_schema = sc\<rparr> sql s = (ms, calls, s') \<longrightarrow>
      ms = [ErrorResponse ''ERROR'' ''XX000'' m [], ReadyForQuery])"
proof (intro conjI allI impI)
  show "fst (handle_query compile now \<lparr>api_execute = \<lambda>_ _. Inl e1, api_schema = sc\<rparr> sql s) =
      fst (handle_query compile now \<lparr>api_execute = \<lambda>_ _. Inl e2, api_schema = sc\<rparr> sql s)"
    using assms by (simp add: handle_query_def Let_def session_schema_def case_prod_unfold)
next
  fix e m ms calls s' q d
  assume e: "as_query_error e = Some m" and c: "Execute_query q d \<in> set calls"
    and h: "handle_query compile now \<lparr>api_execute = \<lambda>_ _. Inl e, api_schema = sc\<rparr> sql s = (ms, calls, s')"
  have "trim_space sql \<noteq> []" using h c by (auto simp: handle_query_def)
  with handle_query_calls [OF h c] e h show "ms = [ErrorResponse ''ERROR'' ''XX000'' m [], ReadyForQuery]"
    by (auto simp: handle_query_def Let_def send_error_def send_error_code_def)
qed

theorem infrastructure_errors_hidden_witness:
  "fst (handle_query (\<lambda>_. None) [] \<lparr>api_execute = \<lambda>_ _. Inl (Plain ''dial tcp 10.0.0.7''), api_schema = \<lambda>_. Inr []\<rparr>
      ''SELECT a FROM t'' sample_session) =
   fst (handle_query (\<lambda>_. None) [] \<lparr>api_execute = \<lambda>_ _. Inl Canceled, api_schema = \<lambda>_. Inr []\<rparr>
      ''SELECT a FROM t'' sample_session)"
  by (rule infrastructure_errors_hidden [THEN conjunct1]) simp_all

section \<open>The closed gate\<close>



section \<open>The extended protocol\<close>

text \<open>The arrivals of one pipeline: extended-protocol messages and what else the client mixes in.\<close>

definition in_pipeline :: "arrival \<Rightarrow> bool" where
  "in_pipeline a \<longleftrightarrow> \<not> write_fails a \<and> (is_extended (arrived a) \<or> arrived a \<in> {UnsupportedMessage} \<union> range PasswordMessage)"

lemma pipeline_latched:
  assumes "list_all in_pipeline p" and "extended_err s"
  shows "\<exists>s'. serve_loop compile (p @ rest) s = serve_loop compile rest s' \<and> extended_err s'"
  using assms
proof (induction p arbitrary: s)
  case (Cons a p)
  let ?s1 = "s\<lparr>s_gate := a_gate a, s_registry := a_registry a\<rparr>"
  have "handle_message compile (a_now a) (a_api a) (arrived a) ?s1 = Some ([], [], ?s1)"
    using Cons.prems by (auto simp: handle_message_def in_pipeline_def is_extended_def split: fe_msg.split)
  with Cons.IH [of ?s1] Cons.prems show ?case by (auto simp: Let_def)
qed auto



end
