(* ===== verification/Pg_Catalog_Laws.thy ===== *)
theory Pg_Catalog_Laws
  imports Pg_Catalog "HOL-Library.Sublist"
begin

text \<open>
  The laws of the catalog answers: which tables a query lists, that an object identifier the proxy hands
  out names the same table when it comes back, and where the values of a row come from.
\<close>

section \<open>Which kinds a query admits\<close>

definition names_kind :: "(string \<Rightarrow> string) \<Rightarrow> string \<Rightarrow> kind_predicate \<Rightarrow> bool" where
  "names_kind norm want p \<longleftrightarrow> (\<exists>v \<in> set (kp_values p). norm v = norm want)"

lemma predicates_admit_from_iff:
  "predicates_admit_from hp found ps (norm want) norm \<longleftrightarrow>
     (\<forall>p \<in> set ps. kp_negated p \<longrightarrow> \<not> names_kind norm want p) \<and>
     (found \<or> (\<exists>p \<in> set ps. \<not> kp_negated p \<and> names_kind norm want p) \<or>
      \<not> hp \<and> (\<forall>p \<in> set ps. kp_negated p))"
proof (induction ps arbitrary: hp found)
  case (Cons p ps)
  have n: "list_ex (\<lambda>v. norm v = norm want) (kp_values p) \<longleftrightarrow> names_kind norm want p"
    by (simp add: names_kind_def list_ex_iff)
  show ?case by (cases "kp_negated p") (auto simp: n Cons.IH)
qed auto

lemma predicates_admit_iff:
  "predicates_admit ps want norm \<longleftrightarrow>
     (\<forall>p \<in> set ps. kp_negated p \<longrightarrow> \<not> names_kind norm want p) \<and>
     ((\<exists>p \<in> set ps. \<not> kp_negated p) \<longrightarrow> (\<exists>p \<in> set ps. \<not> kp_negated p \<and> names_kind norm want p))"
  by (auto simp: predicates_admit_def predicates_admit_from_iff)

definition data_rows :: "be_msg list \<Rightarrow> string option list list" where
  "data_rows ms = List.map_filter (\<lambda>m. case m of DataRow r \<Rightarrow> Some r | _ \<Rightarrow> None) ms"

lemma data_rows_simps [simp]:
  "data_rows [] = []" "data_rows (DataRow r # ms) = r # data_rows ms" "data_rows (RowDescription fs # ms) = data_rows ms"
  "data_rows (CommandComplete t # ms) = data_rows ms" "data_rows (ReadyForQuery # ms) = data_rows ms"
  by (simp_all add: data_rows_def)

lemma data_rows_result: "data_rows (send_result cols rs) = map (map (map_option cat_print)) rs"
proof -
  have "data_rows (map (\<lambda>r. DataRow (f r)) rs @ [CommandComplete t, ReadyForQuery]) = map f rs" for f t
    by (induction rs) simp_all
  then show ?thesis by (simp add: send_result_def)
qed

definition tables_selected :: "relation_filter \<Rightarrow> schema_table list \<Rightarrow> nat set" where
  "tables_selected f schema =
     {i. i < length schema \<and> \<not> rf_none f \<and>
         (rf_names f = [] \<or> (\<exists>n \<in> set (rf_names f). equal_fold n (st_name (schema ! i)))) \<and>
         (\<forall>m \<in> set (rf_patterns f). m (st_name (schema ! i))) \<and>
         (rf_oids f = [] \<or> table_oid i \<in> set (rf_oids f))}"

lemma admits_iff: "i < length schema \<Longrightarrow> admits f i (schema ! i) \<longleftrightarrow> i \<in> tables_selected f schema"
  by (auto simp: admits_def tables_selected_def list_ex_iff list_all_iff)

lemma admitted_tables_eq:
  "admitted_tables compile sql schema ok =
     (if ok then filter (\<lambda>i. i \<in> tables_selected (parse_relation_filter compile sql) schema) [0..<length schema] else [])"
proof -
  have "filter (\<lambda>i. admits f i (schema ! i)) [0..<length schema] = filter (\<lambda>i. i \<in> tables_selected f schema) [0..<length schema]" for f
    by (rule filter_cong) (auto simp: admits_iff)
  then show ?thesis by (simp add: admitted_tables_def)
qed

lemma tables_selected_bound: "tables_selected f schema \<subseteq> {..<length schema}"
  by (auto simp: tables_selected_def)

lemma length_selected: "length (filter (\<lambda>i. i \<in> tables_selected f schema) [0..<length schema]) = card (tables_selected f schema)"
proof -
  have "set (filter (\<lambda>i. i \<in> tables_selected f schema) [0..<length schema]) = tables_selected f schema"
    using tables_selected_bound by fastforce
  then show ?thesis by (metis distinct_card distinct_filter distinct_upt)
qed

section \<open>Object identifiers come back\<close>

lemma many_byte_ends:
  "st' \<in> set (rx_ends (Rx_many (Rx_byte p)) s st) \<Longrightarrow>
     snd st' = snd st \<and> fst st \<le> fst st' \<and> (\<forall>k. fst st \<le> k \<and> k < fst st' \<longrightarrow> k < length s \<and> p (s ! k))"
proof -
  define f where "f = rx_ends (Rx_byte p) s"
  have f: "f st = (if fst st < length s \<and> p (s ! fst st) then [(fst st + 1, snd st)] else [])" for st
    by (simp add: f_def)
  have "st' \<in> set (many_ends f n st) \<Longrightarrow>
     snd st' = snd st \<and> fst st \<le> fst st' \<and> (\<forall>k. fst st \<le> k \<and> k < fst st' \<longrightarrow> k < length s \<and> p (s ! k))" for n
  proof (induction n arbitrary: st)
    case (Suc n)
    show ?case
    proof (cases "st' = st")
      case False
      with Suc.prems have b: "fst st < length s" "p (s ! fst st)" "st' \<in> set (many_ends f n (fst st + 1, snd st))"
        by (auto simp: f [of st] split: if_splits)
      from Suc.IH [OF b(3)] b(1,2) show ?thesis
        by (auto simp: Suc_le_eq) (metis le_neq_implies_less)+
    qed (auto dest: leD)
  qed auto
  then show "st' \<in> set (rx_ends (Rx_many (Rx_byte p)) s st) \<Longrightarrow> ?thesis" by (simp add: f_def)
qed

lemma some_byte_ends:
  assumes "st' \<in> set (rx_ends (rx_some (Rx_byte p)) s st)"
  shows "snd st' = snd st \<and> fst st < fst st' \<and> (\<forall>k. fst st \<le> k \<and> k < fst st' \<longrightarrow> k < length s \<and> p (s ! k))"
proof -
  from assms have "fst st < length s" "p (s ! fst st)"
      "st' \<in> set (rx_ends (Rx_many (Rx_byte p)) s (fst st + 1, snd st))"
    by (auto simp: rx_some_def split: if_splits simp del: rx_ends.simps(5))
  with many_byte_ends [OF this(3)] show ?thesis
    by (auto simp: Suc_le_eq) (metis le_neq_implies_less)+
qed

lemma many_byte_between:
  "i + n \<le> length s \<Longrightarrow> \<forall>k. i \<le> k \<and> k < i + n \<longrightarrow> p (s ! k) \<Longrightarrow> rx_between (Rx_many (Rx_byte p)) s i (i + n)"
proof (induction n arbitrary: i)
  case (Suc n)
  have "rx_between (Rx_byte p) s i (i + 1)" using Suc.prems by (simp add: rx_between.byte)
  moreover have "rx_between (Rx_many (Rx_byte p)) s (i + 1) ((i + 1) + n)"
    using Suc.prems by (intro Suc.IH) auto
  ultimately show ?case using rx_between.many by fastforce
qed (simp add: rx_between.many0)

text \<open>A pattern whose ends all carry the same groups finds them.\<close>

lemma rx_group_unique:
  assumes "rx_between r s 0 j" and "\<And>st. st \<in> set (rx_ends r s (0, [])) \<Longrightarrow> snd st = caps"
  shows "rx_group_of r k s = Some (group_text s caps k)"
proof -
  have "rx_ends r s (0, []) \<noteq> []" using rx_ends_nonempty [of 0 s r "[]"] assms(1) by auto
  then have "rx_search r s 0 = Some (0, hd (rx_ends r s (0, [])))"
    by (simp add: rx_search_def upt_conv_Cons del: upt_Suc)
  moreover have "snd (hd (rx_ends r s (0, []))) = caps"
    using \<open>rx_ends r s (0, []) \<noteq> []\<close> by (intro assms(2)) simp
  ultimately show ?thesis by (simp add: rx_group_of_def case_prod_beta)
qed

text \<open>The number at the start of a text, after blanks and before anything that is no word byte.\<close>

lemma nth_mid:
  "i < length bs \<Longrightarrow> (bs @ ds @ rest) ! i = bs ! i"
  "length bs \<le> i \<Longrightarrow> i < length bs + length ds \<Longrightarrow> (bs @ ds @ rest) ! i = ds ! (i - length bs)"
  by (auto simp: nth_append)

lemma space_not_digit: "rx_space_byte c \<Longrightarrow> \<not> is_digit c"
  by (auto simp: rx_space_byte_def blank4_def is_digit_def byte_def newline_def)

lemma digit_word: "is_digit c \<Longrightarrow> rx_word_byte c"
  by (simp add: rx_word_byte_def)

lemma leading_int_found:
  assumes "\<forall>c \<in> set bs. rx_space_byte c" "ds \<noteq> []" "\<forall>c \<in> set ds. is_digit c" "rest = [] \<or> \<not> rx_word_byte (hd rest)"
  shows "rx_group_of leading_int_re 1 (bs @ ds @ rest) = Some ds"
proof -
  let ?s = "bs @ ds @ rest" and ?b = "length bs" and ?e = "length bs + length ds"
  have blank: "k < ?b \<Longrightarrow> rx_space_byte (?s ! k)" for k using assms(1) by (simp add: nth_mid)
  have dig: "?b \<le> k \<Longrightarrow> k < ?e \<Longrightarrow> is_digit (?s ! k)" for k using assms(3) by (simp add: nth_mid)
  have past: "?e < length ?s \<Longrightarrow> \<not> rx_word_byte (?s ! ?e)"
    using assms(4) by (cases rest) (auto simp: nth_append)
  have "rx_between leading_int_re ?s 0 ?e"
  proof -
    have "rx_between rx_spaces ?s 0 (0 + ?b)"
      unfolding rx_spaces_def by (rule many_byte_between) (use blank in auto)
    moreover have "rx_between (rx_some (Rx_byte is_digit)) ?s ?b ?e"
    proof -
      have "rx_between (Rx_many (Rx_byte is_digit)) ?s (?b + 1) ((?b + 1) + (length ds - 1))"
        using assms(2) by (intro many_byte_between) (auto intro!: dig)
      then show ?thesis using assms(2) dig [of ?b] by (cases ds) (auto simp: rx_some_def)
    qed
    moreover have "word_edge ?s ?e"
    proof -
      have e: "?b \<le> ?e - 1" "?e - 1 < ?e" using assms(2) by (cases ds; simp)+
      have "0 < ?e" "rx_word_byte (?s ! (?e - 1))"
        using assms(2) digit_word [OF dig [OF e]] by simp_all
      with past show ?thesis unfolding word_edge_def by blast
    qed
    ultimately show ?thesis by (auto simp: leading_int_re_def rx_cat_def)
  qed
  moreover have "snd st = [(1, ?b, ?e)]" if st: "st \<in> set (rx_ends leading_int_re ?s (0, []))" for st
  proof -
    from st obtain st1 st2 where 1: "st1 \<in> set (rx_ends rx_spaces ?s (0, []))"
        and 2: "st2 \<in> set (rx_ends (rx_some (Rx_byte is_digit)) ?s st1)" and edge: "word_edge ?s (fst st2)"
        and snd: "snd st = (1, fst st1, fst st2) # snd st2"
      by (auto simp: leading_int_re_def rx_cat_def case_prod_beta split: if_splits)
    note s1 = many_byte_ends [OF 1 [unfolded rx_spaces_def]] and s2 = some_byte_ends [OF 2]
    have d1: "fst st1 < length ?s" "is_digit (?s ! fst st1)" using s2 by auto
    have "fst st1 = ?b"
    proof (rule antisym)
      show "fst st1 \<le> ?b"
        using s1 dig [of ?b] assms(2) space_not_digit by (metis add_strict_increasing2 fst_conv le0 length_greater_0_conv less_add_same_cancel1 not_le order_refl)
      show "?b \<le> fst st1" using blank d1(2) space_not_digit not_le by blast
    qed
    moreover have "fst st2 = ?e"
    proof (rule antisym)
      show "fst st2 \<le> ?e"
        using s2 past digit_word \<open>fst st1 = ?b\<close> by (metis le_add1 not_le)
      show "?e \<le> fst st2"
      proof (rule ccontr)
        assume "\<not> ?e \<le> fst st2"
        then have k: "?b < fst st2" "fst st2 < ?e" using s2 \<open>fst st1 = ?b\<close> by auto
        then have "rx_word_byte (?s ! (fst st2 - 1))" "rx_word_byte (?s ! fst st2)"
          using dig [of "fst st2 - 1"] dig [of "fst st2"] by (auto intro: digit_word)
        with edge k show False by (auto simp: word_edge_def)
      qed
    qed
    ultimately show ?thesis using snd s1 s2 by simp
  qed
  ultimately have "rx_group_of leading_int_re 1 ?s = Some (group_text ?s [(1, ?b, ?e)] 1)"
    by (rule rx_group_unique)
  then show ?thesis by (simp add: group_text_def substr_def)
qed

text \<open>The literal at the start of a text, after blanks.\<close>

lemma rx_spaces_ends:
  "st \<in> set (rx_ends rx_spaces s (0, [])) \<Longrightarrow> snd st = [] \<and> (\<forall>k < fst st. k < length s \<and> rx_space_byte (s ! k))"
  unfolding rx_spaces_def by (drule many_byte_ends) auto

lemma quote_not_space: "\<not> rx_space_byte (CHR 0x27)"
  by (simp add: rx_space_byte_def blank4_def byte_def newline_def)

lemma quoted_found:
  assumes "\<forall>c \<in> set bs. rx_space_byte c" "CHR 0x27 \<notin> set v"
  shows "rx_group_of leading_quoted_re 1 (bs @ CHR 0x27 # v @ CHR 0x27 # rest) = Some v"
proof -
  let ?s = "bs @ CHR 0x27 # v @ CHR 0x27 # rest" and ?b = "length bs" and ?e = "length bs + 1 + length v"
  have blank: "k < ?b \<Longrightarrow> rx_space_byte (?s ! k)" for k using assms(1) by (simp add: nth_append)
  have q: "?s ! ?b = CHR 0x27" "?s ! ?e = CHR 0x27" by (simp_all add: nth_append)
  have inner: "?b + 1 \<le> k \<Longrightarrow> k < ?e \<Longrightarrow> ?s ! k \<noteq> CHR 0x27" for k
  proof -
    assume k: "?b + 1 \<le> k" "k < ?e"
    then have "?s ! k = v ! (k - (?b + 1))" by (auto simp: nth_append nth_Cons')
    with assms(2) k show ?thesis by (auto simp: in_set_conv_nth)
  qed
  have "rx_between leading_quoted_re ?s 0 (?e + 1)"
  proof -
    have "rx_between rx_spaces ?s 0 (0 + ?b)"
      unfolding rx_spaces_def by (rule many_byte_between) (use blank in auto)
    moreover have "rx_between (Rx_many (Rx_byte (\<lambda>c. c \<noteq> CHR 0x27))) ?s (?b + 1) ((?b + 1) + length v)"
      using inner by (intro many_byte_between) auto
    ultimately show ?thesis
      using q by (auto simp: leading_quoted_re_def rx_quoted_def rx_cat_def rx_lit_def)
  qed
  moreover have "snd st = [(1, ?b + 1, ?e)]" if st: "st \<in> set (rx_ends leading_quoted_re ?s (0, []))" for st
  proof -
    from st obtain st1 st2 where 1: "st1 \<in> set (rx_ends rx_spaces ?s (0, []))"
        and o: "fst st1 < length ?s" "?s ! fst st1 = CHR 0x27"
        and 2: "st2 \<in> set (rx_ends (Rx_many (Rx_byte (\<lambda>c. c \<noteq> CHR 0x27))) ?s (fst st1 + 1, snd st1))"
        and c: "fst st2 < length ?s" "?s ! fst st2 = CHR 0x27"
        and snd: "snd st = (1, fst st1 + 1, fst st2) # snd st2"
      by (auto simp: leading_quoted_re_def rx_quoted_def rx_cat_def rx_lit_def case_prod_beta
          simp del: rx_ends.simps(5) split: if_splits)
    note s1 = rx_spaces_ends [OF 1] and s2 = many_byte_ends [OF 2]
    have "fst st1 = ?b"
      using s1 o(2) q(1) blank quote_not_space by (metis linorder_neqE_nat)
    moreover have "fst st2 = ?e"
    proof (rule antisym)
      show "fst st2 \<le> ?e" using s2 q(2) \<open>fst st1 = ?b\<close> by (metis fst_conv le_add1 not_le)
      show "?e \<le> fst st2" using s2 inner [of "fst st2"] c(2) \<open>fst st1 = ?b\<close> by (metis fst_conv not_le)
    qed
    ultimately show ?thesis using snd s1 s2 by simp
  qed
  ultimately have "rx_group_of leading_quoted_re 1 ?s = Some (group_text ?s [(1, ?b + 1, ?e)] 1)"
    by (rule rx_group_unique)
  then show ?thesis by (simp add: group_text_def substr_def)
qed

lemma leading_int_none:
  assumes "\<forall>c \<in> set bs. rx_space_byte c"
  shows "rx_group_of leading_int_re 1 (bs @ CHR 0x27 # u) = None"
proof -
  let ?s = "bs @ CHR 0x27 # u"
  have "rx_ends leading_int_re ?s (a, []) = []" for a
  proof (rule ccontr)
    assume "rx_ends leading_int_re ?s (a, []) \<noteq> []"
    then obtain st where st: "st \<in> set (rx_ends leading_int_re ?s (a, []))" by (metis list.set_intros(1) neq_Nil_conv)
    then obtain st1 st2 where 1: "st1 \<in> set (rx_ends rx_spaces ?s (0, []))"
        and 2: "st2 \<in> set (rx_ends (rx_some (Rx_byte is_digit)) ?s st1)"
      by (auto simp: leading_int_re_def rx_cat_def case_prod_beta split: if_splits)
    from some_byte_ends [OF 2] have d: "is_digit (?s ! fst st1)" by auto
    have q: "?s ! length bs = CHR 0x27" by (simp add: nth_append)
    have "\<not> is_digit (CHR 0x27)" by (simp add: is_digit_def byte_def)
    with d q have "fst st1 \<noteq> length bs" by metis
    moreover have "\<not> fst st1 < length bs"
      using d assms space_not_digit by (auto simp: nth_append)
    moreover have "\<not> length bs < fst st1"
      using rx_spaces_ends [OF 1] q quote_not_space by metis
    ultimately show False by simp
  qed
  then have "rx_search leading_int_re ?s 0 = None"
    by (auto simp: rx_search_def find_upt_None simp del: upt_Suc split: option.split)
  then show ?thesis by (simp add: rx_group_of_def)
qed

lemma digits_all: "\<forall>c \<in> set (nat_to_string n). is_digit c"
  using nat_to_string_bytes by (simp add: list_all_iff)

lemma atoi_nat:
  assumes "n < 2 ^ 63"
  shows "cat_atoi (nat_to_string n) = (int n, True)"
proof -
  have ne: "nat_to_string n \<noteq> []" by (rule nat_to_string_not_Nil)
  have "is_digit (hd (nat_to_string n))" using digits_all [of n] ne by (metis hd_in_set)
  then have "hd (nat_to_string n) \<notin> {CHR ''+'', CHR ''-''}" by (auto simp: is_digit_def byte_def)
  moreover from this ne have "\<not> has_prefix (nat_to_string n) ''-''" by (cases "nat_to_string n") auto
  moreover have "int n < 2 ^ 63" using assms by (simp only: of_nat_less_numeral_power_cancel_iff)
  ultimately show ?thesis using ne by (simp add: cat_atoi_def digits_value_nat)
qed

lemma oid_pred_number:
  assumes "\<forall>c \<in> set bs. rx_space_byte c" "n < 2 ^ 63" "rest = [] \<or> \<not> rx_word_byte (hd rest)"
  shows "oid_pred (front @ bs @ nat_to_string n @ rest) (length front) = Some (Inl (int n))"
  using leading_int_found [OF assms(1) nat_to_string_not_Nil digits_all assms(3)] atoi_nat [OF assms(2)]
  by (simp add: oid_pred_def)

lemma oid_pred_quoted:
  assumes "\<forall>c \<in> set bs. rx_space_byte c" "n < 2 ^ 63"
  shows "oid_pred (front @ bs @ CHR 0x27 # nat_to_string n @ CHR 0x27 # rest) (length front) = Some (Inl (int n))"
proof -
  have "CHR 0x27 \<notin> set (nat_to_string n)"
    using digits_all [of n] by (auto simp: is_digit_def byte_def)
  from quoted_found [OF assms(1) this] leading_int_none [OF assms(1)] atoi_nat [OF assms(2)] show ?thesis
    by (simp add: oid_pred_def quoted_at_def)
qed

lemma print_oid: "cat_print (Cat_number (table_oid i)) = nat_to_string (16384 + i)"
  by (simp add: table_oid_def first_table_oid_def int_to_string_def nat_add_distrib)

lemma class_oid: "eval_expr (pg_class_lookup i t) (plain_col ''oid'') = Some (Cat_number (table_oid i))"
proof -
  have "trim_space ''oid'' = ''oid''" "to_lower ''oid'' = ''oid''" "rx_matches ident_re ''oid''"
      "unqualify ''oid'' = ''oid''" "contains_str [] ''regclass'' = False"
    by code_simp+
  then show ?thesis
    by (subst eval_expr.simps) (simp add: eval_expr_with_def plain_col_def pg_class_lookup_def Let_def)
qed

definition sample_table :: "string \<Rightarrow> schema_table" where
  "sample_table name = \<lparr>st_name = name, st_columns = [\<lparr>sc_name = ''id'', sc_type = [], sc_comment = []\<rparr>]\<rparr>"

definition sample_schema :: "schema_table list" where
  "sample_schema = [sample_table ''users'', sample_table ''orders'']"

text \<open>
  Property C25: the object identifier of a table survives the round trip through a client. The proxy
  prints it in the \<open>oid\<close> column of table \<open>i\<close>; a later query that compares an oid with the printed digits,
  bare or quoted, after any blanks, is read as naming exactly that number; and a filter by that oid
  selects table \<open>i\<close> and no other, as long as nothing else in the query excludes it. The schema is the
  session's cached one, so positions do not move.
\<close>

theorem listed_oid_selects_table:
  assumes "i < length schema" and "length schema < 2 ^ 62" and "\<forall>c \<in> set bs. rx_space_byte c"
    and "rest = [] \<or> \<not> rx_word_byte (hd rest)"
  shows "\<exists>v. eval_expr (pg_class_lookup i (schema ! i)) (plain_col ''oid'') = Some v \<and>
    oid_pred (front @ bs @ cat_print v @ rest) (length front) = Some (Inl (table_oid i)) \<and>
    oid_pred (front @ bs @ CHR 0x27 # cat_print v @ CHR 0x27 # rest) (length front) = Some (Inl (table_oid i)) \<and>
    (\<forall>compile sql ok. rf_oids (parse_relation_filter compile sql) = [table_oid i] \<longrightarrow>
       set (admitted_tables compile sql schema ok) \<subseteq> {i} \<and>
       (ok \<and> rf_names (parse_relation_filter compile sql) = [] \<and> rf_patterns (parse_relation_filter compile sql) = [] \<and>
        \<not> rf_none (parse_relation_filter compile sql) \<longrightarrow> admitted_tables compile sql schema ok = [i]))"
proof -
  have n: "16384 + i < 2 ^ 63" using assms(1,2) by simp
  have oid: "int (16384 + i) = table_oid i" by (simp add: table_oid_def first_table_oid_def)
  have only: "rf_oids f = [table_oid i] \<Longrightarrow> tables_selected f schema \<subseteq> {i} \<and>
      (rf_names f = [] \<and> rf_patterns f = [] \<and> \<not> rf_none f \<longrightarrow> tables_selected f schema = {i})" for f
    using assms(1) by (auto simp: tables_selected_def table_oid_def)
  have "filter (\<lambda>j. j \<in> {i}) [0..<length schema] = [i]"
  proof -
    have "[0..<length schema] = [0..<i] @ i # [Suc i..<length schema]"
      using assms(1) by (metis le_add_diff_inverse less_imp_le_nat upt_add_eq_append upt_conv_Cons zero_le)
    then show ?thesis by simp
  qed
  then have "\<forall>compile sql ok. rf_oids (parse_relation_filter compile sql) = [table_oid i] \<longrightarrow>
       set (admitted_tables compile sql schema ok) \<subseteq> {i} \<and>
       (ok \<and> rf_names (parse_relation_filter compile sql) = [] \<and> rf_patterns (parse_relation_filter compile sql) = [] \<and>
        \<not> rf_none (parse_relation_filter compile sql) \<longrightarrow> admitted_tables compile sql schema ok = [i])"
    using only by (auto simp: admitted_tables_eq)
  with class_oid [of i "schema ! i"] oid_pred_number [OF assms(3) n assms(4), of front] oid_pred_quoted [OF assms(3) n, of front rest]
  show ?thesis by (intro exI [of _ "Cat_number (table_oid i)"]) (simp only: print_oid oid simp_thms)
qed

theorem listed_oid_selects_table_witness:
  "oid_pred (''where oid ='' @ '' '' @ cat_print (Cat_number (table_oid 1)) @ '';'') (length ''where oid ='') =
     Some (Inl (table_oid 1))"
proof -
  obtain v where v: "eval_expr (pg_class_lookup 1 (sample_schema ! 1)) (plain_col ''oid'') = Some v"
      and o: "oid_pred (''where oid ='' @ '' '' @ cat_print v @ '';'') (length ''where oid ='') = Some (Inl (table_oid 1))"
    using listed_oid_selects_table [of 1 sample_schema "'' ''" "'';''" "''where oid =''"]
    by (auto simp: sample_schema_def rx_space_byte_def blank4_def rx_word_byte_def is_alpha_def is_digit_def byte_def)
  from v have "v = Cat_number (table_oid 1)" unfolding class_oid by simp
  with o show ?thesis by (simp only:)
qed

section \<open>Where a value comes from\<close>

text \<open>A value the client wrote in the expression: a truth value, a number, or a literal.\<close>

definition written_value :: "string \<Rightarrow> cat_value \<Rightarrow> bool" where
  "written_value expr v \<longleftrightarrow>
     v = Cat_text ''t'' \<and> contains_str (to_lower expr) ''true'' \<or>
     v = Cat_text ''f'' \<and> contains_str (to_lower expr) ''false'' \<or>
     (\<exists>m. sublist m expr \<and> (v = Cat_text m \<or> v = Cat_text (single_quotes m)))"

lemma contains_sublist: "contains_str s t \<longleftrightarrow> sublist t s"
  by (auto simp: contains_str_iff sublist_def)

lemma written_mono: "sublist e expr \<Longrightarrow> written_value e v \<Longrightarrow> written_value expr v"
proof -
  assume e: "sublist e expr"
  then have "sublist t (to_lower e) \<Longrightarrow> sublist t (to_lower expr)" for t
    unfolding to_lower_def using map_mono_sublist sublist_order.order.trans by blast
  moreover have "sublist m e \<Longrightarrow> sublist m expr" for m
    using e sublist_order.order.trans by blast
  ultimately show "written_value e v \<Longrightarrow> written_value expr v"
    unfolding written_value_def contains_sublist by blast
qed

lemma sublist_substr: "sublist (substr s a b) s"
  by (simp add: substr_def) (metis sublist_drop sublist_order.order.trans sublist_take)

lemma sublist_trim_space: "sublist (trim_space s) s"
proof -
  have "prefix (trim_right p u) u" for p u
    unfolding trim_right_def by (metis rev_rev_ident suffix_dropWhile suffix_to_prefix)
  moreover have "suffix (trim_left p u) u" for p u
    unfolding trim_left_def by (rule suffix_dropWhile)
  ultimately show ?thesis
    unfolding trim_space_def using prefix_imp_sublist suffix_imp_sublist sublist_order.order.trans by blast
qed

lemma sublist_expr_col: "sublist (sel_expr (expr_col s)) s"
  by (auto simp: expr_col_def Let_def split: option.split
      intro: sublist_trim_space sublist_order.order.trans [OF sublist_trim_space]
        sublist_order.order.trans [OF sublist_trim_space sublist_order.order.trans [OF sublist_take sublist_trim_space]])

lemma group_sublist: "rx_group_of r k s = Some m \<Longrightarrow> sublist m s"
  by (auto simp: rx_group_of_def group_text_def sublist_substr split: option.split)

lemma case_arms_sublist: "arm \<in> set (case_arms expr spans) \<Longrightarrow> t \<in> arm_texts arm \<Longrightarrow> sublist t expr"
  using case_arms_texts sublist_substr by fastforce

lemma eval_arms_value:
  "eval_arms_with ev operand opv arms = Some v \<Longrightarrow> \<exists>arm \<in> set arms. \<exists>r \<in> arm_texts arm. ev (expr_col r) = Some v"
  by (induction ev operand opv arms rule: eval_arms_with.induct) (auto split: if_splits)

lemma eval_case_value:
  assumes "eval_case_with ev expr = Some v"
  obtains r where "ev (expr_col r) = Some v" and "sublist r expr" and "length r < length expr"
proof -
  from assms obtain operand arms where p: "case_parts expr = Some (operand, arms)"
      and a: "eval_arms_with ev operand (if operand \<noteq> [] then ev (expr_col operand) else None) arms = Some v"
    by (auto simp: eval_case_with_def Let_def split: option.splits)
  from eval_arms_value [OF a] obtain arm r where r: "arm \<in> set arms" "r \<in> arm_texts arm" "ev (expr_col r) = Some v"
    by blast
  have "sublist r expr"
    using p r(1,2) case_arms_sublist by (auto simp: case_parts_def Let_def split: if_splits)
  with r case_parts_shorter(2) [OF p r(1,2)] that show ?thesis by blast
qed

lemma eval_expr_source: "eval_expr get c = Some v \<Longrightarrow> v \<in> ran get \<or> written_value (sel_expr c) v"
proof (induction get c rule: eval_expr.induct)
  case (1 get c)
  let ?e = "trim_space (sel_expr c)"
  note up = written_mono [OF sublist_trim_space]
  from "1.prems" have e: "eval_expr_with get (eval_expr get) c = Some v" by (simp add: eval_expr.simps)
  consider (bool) "written_value ?e v" | (look) key where "get key = Some v" | (arm) "eval_case_with (eval_expr get) ?e = Some v"
  proof -
    have t: "to_lower ?e = ''true'' \<Longrightarrow> written_value ?e (Cat_text ''t'')"
        "to_lower ?e = ''false'' \<Longrightarrow> written_value ?e (Cat_text ''f'')"
      by (simp_all add: written_value_def contains_sublist)
    have n: "written_value ?e (Cat_text ?e)"
      unfolding written_value_def using sublist_order.order.refl by blast
    have q: "rx_group_of literal_re 1 ?e = Some m \<Longrightarrow> written_value ?e (Cat_text (single_quotes m))" for m
      unfolding written_value_def using group_sublist by blast
    from e show thesis
      using t n q bool look arm
      by (auto simp: eval_expr_with_def Let_def split: if_splits option.splits)
  qed
  then show ?case
  proof cases
    case bool
    then show ?thesis using up by blast
  next
    case (look key)
    then show ?thesis by (auto simp: ran_def)
  next
    case arm
    then obtain r where r: "eval_expr get (expr_col r) = Some v" "sublist r ?e" "length r < length ?e"
      by (rule eval_case_value)
    have "length (sel_expr (expr_col r)) < length (sel_expr c)"
      using length_expr_col [of r] r(3) length_trim_space [of "sel_expr c"] by simp
    from "1.IH" [OF this r(1)] show ?thesis
      using written_mono [OF sublist_expr_col] written_mono [OF r(2)] up by blast
  qed
qed

text \<open>What a row for a cached column holds: its table, its place, its name, and fixed facts.\<close>

definition fixed_facts :: "cat_value set" where
  "fixed_facts =
     Cat_text ` {''public'', ''redash'', ''BASE TABLE'', ''r'', ''heap'', ''p'', ''d'', ''t'', ''f'', ''text'', ''x'', ''i'', [], ''YES''} \<union>
     Cat_number ` {2200, 10, 2, -1, 0, 25, 100}"

definition table_facts :: "nat \<Rightarrow> schema_table \<Rightarrow> cat_value set" where
  "table_facts i t = {Cat_number (table_oid i), Cat_text (st_name t), Cat_number (int (length (st_columns t)))}"

lemma class_lookup_facts: "pg_class_lookup i t key = Some v \<Longrightarrow> v \<in> table_facts i t \<union> fixed_facts"
  by (auto simp: pg_class_lookup_def table_facts_def fixed_facts_def split: if_splits)

lemma attribute_lookup_facts:
  "pg_attribute_lookup i t ord name key = Some v \<Longrightarrow>
   v \<in> insert (Cat_text name) (insert (Cat_number (int ord)) (table_facts i t \<union> fixed_facts))"
  using class_lookup_facts [of i t key v]
  by (auto simp: pg_attribute_lookup_def table_facts_def fixed_facts_def oid_text_def split: if_splits)

text \<open>The expressions of a select list are pieces of the query, the default ones plain names.\<close>

lemma split_commas_sublist: "piece \<in> set (split_top_level_commas d s) \<Longrightarrow> sublist piece s"
proof -
  have "piece \<in> set (split_commas_from s m depth start i) \<Longrightarrow> sublist piece s" for m depth start i
  proof (induction s m depth start i rule: split_commas_from.induct)
    case (1 s m depth start i)
    then show ?case
      by (subst (asm) split_commas_from.simps) (auto simp: sublist_substr split: if_splits)
  qed
  then show "piece \<in> set (split_top_level_commas d s) \<Longrightarrow> ?thesis"
    unfolding split_top_level_commas_def by blast
qed

lemma split_alias_sublist: "sublist (fst (cat_split_alias item)) item"
  using sublist_order.order.trans [OF sublist_trim_space sublist_take]
  by (auto simp: cat_split_alias_def Let_def split: option.splits list.splits)

lemma parse_sel_col_sublist: "parse_sel_col_with f item = Some c \<Longrightarrow> sublist (sel_expr c) item"
proof -
  assume "parse_sel_col_with f item = Some c"
  then have "sel_expr c = sel_expr (expr_col (fst (cat_split_alias (trim_space item))))"
    by (auto simp: parse_sel_col_with_def Let_def case_prod_beta split: if_splits)
  moreover have "sublist (sel_expr (expr_col (fst (cat_split_alias (trim_space item))))) item"
    using sublist_expr_col split_alias_sublist sublist_trim_space sublist_order.order.trans by meson
  ultimately show ?thesis by simp
qed

lemma requested_sublist:
  assumes "c \<in> set (requested_columns sql defaults)"
  shows "sublist (sel_expr c) sql \<or> c \<in> set defaults"
proof (rule disjCI)
  assume "c \<notin> set defaults"
  with assms obtain l item where l: "cat_select_list sql = Some l"
      and item: "item \<in> set (split_top_level_commas Postgres (trim_space l))" "parse_sel_col_with expr_name item = Some c"
    by (auto simp: requested_columns_def requested_columns_with_def Let_def map_filter_def split: option.splits if_splits)
  have "sublist l sql" using l by (auto simp: cat_select_list_def Let_def sublist_substr split: option.splits)
  then show "sublist (sel_expr c) sql"
    using parse_sel_col_sublist [OF item(2)] split_commas_sublist [OF item(1)] sublist_trim_space [of l]
      sublist_order.order.trans by blast
qed

definition default_names :: "string list" where
  "default_names =
     [''table_schema'', ''table_name'', ''table_type'', ''column_name'', ''ordinal_position'', ''data_type'',
      ''is_nullable'', ''attname'', ''attnum'', ''atttypid'', ''oid'']"

lemma default_names_plain:
  "list_all (\<lambda>n. trim_space n = n \<and> n \<noteq> [] \<and> to_lower n \<notin> {''true'', ''false'', ''null''} \<and> rx_matches ident_re n) default_names"
  by code_simp

lemma default_value: "n \<in> set default_names \<Longrightarrow> eval_expr get (plain_col n) = Some v \<Longrightarrow> v \<in> ran get"
  using default_names_plain
  by (subst (asm) eval_expr.simps) (auto simp: eval_expr_with_def plain_col_def list_all_iff ran_def Let_def split: if_splits)

lemma requested_value:
  assumes "c \<in> set (requested_columns sql (map plain_col names))" and "set names \<subseteq> set default_names"
    and "eval_expr get c = Some v"
  shows "v \<in> ran get \<or> written_value sql v"
  using requested_sublist [OF assms(1)] eval_expr_source [OF assms(3)] written_mono default_value assms(2,3) by fastforce

lemma row_for_Some:
  assumes "Some x \<in> set (map (map_option cat_print) (row_for cols get))"
  obtains c v where "c \<in> set cols" and "eval_expr get c = Some v" and "x = cat_print v"
proof -
  from assms obtain c where "c \<in> set cols" "Some x = map_option cat_print (eval_expr get c)"
    by (auto simp: row_for_def)
  with that show ?thesis by (metis map_option_eq_Some)
qed

lemma class_values:
  assumes "cols = requested_columns sql (map plain_col names)" "set names \<subseteq> set default_names"
    and "r \<in> set (data_rows (send_result (output_names cols) (table_rows compile sql schema cols ok)))"
  shows "\<exists>i < length schema. \<forall>x. Some x \<in> set r \<longrightarrow>
    (\<exists>v. x = cat_print v \<and> (v \<in> table_facts i (schema ! i) \<union> fixed_facts \<or> written_value sql v))"
proof -
  from assms(3) obtain i where i: "i < length schema"
      and r: "r = map (map_option cat_print) (row_for cols (pg_class_lookup i (schema ! i)))"
    by (auto simp: data_rows_result table_rows_def admitted_tables_eq split: if_splits)
  have "\<exists>v. x = cat_print v \<and> (v \<in> table_facts i (schema ! i) \<union> fixed_facts \<or> written_value sql v)"
    if "Some x \<in> set r" for x
  proof -
    from that obtain c v where c: "c \<in> set cols" "eval_expr (pg_class_lookup i (schema ! i)) c = Some v" "x = cat_print v"
      unfolding r by (rule row_for_Some)
    from requested_value [OF c(1) [unfolded assms(1)] assms(2) c(2)] c(3) class_lookup_facts show ?thesis
      by (fastforce simp: ran_def)
  qed
  with i show ?thesis by blast
qed

lemma column_values:
  assumes "cols = requested_columns sql (map plain_col names)" "set names \<subseteq> set default_names"
    and "r \<in> set (data_rows (send_result (output_names cols) (column_rows compile sql schema cols ok)))"
  shows "\<exists>i < length schema. \<exists>k < length (st_columns (schema ! i)). \<forall>x. Some x \<in> set r \<longrightarrow>
    (\<exists>v. x = cat_print v \<and> (v \<in> {Cat_text (sc_name (st_columns (schema ! i) ! k)), Cat_number (int k + 1)} \<union>
       table_facts i (schema ! i) \<union> fixed_facts \<or> written_value sql v))"
proof -
  from assms(3) obtain i k where i: "i < length schema" "k < length (st_columns (schema ! i))"
      and r: "r = map (map_option cat_print)
        (row_for cols (pg_attribute_lookup i (schema ! i) (k + 1) (sc_name (st_columns (schema ! i) ! k))))"
    by (auto simp: data_rows_result column_rows_def admitted_tables_eq in_set_enumerate_eq split: if_splits)
  let ?get = "pg_attribute_lookup i (schema ! i) (k + 1) (sc_name (st_columns (schema ! i) ! k))"
  have "\<exists>v. x = cat_print v \<and> (v \<in> {Cat_text (sc_name (st_columns (schema ! i) ! k)), Cat_number (int k + 1)} \<union>
      table_facts i (schema ! i) \<union> fixed_facts \<or> written_value sql v)"
    if "Some x \<in> set r" for x
  proof -
    from that obtain c v where c: "c \<in> set cols" "eval_expr ?get c = Some v" "x = cat_print v"
      unfolding r by (rule row_for_Some)
    from requested_value [OF c(1) [unfolded assms(1)] assms(2) c(2)]
    have "v \<in> {Cat_text (sc_name (st_columns (schema ! i) ! k)), Cat_number (int k + 1)} \<union>
        table_facts i (schema ! i) \<union> fixed_facts \<or> written_value sql v"
      by (auto simp: ran_def dest!: attribute_lookup_facts)
    with c(3) show ?thesis by blast
  qed
  with i show ?thesis by blast
qed

text \<open>
  Property C23: the emulated catalog never guesses. Every value in a row that lists a table is a fact of
  that one table (its identifier, its name, the number of its columns), or a fixed fact that holds of
  every table the proxy presents, or text that the client itself wrote in the query; in a row that lists
  a column, also the name and the place of that column. Everything else is null, however \<open>CASE\<close>
  expressions are nested; no value of another table or column appears in the row.
\<close>

theorem catalog_values_known:
  "(\<forall>ms \<in> {handle_pg_class_query compile sql schema, handle_pg_info_schema_tables compile sql schema}.
      \<forall>r \<in> set (data_rows ms). \<exists>i < length schema. \<forall>x. Some x \<in> set r \<longrightarrow>
        (\<exists>v. x = cat_print v \<and> (v \<in> table_facts i (schema ! i) \<union> fixed_facts \<or> written_value sql v))) \<and>
   (\<forall>ms \<in> {handle_pg_attribute compile sql schema, handle_pg_info_schema_columns compile sql schema}.
      \<forall>r \<in> set (data_rows ms). \<exists>i < length schema. \<exists>k < length (st_columns (schema ! i)). \<forall>x. Some x \<in> set r \<longrightarrow>
        (\<exists>v. x = cat_print v \<and>
           (v \<in> {Cat_text (sc_name (st_columns (schema ! i) ! k)), Cat_number (int k + 1)} \<union>
              table_facts i (schema ! i) \<union> fixed_facts \<or> written_value sql v)))"
proof -
  have names: "set [''oid'', ''table_name'', ''table_schema''] \<subseteq> set default_names"
      "set [''table_schema'', ''table_name'', ''table_type''] \<subseteq> set default_names"
      "set [''attname'', ''attnum'', ''atttypid''] \<subseteq> set default_names"
      "set [''table_name'', ''column_name'', ''ordinal_position'', ''data_type'', ''is_nullable''] \<subseteq> set default_names"
    by (simp_all add: default_names_def)
  have t: "\<forall>r \<in> set (data_rows (send_result (output_names (requested_columns sql (map plain_col ns)))
      (table_rows compile sql schema (requested_columns sql (map plain_col ns)) ok))). \<exists>i < length schema. \<forall>x. Some x \<in> set r \<longrightarrow>
        (\<exists>v. x = cat_print v \<and> (v \<in> table_facts i (schema ! i) \<union> fixed_facts \<or> written_value sql v))"
    if "set ns \<subseteq> set default_names" for ns ok
    using class_values [OF refl that] by blast
  have c: "\<forall>r \<in> set (data_rows (send_result (output_names (requested_columns sql (map plain_col ns)))
      (column_rows compile sql schema (requested_columns sql (map plain_col ns)) ok))).
        \<exists>i < length schema. \<exists>k < length (st_columns (schema ! i)). \<forall>x. Some x \<in> set r \<longrightarrow>
        (\<exists>v. x = cat_print v \<and>
           (v \<in> {Cat_text (sc_name (st_columns (schema ! i) ! k)), Cat_number (int k + 1)} \<union>
              table_facts i (schema ! i) \<union> fixed_facts \<or> written_value sql v))"
    if "set ns \<subseteq> set default_names" for ns ok
    using column_values [OF refl that] by blast
  show ?thesis
    unfolding handle_pg_class_query_def handle_pg_info_schema_tables_def handle_pg_attribute_def
        handle_pg_info_schema_columns_def Let_def
    using t [OF names(1)] t [OF names(2)] c [OF names(3)] c [OF names(4)]
    by (intro conjI ballI) (elim insertE emptyE; simp only:)+
qed

theorem catalog_values_known_witness:
  "\<exists>v. ''orders'' = cat_print v \<and> (\<exists>i < 2. v \<in> table_facts i (sample_schema ! i) \<union> fixed_facts \<or> written_value ''SELECT relname FROM pg_class'' v)"
proof -
  define ms where "ms = handle_pg_class_query (\<lambda>_. None) ''SELECT relname FROM pg_class'' sample_schema"
  have r: "data_rows ms = [[Some ''users''], [Some ''orders'']]" unfolding ms_def by code_simp
  then have row: "[Some ''orders''] \<in> set (data_rows ms)" by simp
  have ms: "ms \<in> {handle_pg_class_query (\<lambda>_. None) ''SELECT relname FROM pg_class'' sample_schema,
      handle_pg_info_schema_tables (\<lambda>_. None) ''SELECT relname FROM pg_class'' sample_schema}"
    by (simp only: ms_def insertI1)
  have two: "length sample_schema = 2" by (simp add: sample_schema_def)
  obtain i where "i < 2" and "\<forall>x. Some x \<in> set [Some ''orders''] \<longrightarrow> (\<exists>v. x = cat_print v \<and>
      (v \<in> table_facts i (sample_schema ! i) \<union> fixed_facts \<or> written_value ''SELECT relname FROM pg_class'' v))"
    using bspec [OF bspec [OF catalog_values_known [THEN conjunct1] ms] row] unfolding two by blast
  moreover have "Some ''orders'' \<in> set [Some ''orders'']" by simp
  ultimately show ?thesis by blast
qed

section \<open>What a query lists\<close>

text \<open>The verdict of the predicates on a column: nothing excludes the kind, and a positive one, if any, names it.\<close>

definition kind_admitted :: "(string \<Rightarrow> string) \<Rightarrow> string \<Rightarrow> kind_predicate list \<Rightarrow> bool" where
  "kind_admitted norm want ps \<longleftrightarrow>
     (\<forall>p \<in> set ps. kp_negated p \<longrightarrow> \<not> names_kind norm want p) \<and>
     ((\<exists>p \<in> set ps. \<not> kp_negated p) \<longrightarrow> (\<exists>p \<in> set ps. \<not> kp_negated p \<and> names_kind norm want p))"

lemma relkind_verdict:
  "relkind_admits_tables sql = kind_admitted (\<lambda>s. s) ''r'' (column_predicates sql (kind_pred_re ''relkind''))"
  "table_type_admits_base_tables sql = kind_admitted to_upper ''BASE TABLE'' (column_predicates sql (kind_pred_re ''table_type''))"
  by (simp_all add: relkind_admits_tables_def table_type_admits_base_tables_def predicates_admit_iff kind_admitted_def)

lemma length_table_rows:
  "length (table_rows compile sql schema cols ok) = (if ok then card (tables_selected (parse_relation_filter compile sql) schema) else 0)"
  by (simp add: table_rows_def admitted_tables_eq length_selected)

lemma length_column_rows:
  "length (column_rows compile sql schema cols ok) =
    (if ok then \<Sum>i \<in> tables_selected (parse_relation_filter compile sql) schema. length (st_columns (schema ! i)) else 0)"
proof -
  define sel where "sel = tables_selected (parse_relation_filter compile sql) schema"
  define xs where "xs = filter (\<lambda>i. i \<in> sel) [0..<length schema]"
  have set: "set xs = sel" using tables_selected_bound [of "parse_relation_filter compile sql" schema] unfolding xs_def sel_def by auto
  have "length (column_rows compile sql schema cols ok) = (if ok then sum_list (map (\<lambda>i. length (st_columns (schema ! i))) xs) else 0)"
    by (simp add: column_rows_def admitted_tables_eq length_concat comp_def case_prod_beta xs_def sel_def)
  also have "sum_list (map (\<lambda>i. length (st_columns (schema ! i))) xs) = (\<Sum>i \<in> set xs. length (st_columns (schema ! i)))"
    by (rule sum_list_distinct_conv_sum_set) (simp add: xs_def)
  finally show ?thesis unfolding set sel_def .
qed



section \<open>Where the reading is too coarse\<close>

text \<open>
  The predicate on an oid is read without regard to the relation it qualifies: a query that selects the
  namespace \<open>public\<close> by its oid, the number the proxy itself reports in \<open>relnamespace\<close>, lists no table.
\<close>

lemma namespace_oid_hides_tables:
  "data_rows (handle_pg_class_query (\<lambda>_. None)
     ''SELECT relname FROM pg_class c, pg_namespace n WHERE n.oid = 2200'' sample_schema) = []"
  "pg_class_lookup 0 (sample_schema ! 0) ''relnamespace'' = Some (Cat_number 2200)"
  by code_simp+

text \<open>
  A null among the items of a \<open>NOT IN\<close> is passed over, where SQL makes the condition unknown; the comment
  of \<open>evalCond\<close> says a null operand is not satisfied, as in SQL.
\<close>

lemma not_in_null_satisfied:
  "eval_cond (pg_class_lookup 0 (sample_schema ! 0)) ''relkind not in (null)''"
  "eval_expr (pg_class_lookup 0 (sample_schema ! 0)) (expr_col ''null'') = None"
  by code_simp+

end
