(* ===== verification/Pg_Server.thy ===== *)
theory Pg_Server
  imports Wire_Prelude "HOL-Library.Word"
begin

text \<open>
  The connection a session reads through and the directory of sessions:
  \<open>peekConn\<close> and \<open>watchDisconnect\<close> of \<open>internal/proxy/session.go\<close>, and \<open>internal/proxy/server.go\<close> with the
  accept loop, the limit on connections and the cancellation of a query by its key.
\<close>

section \<open>The connection behind the watcher\<close>

text \<open>The bytes pushed back, and those the socket has still to deliver.\<close>

record peek_conn =
  unread :: string
  socket :: string

text \<open>A read into a buffer of \<open>n\<close> bytes; \<open>got\<close> is what the socket has ready, at least one byte.\<close>

definition read_underlying :: "nat \<Rightarrow> nat \<Rightarrow> peek_conn \<Rightarrow> string \<times> peek_conn" where
  "read_underlying n got c =
     (let k = min n got in (take k (socket c), c\<lparr>socket := drop k (socket c)\<rparr>))"

definition peek_read :: "nat \<Rightarrow> nat \<Rightarrow> peek_conn \<Rightarrow> string \<times> peek_conn" where
  "peek_read n got c =
     (if unread c \<noteq> [] then (take n (unread c), c\<lparr>unread := drop n (unread c)\<rparr>)
      else read_underlying n got c)"

definition push_back :: "string \<Rightarrow> peek_conn \<Rightarrow> peek_conn" where
  "push_back b c = c\<lparr>unread := b @ unread c\<rparr>"

text \<open>
  The watcher while a query is in flight: each event is bytes that arrived, the deadline of \<open>stop\<close>, or
  a broken socket, which cancels the query. The result tells whether it cancelled.
\<close>

datatype watch_event = Arrived nat | Stopped | Peer_gone

fun watch_disconnect :: "watch_event list \<Rightarrow> peek_conn \<Rightarrow> bool \<times> peek_conn" where
  "watch_disconnect [] c = (False, c)"
| "watch_disconnect (Arrived got # evs) c =
     (let (buf, c1) = read_underlying 512 got c in
      watch_disconnect evs (if buf \<noteq> [] then push_back buf c1 else c1))"
| "watch_disconnect (Stopped # evs) c = (False, c)"
| "watch_disconnect (Peer_gone # evs) c = (True, c)"

text \<open>What the protocol reader will see, in order.\<close>

definition pending :: "peek_conn \<Rightarrow> string" where
  "pending c = unread c @ socket c"

lemma peek_read_pending:
  "peek_read n got c = (data, c') \<Longrightarrow> pending c = data @ pending c'"
  by (auto simp: peek_read_def read_underlying_def pending_def Let_def split: if_splits)

text \<open>The chunks the socket delivers to reads of these sizes, each of at most 512 bytes.\<close>

fun chunks :: "nat list \<Rightarrow> string \<Rightarrow> string list" where
  "chunks [] s = []"
| "chunks (k # ks) s = take (min 512 k) s # chunks ks (drop (min 512 k) s)"

lemma drop_taken: "drop (length (take m s) + n) s = drop (m + n) s"
  by (cases "m \<le> length s") simp_all

lemma watch_arrivals:
  "watch_disconnect (map Arrived ks @ [Stopped]) c =
     (False, \<lparr>unread = concat (rev (chunks ks (socket c))) @ unread c,
              socket = drop (length (concat (chunks ks (socket c)))) (socket c)\<rparr>)"
proof (induction ks arbitrary: c)
  case Nil
  then show ?case by (cases c) simp
next
  case (Cons k ks)
  let ?m = "min 512 k"
  have "watch_disconnect (map Arrived (k # ks) @ [Stopped]) c =
      watch_disconnect (map Arrived ks @ [Stopped])
        \<lparr>unread = take ?m (socket c) @ unread c, socket = drop ?m (socket c)\<rparr>"
    by (cases c) (simp add: read_underlying_def push_back_def Let_def)
  also have "\<dots> = (False, \<lparr>unread = concat (rev (chunks (k # ks) (socket c))) @ unread c,
      socket = drop (length (concat (chunks (k # ks) (socket c)))) (socket c)\<rparr>)"
    using drop_taken [of ?m "socket c" "length (concat (chunks ks (drop ?m (socket c))))"]
    by (simp add: Cons.IH add.commute del: length_take)
  finally show ?case .
qed

lemma concat_chunks: "concat (chunks ks s) = take (length (concat (chunks ks s))) s"
proof (induction ks arbitrary: s)
  case (Cons k ks)
  let ?m = "min 512 k"
  let ?n = "length (concat (chunks ks (drop ?m s)))"
  have "concat (chunks (k # ks) s) = take ?m s @ take ?n (drop ?m s)"
    using Cons.IH [of "drop ?m s"] by simp
  also have "\<dots> = take (?m + ?n) s" by (simp add: take_add)
  also have "\<dots> = take (length (concat (chunks (k # ks) s))) s"
    by (cases "?m \<le> length s") (simp_all add: take_all_iff [THEN iffD2])
  finally show ?case .
qed simp

text \<open>
  Property C26: while a query is in flight the watcher keeps what the client sends for the protocol
  reader, but in the wrong order: chunks that arrive in the order they were sent are handed over last
  chunk first, in front of the rest. With at most one chunk the order is kept; two chunks, such as a
  pipelined message of more than 512 bytes, are swapped.
\<close>

theorem watcher_reverses_chunks:
  "pending (snd (watch_disconnect (map Arrived ks @ [Stopped]) \<lparr>unread = [], socket = s\<rparr>)) =
     concat (rev (chunks ks s)) @ drop (length (concat (chunks ks s))) s \<and>
   (if length ks \<le> 1
    then pending (snd (watch_disconnect (map Arrived ks @ [Stopped]) \<lparr>unread = [], socket = s\<rparr>)) = s
    else True) \<and>
   pending (snd (watch_disconnect [Arrived 2, Arrived 1, Stopped] \<lparr>unread = [], socket = ''abcd''\<rparr>)) = ''cabd''"
proof -
  have one: "concat (rev (chunks ks s)) @ drop (length (concat (chunks ks s))) s = s" if "length ks \<le> 1"
  proof (cases ks)
    case (Cons k ks')
    with that drop_taken [of "min 512 k" s 0] show ?thesis by (simp del: length_take)
  qed simp
  have two: "watch_disconnect [Arrived 2, Arrived 1, Stopped] \<lparr>unread = [], socket = ''abcd''\<rparr> =
      (False, \<lparr>unread = ''cab'', socket = ''d''\<rparr>)"
    by (simp add: read_underlying_def push_back_def)
  show ?thesis
    unfolding two using one by (simp add: watch_arrivals pending_def)
qed

section \<open>The server\<close>

definition max_concurrent_conns :: nat where
  "max_concurrent_conns = 200"

definition accept_backoff_min :: int where
  "accept_backoff_min = 5000000"

definition accept_backoff_max :: int where
  "accept_backoff_max = 1000000000"

text \<open>The delay after a failed Accept, from the previous one; a success resets it to zero.\<close>

definition next_accept_backoff :: "int \<Rightarrow> int" where
  "next_accept_backoff d = (if d = 0 then accept_backoff_min else min (2 * d) accept_backoff_max)"

text \<open>
  A session is known by its number \<open>nat\<close>; \<open>slot\<close> is what it holds: its process id and secret, whether
  a query is in flight (\<open>queryCancel\<close> is set) and how many of its queries have been cancelled.
\<close>

record slot =
  pid :: "32 word"
  secret :: string
  in_flight :: bool
  cancellations :: nat

record server =
  conn_seq :: "32 word"
  accepted :: nat
  slots :: "nat \<rightharpoonup> slot"
  cancelers :: "32 word \<rightharpoonup> string \<times> nat"

definition new_server :: server where
  "new_server = \<lparr>conn_seq = 0, accepted = 0, slots = Map.empty, cancelers = Map.empty\<rparr>"

definition register_canceler :: "32 word \<Rightarrow> string \<Rightarrow> nat \<Rightarrow> server \<Rightarrow> server" where
  "register_canceler p sec sid s = s\<lparr>cancelers := (cancelers s)(p \<mapsto> (sec, sid))\<rparr>"

definition deregister_canceler :: "32 word \<Rightarrow> server \<Rightarrow> server" where
  "deregister_canceler p s = s\<lparr>cancelers := (cancelers s)(p := None)\<rparr>"

definition cancel_in_flight :: "nat \<Rightarrow> server \<Rightarrow> server" where
  "cancel_in_flight sid s =
     (case slots s sid of
        None \<Rightarrow> s
      | Some sl \<Rightarrow>
          if in_flight sl then s\<lparr>slots := (slots s)(sid \<mapsto> sl\<lparr>cancellations := cancellations sl + 1\<rparr>)\<rparr>
          else s)"

definition cancel_by_key :: "32 word \<Rightarrow> string \<Rightarrow> server \<Rightarrow> server" where
  "cancel_by_key p sec s =
     (case cancelers s p of
        None \<Rightarrow> s
      | Some (sec', sid) \<Rightarrow> if sec' \<noteq> sec then s else cancel_in_flight sid s)"

text \<open>\<open>handleConn\<close>: its start with the random secret, and what it defers to its end.\<close>

definition open_conn :: "string \<Rightarrow> server \<Rightarrow> server" where
  "open_conn sec s =
     (let p = conn_seq s + 1; sid = accepted s in
      register_canceler p sec sid
        (s\<lparr>conn_seq := p, accepted := sid + 1,
           slots := (slots s)(sid \<mapsto> \<lparr>pid = p, secret = sec, in_flight = False, cancellations = 0\<rparr>)\<rparr>))"

definition close_conn :: "nat \<Rightarrow> server \<Rightarrow> server" where
  "close_conn sid s =
     (case slots s sid of
        None \<Rightarrow> s
      | Some sl \<Rightarrow> deregister_canceler (pid sl) (s\<lparr>slots := (slots s)(sid := None)\<rparr>))"

definition set_in_flight :: "nat \<Rightarrow> bool \<Rightarrow> server \<Rightarrow> server" where
  "set_in_flight sid b s =
     (case slots s sid of
        None \<Rightarrow> s
      | Some sl \<Rightarrow> s\<lparr>slots := (slots s)(sid \<mapsto> sl\<lparr>in_flight := b\<rparr>)\<rparr>)"

text \<open>
  The interleavings of the connections: a connection is handled only while fewer than the limit are, a
  query starts and ends, a connection ends, and a cancel request arrives on a connection of its own.
\<close>

inductive server_step :: "server \<Rightarrow> server \<Rightarrow> bool" where
  accepts: "card (dom (slots s)) < max_concurrent_conns \<Longrightarrow> server_step s (open_conn sec s)"
| query_starts: "slots s sid \<noteq> None \<Longrightarrow> server_step s (set_in_flight sid True s)"
| query_ends: "slots s sid \<noteq> None \<Longrightarrow> server_step s (set_in_flight sid False s)"
| closes: "slots s sid \<noteq> None \<Longrightarrow> server_step s (close_conn sid s)"
| cancel_request: "server_step s (cancel_by_key p sec s)"

inductive server_reachable :: "server \<Rightarrow> bool" where
  started: "server_reachable new_server"
| stepped: "server_reachable s \<Longrightarrow> server_step s s' \<Longrightarrow> server_reachable s'"

section \<open>The invariant of the directory\<close>

text \<open>While the process ids have not wrapped around, a session and its entry name each other.\<close>

definition server_inv :: "server \<Rightarrow> bool" where
  "server_inv s \<longleftrightarrow>
     finite (dom (slots s)) \<and> card (dom (slots s)) \<le> max_concurrent_conns \<and>
     conn_seq s = of_nat (accepted s) \<and>
     (\<forall>sid sl. slots s sid = Some sl \<longrightarrow> sid < accepted s \<and> pid sl = of_nat (sid + 1)) \<and>
     (accepted s < 2 ^ 32 \<longrightarrow>
       (\<forall>sid sl. slots s sid = Some sl \<longrightarrow> cancelers s (pid sl) = Some (secret sl, sid)) \<and>
       (\<forall>p sec sid. cancelers s p = Some (sec, sid) \<longrightarrow>
          (\<exists>sl. slots s sid = Some sl \<and> pid sl = p \<and> secret sl = sec)))"

lemma server_inv_entry:
  "server_inv s \<Longrightarrow> accepted s < 2 ^ 32 \<Longrightarrow> cancelers s p = Some (sec, sid) \<Longrightarrow>
   \<exists>sl. slots s sid = Some sl \<and> pid sl = p \<and> secret sl = sec"
  unfolding server_inv_def by blast

lemma server_inv_slot:
  "server_inv s \<Longrightarrow> accepted s < 2 ^ 32 \<Longrightarrow> slots s sid = Some sl \<Longrightarrow> cancelers s (pid sl) = Some (secret sl, sid)"
  unfolding server_inv_def by blast

lemma pid_inj:
  assumes "(of_nat (a + 1) :: 32 word) = of_nat (b + 1)" and "a < n" and "b < n" and "n < 2 ^ 32"
  shows "a = b"
proof -
  have "unat (of_nat (a + 1) :: 32 word) = a + 1" "unat (of_nat (b + 1) :: 32 word) = b + 1"
    using assms(2-4) by (simp_all only: unat_of_nat) simp_all
  with assms(1) show ?thesis by simp
qed

lemma new_server_inv: "server_inv new_server"
  by (simp add: server_inv_def new_server_def)

lemma open_conn_inv:
  assumes "server_inv s" and "card (dom (slots s)) < max_concurrent_conns"
  shows "server_inv (open_conn sec s)"
proof -
  have fresh: "slots s (accepted s) = None"
    using assms(1) by (cases "slots s (accepted s)") (auto simp: server_inv_def)
  have distinct: "of_nat (sid + 1) \<noteq> (of_nat (accepted s + 1) :: 32 word)"
    if "sid < accepted s" "accepted s + 1 < 2 ^ 32" for sid
    using pid_inj [of sid "accepted s" "accepted s + 1"] that by auto
  show ?thesis
    unfolding server_inv_def
  proof (intro conjI)
    show "finite (dom (slots (open_conn sec s)))"
      using assms(1) by (simp add: open_conn_def register_canceler_def Let_def server_inv_def)
    show "card (dom (slots (open_conn sec s))) \<le> max_concurrent_conns"
      using assms fresh by (simp add: open_conn_def register_canceler_def Let_def server_inv_def
          card_insert_if domIff)
    show "conn_seq (open_conn sec s) = of_nat (accepted (open_conn sec s))"
      using assms(1) by (simp add: open_conn_def register_canceler_def Let_def server_inv_def)
    show "\<forall>sid sl. slots (open_conn sec s) sid = Some sl \<longrightarrow>
        sid < accepted (open_conn sec s) \<and> pid sl = of_nat (sid + 1)"
      using assms(1) by (auto simp: open_conn_def register_canceler_def Let_def server_inv_def
          less_Suc_eq split: if_splits)
    show "accepted (open_conn sec s) < 2 ^ 32 \<longrightarrow>
       (\<forall>sid sl. slots (open_conn sec s) sid = Some sl \<longrightarrow> cancelers (open_conn sec s) (pid sl) = Some (secret sl, sid)) \<and>
       (\<forall>p sec' sid. cancelers (open_conn sec s) p = Some (sec', sid) \<longrightarrow>
          (\<exists>sl. slots (open_conn sec s) sid = Some sl \<and> pid sl = p \<and> secret sl = sec'))"
    proof
      assume "accepted (open_conn sec s) < 2 ^ 32"
      then have small: "accepted s + 1 < 2 ^ 32" by (simp add: open_conn_def register_canceler_def Let_def)
      let ?p = "of_nat (accepted s + 1) :: 32 word"
      have p: "conn_seq s + 1 = ?p" using assms(1) by (simp add: server_inv_def)
      have old: "slots s sid = Some sl \<Longrightarrow> pid sl \<noteq> ?p \<and> cancelers s (pid sl) = Some (secret sl, sid)" for sid sl
        using assms(1) distinct [of sid] small by (auto simp: server_inv_def)
      have entry: "cancelers s q = Some (sec', sid) \<Longrightarrow>
          \<exists>sl. slots s sid = Some sl \<and> pid sl = q \<and> secret sl = sec'" for q sec' sid
        using assms(1) small by (auto simp: server_inv_def)
      have slots': "slots (open_conn sec s) = (slots s)(accepted s \<mapsto> \<lparr>pid = ?p, secret = sec, in_flight = False, cancellations = 0\<rparr>)"
        and canc': "cancelers (open_conn sec s) = (cancelers s)(?p \<mapsto> (sec, accepted s))"
        unfolding open_conn_def register_canceler_def Let_def p by simp_all
      show "(\<forall>sid sl. slots (open_conn sec s) sid = Some sl \<longrightarrow> cancelers (open_conn sec s) (pid sl) = Some (secret sl, sid)) \<and>
       (\<forall>p sec' sid. cancelers (open_conn sec s) p = Some (sec', sid) \<longrightarrow>
          (\<exists>sl. slots (open_conn sec s) sid = Some sl \<and> pid sl = p \<and> secret sl = sec'))"
        unfolding slots' canc' using old entry fresh by (auto split: if_splits) (metis option.distinct(1))+
    qed
  qed
qed

text \<open>A step that changes only the flags of one session keeps the invariant.\<close>

lemma flags_inv:
  assumes "server_inv s" and "slots s sid = Some sl" and "pid sl' = pid sl" and "secret sl' = secret sl"
  shows "server_inv (s\<lparr>slots := (slots s)(sid \<mapsto> sl')\<rparr>)"
proof -
  have "dom ((slots s)(sid \<mapsto> sl')) = dom (slots s)" using assms(2) by auto
  with assms show ?thesis by (fastforce simp: server_inv_def)
qed

lemma close_conn_inv:
  assumes "server_inv s"
  shows "server_inv (close_conn sid s)"
proof (cases "slots s sid")
  case None
  with assms show ?thesis by (simp add: close_conn_def)
next
  case (Some sl)
  let ?s = "close_conn sid s"
  have s': "slots ?s = (slots s)(sid := None)" "cancelers ?s = (cancelers s)(pid sl := None)"
      "accepted ?s = accepted s" "conn_seq ?s = conn_seq s"
    using Some by (simp_all add: close_conn_def deregister_canceler_def)
  have "card (dom (slots s) - {sid}) \<le> card (dom (slots s))"
    using assms by (intro card_mono) (auto simp: server_inv_def)
  with assms have "finite (dom (slots ?s)) \<and> card (dom (slots ?s)) \<le> max_concurrent_conns"
    by (simp add: s' server_inv_def)
  moreover have "pid sl' \<noteq> pid sl" if "slots s sid' = Some sl'" "sid' \<noteq> sid" "accepted s < 2 ^ 32" for sid' sl'
    using assms that Some pid_inj [of sid' sid "accepted s"] by (auto simp: server_inv_def)
  ultimately show ?thesis
    using assms Some unfolding server_inv_def s' by (auto split: if_splits) blast+
qed

lemma server_step_inv:
  assumes "server_step s s'" and "server_inv s"
  shows "server_inv s'"
  using assms
proof (induction rule: server_step.induct)
  case (accepts s sec)
  then show ?case by (simp add: open_conn_inv)
next
  case (query_starts s sid)
  then show ?case by (auto simp: set_in_flight_def flags_inv)
next
  case (query_ends s sid)
  then show ?case by (auto simp: set_in_flight_def flags_inv)
next
  case (closes s sid)
  then show ?case by (simp add: close_conn_inv)
next
  case (cancel_request s p sec)
  then show ?case
    by (auto simp: cancel_by_key_def cancel_in_flight_def flags_inv split: option.split)
qed

lemma server_reachable_inv: "server_reachable s \<Longrightarrow> server_inv s"
  by (induction rule: server_reachable.induct) (simp_all add: new_server_inv server_step_inv)

section \<open>Cancellation\<close>

definition cancelled :: "server \<Rightarrow> nat \<Rightarrow> nat" where
  "cancelled s sid = (case slots s sid of None \<Rightarrow> 0 | Some sl \<Rightarrow> cancellations sl)"

lemma cancel_by_key_effect:
  assumes inv: "server_inv s" and bound: "accepted s < 2 ^ 32"
  shows "cancelled (cancel_by_key p sec s) sid = cancelled s sid +
      (if \<exists>sl. slots s sid = Some sl \<and> pid sl = p \<and> secret sl = sec \<and> in_flight sl then 1 else 0)"
proof (cases "cancelers s p")
  case None
  have "\<not> (\<exists>sl. slots s sid = Some sl \<and> pid sl = p)"
  proof
    assume "\<exists>sl. slots s sid = Some sl \<and> pid sl = p"
    then have "cancelers s p \<noteq> None" using server_inv_slot [OF inv bound] by auto
    with None show False by simp
  qed
  then show ?thesis using None by (auto simp: cancel_by_key_def)
next
  case (Some e)
  obtain sec0 sid0 where e: "e = (sec0, sid0)" by (cases e)
  with Some server_inv_entry [OF inv bound] obtain sl0 where
      sl0: "slots s sid0 = Some sl0" "pid sl0 = p" "secret sl0 = sec0" by blast
  have same: "sid' = sid0" if "slots s sid' = Some sl'" "pid sl' = p" for sid' sl'
    using server_inv_slot [OF inv bound that(1)] that(2) Some e by simp
  show ?thesis
  proof (cases "sec0 = sec \<and> in_flight sl0")
    case True
    with Some e sl0 have "cancel_by_key p sec s = s\<lparr>slots := (slots s)(sid0 \<mapsto> sl0\<lparr>cancellations := cancellations sl0 + 1\<rparr>)\<rparr>"
      by (simp add: cancel_by_key_def cancel_in_flight_def)
    then have c: "cancelled (cancel_by_key p sec s) sid = cancelled s sid + (if sid = sid0 then 1 else 0)"
      using sl0 by (simp add: cancelled_def)
    have "(\<exists>sl. slots s sid = Some sl \<and> pid sl = p \<and> secret sl = sec \<and> in_flight sl) \<longleftrightarrow> sid = sid0"
    proof
      assume "sid = sid0"
      with True sl0 show "\<exists>sl. slots s sid = Some sl \<and> pid sl = p \<and> secret sl = sec \<and> in_flight sl" by simp
    qed (use same in blast)
    with c show ?thesis by simp
  next
    case False
    with Some e sl0 have "cancel_by_key p sec s = s"
      by (auto simp: cancel_by_key_def cancel_in_flight_def)
    moreover have "\<not> (\<exists>sl. slots s sid = Some sl \<and> pid sl = p \<and> secret sl = sec \<and> in_flight sl)"
    proof
      assume "\<exists>sl. slots s sid = Some sl \<and> pid sl = p \<and> secret sl = sec \<and> in_flight sl"
      then obtain sl where sl: "slots s sid = Some sl" "pid sl = p" "secret sl = sec" "in_flight sl" by blast
      with same [OF sl(1,2)] sl0 False show False by simp
    qed
    ultimately show ?thesis by simp
  qed
qed

text \<open>
  Property C13: no client cancels another's query by guessing: in every interleaving of connections,
  queries and cancel requests, before the \<open>2^32\<close>th connection, a cancel request changes at most one
  session, the live one whose process id it names, only when it carries exactly the secret that
  session was handed and has a query in flight; and then that query is cancelled. The number of
  connections handled at once stays within the limit.
\<close>

theorem cancel_needs_secret:
  assumes "server_reachable s" and "accepted s < 2 ^ 32"
  shows "card (dom (slots s)) \<le> 200 \<and>
    cancelled (cancel_by_key p sec s) sid =
      cancelled s sid +
      (if \<exists>sl. slots s sid = Some sl \<and> pid sl = p \<and> secret sl = sec \<and> in_flight sl then 1 else 0)"
proof -
  have inv: "server_inv s" using assms(1) by (rule server_reachable_inv)
  from cancel_by_key_effect [OF this assms(2)] inv show ?thesis
    by (simp add: server_inv_def max_concurrent_conns_def)
qed

theorem cancel_needs_secret_witness:
  "cancelled (cancel_by_key 1 ''k9'' (set_in_flight 0 True (open_conn ''k9'' new_server))) 0 = 1"
proof -
  let ?s = "set_in_flight 0 True (open_conn ''k9'' new_server)"
  have "server_reachable (open_conn ''k9'' new_server)"
    by (rule server_reachable.stepped [OF server_reachable.started server_step.accepts])
      (simp add: new_server_def max_concurrent_conns_def)
  moreover have slot: "slots (open_conn ''k9'' new_server) 0 =
      Some \<lparr>pid = 1, secret = ''k9'', in_flight = False, cancellations = 0\<rparr>"
    by (simp add: open_conn_def register_canceler_def new_server_def Let_def)
  ultimately have "server_reachable ?s"
    by (metis server_reachable.stepped server_step.query_starts option.distinct(1))
  moreover have "accepted ?s < 2 ^ 32"
    using slot by (simp add: set_in_flight_def) (simp add: open_conn_def register_canceler_def new_server_def Let_def)
  ultimately show ?thesis
    using cancel_needs_secret [of ?s 1 "''k9''" 0] slot
    by (simp add: set_in_flight_def cancelled_def)
qed

section \<open>The accept loop\<close>

text \<open>
  A persistent Accept error is retried after five milliseconds and then twice as long each
  time up to one second, never at once.
\<close>

theorem accept_backoff_bounds:
  "(next_accept_backoff ^^ Suc n) 0 = min (accept_backoff_min * 2 ^ n) accept_backoff_max"
proof (induction n)
  case 0
  then show ?case by (simp add: next_accept_backoff_def accept_backoff_min_def accept_backoff_max_def)
next
  case (Suc n)
  have "0 < min (accept_backoff_min * 2 ^ n) accept_backoff_max"
    by (simp add: accept_backoff_min_def accept_backoff_max_def)
  then have "next_accept_backoff (min (accept_backoff_min * 2 ^ n) accept_backoff_max) =
      min (accept_backoff_min * 2 ^ Suc n) accept_backoff_max"
    by (auto simp: next_accept_backoff_def min_def)
  with Suc show ?case by simp
qed

end
