(* ===== verification/Config_File.thy ===== *)
theory Config_File
  imports Wire_Prelude
begin

text \<open>
  \<open>internal/config/config.go\<close>: the two layers of a configuration file, how a profile is resolved
  from the built-in defaults, the file's own keys and the profile's, the expansion of environment
  variables, and the validation. The YAML decoder is an argument; a file system is a map from
  paths to contents. \<open>time.ParseDuration\<close> and \<open>os.ExpandEnv\<close> are written out.
\<close>

section \<open>Durations\<close>

datatype duration_error = Duration_invalid | Duration_missing_unit | Duration_unknown_unit string

definition digit_value :: "char \<Rightarrow> int" where
  "digit_value c = int (byte c) - 48"

text \<open>\<open>leadingInt\<close>: the value of the digits the text starts with, unless it exceeds \<open>1<<63\<close>.\<close>

fun leading_int :: "string \<Rightarrow> int \<Rightarrow> (int \<times> string) option" where
  "leading_int [] x = Some (x, [])"
| "leading_int (c # s) x =
     (if is_digit c
      then if x > 2 ^ 63 div 10 then None
           else let y = x * 10 + digit_value c in
                if y > 2 ^ 63 then None else leading_int s y
      else Some (x, c # s))"

text \<open>\<open>leadingFraction\<close>: the digits and their scale; those past the range are dropped.\<close>

fun leading_fraction :: "string \<Rightarrow> int \<Rightarrow> int \<Rightarrow> bool \<Rightarrow> int \<times> int \<times> string" where
  "leading_fraction [] x scale over = (x, scale, [])"
| "leading_fraction (c # s) x scale over =
     (if is_digit c
      then if over then leading_fraction s x scale True
           else if x > (2 ^ 63 - 1) div 10 then leading_fraction s x scale True
           else let y = x * 10 + digit_value c in
                if y > 2 ^ 63 then leading_fraction s x scale True
                else leading_fraction s y (scale * 10) False
      else (x, scale, c # s))"

definition unit_value :: "string \<Rightarrow> int option" where
  "unit_value u =
     (if u = ''ns'' then Some 1
      else if u = ''us'' \<or> u = [CHR 0xC2, CHR 0xB5, CHR ''s''] \<or> u = [CHR 0xCE, CHR 0xBC, CHR ''s'']
      then Some 1000
      else if u = ''ms'' then Some 1000000
      else if u = ''s'' then Some 1000000000
      else if u = ''m'' then Some 60000000000
      else if u = ''h'' then Some 3600000000000
      else None)"

definition number_byte :: "char \<Rightarrow> bool" where
  "number_byte c \<longleftrightarrow> c = CHR ''.'' \<or> is_digit c"

text \<open>
  One number with its unit. Go multiplies the fraction out in \<open>float64\<close>; the model is exact, the
  two agree while the digits of the fraction and the unit fit 53 bits.
\<close>

definition parse_fraction :: "string \<Rightarrow> int \<times> int \<times> string \<times> bool" where
  "parse_fraction s =
     (case s of
        c # t \<Rightarrow> if c = CHR ''.''
                 then let (f, scale, r) = leading_fraction t 0 1 False in
                      (f, scale, r, length r \<noteq> length t)
                 else (0, 1, s, False)
      | [] \<Rightarrow> (0, 1, s, False))"

definition scale_value :: "int \<Rightarrow> int \<Rightarrow> int \<Rightarrow> int \<Rightarrow> int option" where
  "scale_value v f scale u =
     (if v > 2 ^ 63 div u then None
      else let w = v * u in
           if f > 0
           then let w' = w + f * u div scale in if w' > 2 ^ 63 then None else Some w'
           else Some w)"

definition parse_segment :: "string \<Rightarrow> duration_error + int \<times> string" where
  "parse_segment s =
     (if s = [] \<or> \<not> number_byte (hd s) then Inl Duration_invalid
      else case leading_int s 0 of
        None \<Rightarrow> Inl Duration_invalid
      | Some (v, s1) \<Rightarrow>
          let (f, scale, s2, post) = parse_fraction s1 in
          if length s1 = length s \<and> \<not> post then Inl Duration_invalid
          else let u = takeWhile (\<lambda>c. \<not> number_byte c) s2; r = dropWhile (\<lambda>c. \<not> number_byte c) s2 in
            if u = [] then Inl Duration_missing_unit
            else case unit_value u of
              None \<Rightarrow> Inl (Duration_unknown_unit u)
            | Some n \<Rightarrow>
                (case scale_value v f scale n of
                   None \<Rightarrow> Inl Duration_invalid
                 | Some w \<Rightarrow> Inr (w, r)))"

lemma leading_int_length: "leading_int s x = Some (v, r) \<Longrightarrow> length r \<le> length s"
  by (induction s x rule: leading_int.induct) (auto simp: Let_def split: if_splits)

lemma leading_fraction_length: "leading_fraction s x k over = (f, k', r) \<Longrightarrow> length r \<le> length s"
proof (induction s x k over rule: leading_fraction.induct)
  case (2 c s x k over)
  then show ?case
    unfolding leading_fraction.simps(2) Let_def
    by (simp only: list.size split: if_splits) (linarith | fastforce)+
qed simp

lemma parse_fraction_length: "parse_fraction s = (f, k, r, p) \<Longrightarrow> length r \<le> length s"
  by (cases s) (auto simp: parse_fraction_def dest: leading_fraction_length split: if_splits prod.splits)

lemma parse_segment_length:
  assumes "parse_segment s = Inr (w, r)"
  shows "length r < length s"
proof -
  from assms obtain v s1 where v: "leading_int s 0 = Some (v, s1)"
    by (auto simp: parse_segment_def split: if_splits option.splits)
  obtain f k s2 p where f: "parse_fraction s1 = (f, k, s2, p)" by (metis prod_cases4)
  have u: "takeWhile (\<lambda>c. \<not> number_byte c) s2 \<noteq> []" and r: "r = dropWhile (\<lambda>c. \<not> number_byte c) s2"
    using assms v f by (auto simp: parse_segment_def Let_def split: if_splits option.splits)
  have "length s2 = length (takeWhile (\<lambda>c. \<not> number_byte c) s2) + length r"
    unfolding r by (metis length_append takeWhile_dropWhile_id)
  moreover have "0 < length (takeWhile (\<lambda>c. \<not> number_byte c) s2)" using u by simp
  ultimately show ?thesis using leading_int_length [OF v] parse_fraction_length [OF f] by linarith
qed

text \<open>The loop of \<open>ParseDuration\<close>; the sum of the segments is a \<open>uint64\<close>.\<close>

function parse_segments :: "string \<Rightarrow> int \<Rightarrow> duration_error + int" where
  "parse_segments s d =
     (if s = [] then Inr d
      else case parse_segment s of
        Inl e \<Rightarrow> Inl e
      | Inr (w, r) \<Rightarrow>
          let d' = (d + w) mod 2 ^ 64 in
          if d' > 2 ^ 63 then Inl Duration_invalid else parse_segments r d')"
  by pat_completeness auto
termination
  by (relation "measure (\<lambda>(s, d). length s)") (auto dest: parse_segment_length)

declare parse_segments.simps [simp del]

definition strip_sign :: "string \<Rightarrow> bool \<times> string" where
  "strip_sign s =
     (case s of
        c # t \<Rightarrow> if c = CHR ''-'' \<or> c = CHR ''+'' then (c = CHR ''-'', t) else (False, s)
      | [] \<Rightarrow> (False, s))"

text \<open>\<open>time.ParseDuration\<close>, in nanoseconds.\<close>

definition parse_duration :: "string \<Rightarrow> duration_error + int" where
  "parse_duration s =
     (let (neg, t) = strip_sign s in
      if t = ''0'' then Inr 0
      else if t = [] then Inl Duration_invalid
      else case parse_segments t 0 of
        Inl e \<Rightarrow> Inl e
      | Inr d \<Rightarrow>
          if neg then Inr (- d)
          else if d > 2 ^ 63 - 1 then Inl Duration_invalid else Inr d)"

section \<open>Environment variables\<close>

definition is_shell_special :: "char \<Rightarrow> bool" where
  "is_shell_special c \<longleftrightarrow> c \<in> set ''*#$@!?-'' \<or> is_digit c"

definition is_alnum :: "char \<Rightarrow> bool" where
  "is_alnum c \<longleftrightarrow> c = CHR ''_'' \<or> is_digit c \<or> is_alpha c"

text \<open>\<open>getShellName\<close>: the name after a dollar and the bytes to skip for it.\<close>

definition braced_name :: "string \<Rightarrow> string \<times> nat" where
  "braced_name s =
     (if 2 < length s \<and> is_shell_special (s ! 1) \<and> s ! 2 = CHR ''}'' then ([s ! 1], 3)
      else case index_byte (drop 1 s) (CHR ''}'') of
        Some 0 \<Rightarrow> ([], 2)
      | Some k \<Rightarrow> (take k (drop 1 s), k + 2)
      | None \<Rightarrow> ([], 1))"

definition shell_name :: "string \<Rightarrow> string \<times> nat" where
  "shell_name s =
     (if hd s = CHR ''{'' then braced_name s
      else if is_shell_special (hd s) then ([hd s], 1)
      else let n = takeWhile is_alnum s in (n, length n))"

text \<open>\<open>os.ExpandEnv\<close>; \<open>env\<close> is \<open>os.Getenv\<close>, empty for a variable that is not set.\<close>

function expand_env :: "(string \<Rightarrow> string) \<Rightarrow> string \<Rightarrow> string" where
  "expand_env env [] = []"
| "expand_env env (c # s) =
     (if c = CHR ''$'' \<and> s \<noteq> []
      then let (name, w) = shell_name s in
           (if name = [] \<and> w > 0 then [] else if name = [] then [c] else env name)
             @ expand_env env (drop w s)
      else c # expand_env env s)"
  by pat_completeness auto
termination
  by (relation "measure (\<lambda>(env, s). length s)") auto

section \<open>The two layers\<close>

record config =
  c_profile :: string
  c_postgres_addr :: string
  c_mysql_addr :: string
  c_redash_url :: string
  c_api_key :: string
  c_username :: string
  c_password :: string
  c_poll_interval :: string
  c_poll_timeout :: string
  c_read_only :: "bool option"

text \<open>The profiles are Go's map as a list of its entries in the order an iteration meets them.\<close>

record file_config =
  fc_postgres_addr :: string
  fc_mysql_addr :: string
  fc_username :: string
  fc_password :: string
  fc_poll_interval :: string
  fc_poll_timeout :: string
  fc_read_only :: "bool option"
  fc_default_profile :: string
  fc_profiles :: "(string \<times> config) list"

definition default_username :: string where
  "default_username = ''redash-wire''"

definition default_password :: string where
  "default_password = ''supersecret''"

definition default_postgres_addr :: string where
  "default_postgres_addr = ''127.0.0.1:15432''"

definition default_mysql_addr :: string where
  "default_mysql_addr = ''127.0.0.1:13306''"

definition get_poll_interval :: "config \<Rightarrow> int" where
  "get_poll_interval c = (case parse_duration (c_poll_interval c) of Inl e \<Rightarrow> 500000000 | Inr d \<Rightarrow> d)"

definition get_poll_timeout :: "config \<Rightarrow> int" where
  "get_poll_timeout c = (case parse_duration (c_poll_timeout c) of Inl e \<Rightarrow> 120000000000 | Inr d \<Rightarrow> d)"

definition is_read_only :: "config \<Rightarrow> bool" where
  "is_read_only c \<longleftrightarrow> c_read_only c = Some True"

definition uses_default_credentials :: "config \<Rightarrow> bool" where
  "uses_default_credentials c \<longleftrightarrow> c_username c = default_username \<and> c_password c = default_password"

section \<open>Validation\<close>

datatype config_problem =
    No_listeners
  | No_redash_url
  | No_api_key
  | Empty_username
  | Empty_password
  | Bad_poll_interval string duration_error
  | Poll_interval_not_positive string
  | Bad_poll_timeout string duration_error
  | Poll_timeout_not_positive string

text \<open>\<open>errors.Join\<close> of the problems found; no problem is \<open>nil\<close>.\<close>

definition validate :: "config \<Rightarrow> config_problem list" where
  "validate c =
     (if c_postgres_addr c = [] \<and> c_mysql_addr c = [] then [No_listeners] else [])
     @ (if c_redash_url c = [] then [No_redash_url] else [])
     @ (if c_api_key c = [] then [No_api_key] else [])
     @ (if c_username c = [] then [Empty_username] else [])
     @ (if c_password c = [] then [Empty_password] else [])
     @ (case parse_duration (c_poll_interval c) of
          Inl e \<Rightarrow> [Bad_poll_interval (c_poll_interval c) e]
        | Inr d \<Rightarrow> if d \<le> 0 then [Poll_interval_not_positive (c_poll_interval c)] else [])
     @ (case parse_duration (c_poll_timeout c) of
          Inl e \<Rightarrow> [Bad_poll_timeout (c_poll_timeout c) e]
        | Inr d \<Rightarrow> if d \<le> 0 then [Poll_timeout_not_positive (c_poll_timeout c)] else [])"

section \<open>Resolving a profile\<close>

datatype config_error =
    Read_failed string
  | Parse_failed string
  | No_profiles
  | No_profile_chosen "string list"
  | Profile_not_found string "string list"
  | Default_not_found string "string list"
  | Invalid_profile string "config_problem list"

definition overlay :: "string \<Rightarrow> string \<Rightarrow> string" where
  "overlay dst src = (if src \<noteq> [] then src else dst)"

definition overlay_bool :: "bool option \<Rightarrow> bool option \<Rightarrow> bool option" where
  "overlay_bool dst src = (case src of None \<Rightarrow> dst | Some v \<Rightarrow> Some v)"

definition profile_names :: "(string \<times> config) list \<Rightarrow> string list" where
  "profile_names ps = sort (List.map fst ps)"

definition default_config :: config where
  "default_config =
     \<lparr>c_profile = [], c_postgres_addr = [], c_mysql_addr = [], c_redash_url = [], c_api_key = [],
      c_username = default_username, c_password = default_password,
      c_poll_interval = ''500ms'', c_poll_timeout = ''120s'', c_read_only = None\<rparr>"

definition overlay_file :: "file_config \<Rightarrow> config \<Rightarrow> config" where
  "overlay_file fc c =
     c\<lparr>c_postgres_addr := overlay (c_postgres_addr c) (fc_postgres_addr fc),
       c_mysql_addr := overlay (c_mysql_addr c) (fc_mysql_addr fc),
       c_username := overlay (c_username c) (fc_username fc),
       c_password := overlay (c_password c) (fc_password fc),
       c_poll_interval := overlay (c_poll_interval c) (fc_poll_interval fc),
       c_poll_timeout := overlay (c_poll_timeout c) (fc_poll_timeout fc),
       c_read_only := overlay_bool (c_read_only c) (fc_read_only fc)\<rparr>"

definition overlay_profile :: "config \<Rightarrow> config \<Rightarrow> config" where
  "overlay_profile p c =
     c\<lparr>c_postgres_addr := overlay (c_postgres_addr c) (c_postgres_addr p),
       c_mysql_addr := overlay (c_mysql_addr c) (c_mysql_addr p),
       c_redash_url := overlay (c_redash_url c) (c_redash_url p),
       c_api_key := overlay (c_api_key c) (c_api_key p),
       c_username := overlay (c_username c) (c_username p),
       c_password := overlay (c_password c) (c_password p),
       c_poll_interval := overlay (c_poll_interval c) (c_poll_interval p),
       c_poll_timeout := overlay (c_poll_timeout c) (c_poll_timeout p),
       c_read_only := overlay_bool (c_read_only c) (c_read_only p)\<rparr>"

definition resolve_profile ::
    "(string \<Rightarrow> string) \<Rightarrow> file_config \<Rightarrow> string \<Rightarrow> config_error + config" where
  "resolve_profile env fc wanted =
     (if fc_profiles fc = [] then Inl No_profiles
      else let name = (if wanted = [] then fc_default_profile fc else wanted) in
        if name = [] then Inl (No_profile_chosen (profile_names (fc_profiles fc)))
        else case map_of (fc_profiles fc) name of
          None \<Rightarrow> Inl (Profile_not_found name (profile_names (fc_profiles fc)))
        | Some p \<Rightarrow>
            let c = overlay_profile p (overlay_file fc default_config) in
            Inr (c\<lparr>c_api_key := expand_env env (c_api_key c),
                   c_redash_url := expand_env env (c_redash_url c),
                   c_profile := name\<rparr>))"

section \<open>Loading\<close>

text \<open>\<open>decode\<close> is the strict YAML decoder, \<open>None\<close> when it reports an error.\<close>

definition read_file ::
    "(string \<rightharpoonup> string) \<Rightarrow> (string \<Rightarrow> file_config option) \<Rightarrow> string \<Rightarrow> config_error + file_config"
  where
  "read_file files decode path =
     (case files path of
        None \<Rightarrow> Inl (Read_failed path)
      | Some data \<Rightarrow>
          (case decode data of None \<Rightarrow> Inl (Parse_failed path) | Some fc \<Rightarrow> Inr fc))"

definition load_file_config ::
    "(string \<Rightarrow> string) \<Rightarrow> file_config \<Rightarrow> string \<Rightarrow> config_error + config" where
  "load_file_config env fc wanted =
     (case resolve_profile env fc wanted of
        Inl e \<Rightarrow> Inl e
      | Inr c \<Rightarrow> if validate c \<noteq> [] then Inl (Invalid_profile (c_profile c) (validate c)) else Inr c)"

definition load_config ::
    "(string \<rightharpoonup> string) \<Rightarrow> (string \<Rightarrow> file_config option) \<Rightarrow> (string \<Rightarrow> string) \<Rightarrow>
     string \<Rightarrow> string \<Rightarrow> config_error + config" where
  "load_config files decode env path wanted =
     (case read_file files decode path of
        Inl e \<Rightarrow> Inl e
      | Inr fc \<Rightarrow> load_file_config env fc wanted)"

text \<open>The error of a summary entry: the profile did not resolve, or what its validation found.\<close>

datatype entry_error = Unresolved config_error | Problems "config_problem list"

record profile_summary =
  ps_name :: string
  ps_config :: "config option"
  ps_error :: "entry_error option"

record config_summary =
  sum_default :: string
  sum_profiles :: "profile_summary list"

definition summarize_profile :: "(string \<Rightarrow> string) \<Rightarrow> file_config \<Rightarrow> string \<Rightarrow> profile_summary" where
  "summarize_profile env fc name =
     (case resolve_profile env fc name of
        Inl e \<Rightarrow> \<lparr>ps_name = name, ps_config = None, ps_error = Some (Unresolved e)\<rparr>
      | Inr c \<Rightarrow> \<lparr>ps_name = name, ps_config = Some c,
                  ps_error = (if validate c = [] then None else Some (Problems (validate c)))\<rparr>)"

definition load_all ::
    "(string \<rightharpoonup> string) \<Rightarrow> (string \<Rightarrow> file_config option) \<Rightarrow> (string \<Rightarrow> string) \<Rightarrow>
     string \<Rightarrow> config_error + config_summary" where
  "load_all files decode env path =
     (case read_file files decode path of
        Inl e \<Rightarrow> Inl e
      | Inr fc \<Rightarrow>
          if fc_profiles fc = [] then Inl No_profiles
          else if fc_default_profile fc \<noteq> [] \<and> map_of (fc_profiles fc) (fc_default_profile fc) = None
          then Inl (Default_not_found (fc_default_profile fc) (profile_names (fc_profiles fc)))
          else Inr \<lparr>sum_default = fc_default_profile fc,
                    sum_profiles = List.map (summarize_profile env fc) (profile_names (fc_profiles fc))\<rparr>)"

end
