(* ===== verification/Config_Laws.thy ===== *)
theory Config_Laws
  imports Config_File
begin

text \<open>
  What loading a configuration promises: durations read back as written and stay in range,
  environment variables expand once, every key takes the value of the innermost layer that sets it,
  a loaded profile can serve, and the report over all profiles agrees with loading each of them.
\<close>

section \<open>Durations\<close>

lemma digit_value_bounds: "is_digit c \<Longrightarrow> 0 \<le> digit_value c \<and> digit_value c \<le> 9"
  by (auto simp: is_digit_def digit_value_def)

lemma is_digit_digit_char: "d < 10 \<Longrightarrow> is_digit (digit_char d) \<and> digit_value (digit_char d) = int d"
  by (simp add: is_digit_def digit_value_def digit_char_def byte_char_of)

text \<open>The number a run of digits denotes, from the value of those before it.\<close>

fun run_value :: "string \<Rightarrow> int \<Rightarrow> int" where
  "run_value [] x = x"
| "run_value (c # s) x = run_value s (x * 10 + digit_value c)"

lemma run_value_ge: "list_all is_digit s \<Longrightarrow> 0 \<le> x \<Longrightarrow> x \<le> run_value s x"
proof (induction s arbitrary: x)
  case (Cons c s)
  then have "0 \<le> digit_value c" using digit_value_bounds by simp
  with Cons.prems have "x \<le> x * 10 + digit_value c" by simp
  moreover have "x * 10 + digit_value c \<le> run_value s (x * 10 + digit_value c)"
    using Cons \<open>0 \<le> digit_value c\<close> by simp
  ultimately show ?case by simp
qed simp

lemma run_value_append: "run_value (s @ t) x = run_value t (run_value s x)"
  by (induction s arbitrary: x) auto

lemma leading_int_digits:
  assumes "list_all is_digit s" and "0 \<le> x" and "run_value s x \<le> 2 ^ 63"
    and "r = [] \<or> \<not> is_digit (hd r)"
  shows "leading_int (s @ r) x = Some (run_value s x, r)"
  using assms
proof (induction s arbitrary: x)
  case Nil
  then show ?case by (cases r) auto
next
  case (Cons c s)
  let ?y = "x * 10 + digit_value c"
  have c: "is_digit c" and d: "0 \<le> digit_value c" using Cons.prems digit_value_bounds by auto
  have "?y \<le> run_value s ?y"
    using Cons.prems d by (intro run_value_ge) auto
  then have y: "?y \<le> 2 ^ 63" using Cons.prems(3) by simp
  then have "\<not> x > 2 ^ 63 div 10" using d by linarith
  then have "leading_int ((c # s) @ r) x = leading_int (s @ r) ?y"
    using c y by (simp only: append_Cons leading_int.simps Let_def if_True if_False not_less not_le [symmetric]) simp
  also have "\<dots> = Some (run_value s ?y, r)"
    using Cons d by (intro Cons.IH) auto
  finally show ?case by simp
qed

lemma nat_to_string_digits: "list_all is_digit (nat_to_string n) \<and> run_value (nat_to_string n) 0 = int n"
proof (induction n rule: nat_to_string.induct)
  case (1 n)
  show ?case
  proof (cases "n < 10")
    case True
    then show ?thesis using is_digit_digit_char by (simp add: nat_to_string.simps [of n])
  next
    case False
    then have IH: "list_all is_digit (nat_to_string (n div 10))"
        "run_value (nat_to_string (n div 10)) 0 = int (n div 10)" using 1 by auto
    have "is_digit (digit_char (n mod 10))" "digit_value (digit_char (n mod 10)) = int (n mod 10)"
      using is_digit_digit_char [of "n mod 10"] by auto
    moreover have "int (n div 10) * 10 + int (n mod 10) = int n"
      by (metis div_mult_mod_eq of_nat_add of_nat_mult of_nat_numeral)
    ultimately show ?thesis
      using False IH by (subst (1 2) nat_to_string.simps) (simp add: run_value_append)
  qed
qed

text \<open>A unit: no digit and no dot in it, and a positive number of nanoseconds.\<close>

lemma unit_value_cases:
  "unit_value u = Some k \<Longrightarrow> list_all (\<lambda>c. \<not> number_byte c) u \<and> u \<noteq> [] \<and> 0 < k \<and> k \<le> 3600000000000"
  by (auto simp: unit_value_def number_byte_def is_digit_def byte_def split: if_splits)

lemma takeWhile_all: "list_all P s \<Longrightarrow> takeWhile P s = s \<and> dropWhile P s = []"
  by (induction s) auto

lemma parse_segment_simple:
  assumes "unit_value u = Some k" and "int n * k \<le> 2 ^ 63"
  shows "parse_segment (nat_to_string n @ u) = Inr (int n * k, [])"
proof -
  have u: "list_all (\<lambda>c. \<not> number_byte c) u" "u \<noteq> []" "0 < k" using unit_value_cases [OF assms(1)] by auto
  obtain c s where cs: "nat_to_string n = c # s" using nat_to_string_not_Nil by (metis list.exhaust)
  have c: "number_byte (hd (nat_to_string n @ u))"
    using nat_to_string_digits [of n] cs by (simp add: number_byte_def)
  have "int n * 1 \<le> int n * k" using u(3) by (intro mult_left_mono) auto
  then have n: "int n \<le> 2 ^ 63" using assms(2) by linarith
  have nd: "\<not> number_byte (hd u)" using u by (cases u) auto
  have "leading_int (nat_to_string n @ u) 0 = Some (int n, u)"
    using leading_int_digits [of "nat_to_string n" 0 u] nat_to_string_digits [of n] n nd
    by (auto simp: number_byte_def)
  moreover have "parse_fraction u = (0, 1, u, False)"
    using nd by (cases u) (auto simp: parse_fraction_def number_byte_def)
  moreover have "int n \<le> 2 ^ 63 div k"
    using assms(2) u(3) by (metis mult.commute nonzero_mult_div_cancel_right less_irrefl zdiv_mono1)
  moreover note tw = takeWhile_all [OF u(1), THEN conjunct1] takeWhile_all [OF u(1), THEN conjunct2]
  ultimately show ?thesis
    using u(2) c assms
    by (simp add: parse_segment_def scale_value_def nat_to_string_not_Nil Let_def not_less tw)
qed

text \<open>
  A duration written as a number and a unit reads back as that many nanoseconds, as
  long as it fits a \<open>time.Duration\<close>.
\<close>

theorem duration_reads_back:
  assumes "unit_value u = Some k" and "int n * k < 2 ^ 63"
  shows "parse_duration (nat_to_string n @ u) = Inr (int n * k)"
proof -
  obtain c s where cs: "nat_to_string n = c # s" using nat_to_string_not_Nil by (metis list.exhaust)
  then have "is_digit c" using nat_to_string_digits [of n] by simp
  then have "strip_sign (nat_to_string n @ u) = (False, nat_to_string n @ u)"
    by (auto simp: cs strip_sign_def is_digit_def byte_def)
  moreover have "nat_to_string n @ u \<noteq> ''0''"
    using unit_value_cases [OF assms(1)] cs by (cases u; cases s) auto
  moreover have "parse_segments (nat_to_string n @ u) 0 = Inr (int n * k)"
  proof -
    have "0 \<le> int n * k" using unit_value_cases [OF assms(1)] by simp
    then have "int n * k mod 2 ^ 64 = int n * k" using assms(2) by (intro mod_pos_pos_trivial) auto
    then show ?thesis
      using parse_segment_simple [OF assms(1), of n] assms(2) nat_to_string_not_Nil [of n]
      by (subst parse_segments.simps) (simp add: parse_segments.simps [of "[]"])
  qed
  ultimately show ?thesis
    using assms(2) nat_to_string_not_Nil [of n] by (simp add: parse_duration_def)
qed

lemma duration_reads_back_witness: "parse_duration (nat_to_string 90 @ ''ms'') = Inr 90000000"
  using duration_reads_back [of "''ms''" 1000000 90] by (simp add: unit_value_def)

lemma parse_segments_range: "parse_segments s d = Inr e \<Longrightarrow> 0 \<le> d \<Longrightarrow> d \<le> 2 ^ 63 \<Longrightarrow> 0 \<le> e \<and> e \<le> 2 ^ 63"
proof (induction s d rule: parse_segments.induct)
  case (1 s d)
  show ?case
  proof (cases "s = []")
    case False
    with 1(2) obtain w r where w: "parse_segment s = Inr (w, r)"
      by (cases "parse_segment s") (auto simp: parse_segments.simps [of s])
    with False 1(2) have "\<not> (d + w) mod 2 ^ 64 > 2 ^ 63" "parse_segments r ((d + w) mod 2 ^ 64) = Inr e"
      by (auto simp: parse_segments.simps [of s] Let_def split: if_splits)
    with 1(1) [OF False w refl refl] show ?thesis by (auto simp: not_less)
  qed (use 1 in \<open>simp add: parse_segments.simps\<close>)
qed

lemma parse_duration_range:
  assumes "parse_duration s = Inr d"
  shows "- (2 ^ 63) \<le> d \<and> d < 2 ^ 63"
proof -
  obtain neg t where t: "strip_sign s = (neg, t)" by (cases "strip_sign s")
  show ?thesis
  proof (cases "t = ''0''")
    case False
    with assms t obtain e where e: "parse_segments t 0 = Inr e"
      by (auto simp: parse_duration_def split: if_splits sum.splits)
    with parse_segments_range [OF e] have "0 \<le> e" "e \<le> 2 ^ 63" by auto
    with assms t e False show ?thesis
      by (auto simp: parse_duration_def split: if_splits)
  qed (use assms t in \<open>simp add: parse_duration_def\<close>)
qed

section \<open>Environment variables\<close>

lemma expand_env_prefix:
  "CHR ''$'' \<notin> set a \<Longrightarrow> expand_env env (a @ b) = a @ expand_env env b"
  by (induction a) auto

lemma expand_env_plain: "CHR ''$'' \<notin> set a \<Longrightarrow> expand_env env a = a"
  using expand_env_prefix [of a env "[]"] by simp

lemma index_byte_append: "c \<notin> set s \<Longrightarrow> index_byte (s @ c # t) c = Some (length s)"
  by (induction s) auto

lemma shell_name_braced:
  assumes "name \<noteq> []" and "CHR ''}'' \<notin> set name"
  shows "shell_name (CHR ''{'' # name @ CHR ''}'' # b) = (name, length name + 2)"
proof -
  obtain c n where n: "name = c # n" using assms(1) by (cases name) auto
  have i: "index_byte (name @ CHR ''}'' # b) (CHR ''}'') = Some (Suc (length n))"
    using index_byte_append [OF assms(2), of b] n by simp
  show ?thesis
    using assms(2) i n by (cases n) (auto simp: shell_name_def braced_name_def)
qed

lemma expand_env_braced:
  assumes "CHR ''$'' \<notin> set a" and "name \<noteq> []" and "CHR ''}'' \<notin> set name"
  shows "expand_env env (a @ ''${'' @ name @ ''}'' @ b) = a @ env name @ expand_env env b"
  using shell_name_braced [OF assms(2,3), of b] assms(2)
  by (simp add: expand_env_prefix [OF assms(1)])

section \<open>Precedence of the layers\<close>

text \<open>The value of a key: the first layer, from the innermost one out, that sets it.\<close>

definition innermost :: "string list \<Rightarrow> string" where
  "innermost layers = (case filter (\<lambda>v. v \<noteq> []) layers of v # vs \<Rightarrow> v | [] \<Rightarrow> [])"

lemma innermost_overlay:
  "innermost [c, b, a] = overlay (overlay a b) c" "innermost [c, a] = overlay a c"
  by (auto simp: overlay_def innermost_def)

lemma overlay_Nil [simp]: "overlay [] a = a"
  by (simp add: overlay_def)

lemma overlay_not_Nil: "a \<noteq> [] \<Longrightarrow> overlay a b \<noteq> []"
  by (simp add: overlay_def)

definition profile_config :: "(string \<Rightarrow> string) \<Rightarrow> file_config \<Rightarrow> string \<Rightarrow> config \<Rightarrow> config" where
  "profile_config env fc name p =
     \<lparr>c_profile = name,
      c_postgres_addr = innermost [c_postgres_addr p, fc_postgres_addr fc],
      c_mysql_addr = innermost [c_mysql_addr p, fc_mysql_addr fc],
      c_redash_url = expand_env env (c_redash_url p),
      c_api_key = expand_env env (c_api_key p),
      c_username = innermost [c_username p, fc_username fc, default_username],
      c_password = innermost [c_password p, fc_password fc, default_password],
      c_poll_interval = innermost [c_poll_interval p, fc_poll_interval fc, ''500ms''],
      c_poll_timeout = innermost [c_poll_timeout p, fc_poll_timeout fc, ''120s''],
      c_read_only = (case c_read_only p of None \<Rightarrow> fc_read_only fc | Some b \<Rightarrow> Some b)\<rparr>"

lemma overlay_profile_eq:
  "(overlay_profile p (overlay_file fc default_config))
     \<lparr>c_api_key := expand_env env (c_api_key (overlay_profile p (overlay_file fc default_config))),
      c_redash_url := expand_env env (c_redash_url (overlay_profile p (overlay_file fc default_config))),
      c_profile := name\<rparr> = profile_config env fc name p"
  by (simp add: overlay_profile_def overlay_file_def default_config_def profile_config_def
      innermost_overlay overlay_bool_def split: option.split)

lemma resolve_profile_iff:
  "resolve_profile env fc wanted = Inr c \<longleftrightarrow>
     (\<exists>p name. name = innermost [wanted, fc_default_profile fc] \<and> name \<noteq> [] \<and>
        map_of (fc_profiles fc) name = Some p \<and> c = profile_config env fc name p)"
proof -
  have i: "innermost [wanted, fc_default_profile fc] = (if wanted = [] then fc_default_profile fc else wanted)"
    by (simp add: innermost_def)
  show ?thesis
    unfolding resolve_profile_def Let_def i overlay_profile_eq
    by (cases "fc_profiles fc = []") (auto split: option.splits)
qed

text \<open>
  Property C39: Precedence: the profile asked for, or else the default one, must be in the file;
  then every key of the resolved profile has the value of the innermost layer that sets it, the
  URL and the API key alone with environment variables expanded, user name and password taken
  literally; read-only is the profile's word, or else the file's.
\<close>

theorem resolve_profile_layers:
  "resolve_profile env fc wanted = Inr c \<longleftrightarrow>
     (\<exists>p name. name = innermost [wanted, fc_default_profile fc] \<and> name \<noteq> [] \<and>
        map_of (fc_profiles fc) name = Some p \<and> c = profile_config env fc name p)"
  by (rule resolve_profile_iff)

lemma resolve_profile_InrD:
  assumes "resolve_profile env fc wanted = Inr c"
  obtains p where "map_of (fc_profiles fc) (c_profile c) = Some p"
    "c = profile_config env fc (c_profile c) p"
    "c_profile c = (if wanted = [] then fc_default_profile fc else wanted)"
proof -
  from assms obtain p name where p: "name = innermost [wanted, fc_default_profile fc]"
      "map_of (fc_profiles fc) name = Some p" "c = profile_config env fc name p"
    by (auto simp: resolve_profile_iff)
  moreover have "c_profile c = name" using p(3) by (simp add: profile_config_def)
  moreover have "name = (if wanted = [] then fc_default_profile fc else wanted)"
    using p(1) by (simp add: innermost_def)
  ultimately show ?thesis using that by metis
qed

lemma resolve_profile_name_Nil:
  "fc_profiles fc \<noteq> [] \<Longrightarrow> resolve_profile env fc [] =
     (if fc_default_profile fc = [] then Inl (No_profile_chosen (profile_names (fc_profiles fc)))
      else resolve_profile env fc (fc_default_profile fc))"
  by (simp add: resolve_profile_def)

section \<open>What a loaded configuration satisfies\<close>

definition servable :: "config \<Rightarrow> bool" where
  "servable c \<longleftrightarrow>
     (c_postgres_addr c \<noteq> [] \<or> c_mysql_addr c \<noteq> []) \<and> c_redash_url c \<noteq> [] \<and> c_api_key c \<noteq> [] \<and>
     c_username c \<noteq> [] \<and> c_password c \<noteq> [] \<and> 0 < get_poll_interval c \<and> 0 < get_poll_timeout c"

lemma validate_Nil_iff:
  "validate c = [] \<longleftrightarrow>
     servable c \<and> (\<exists>d. parse_duration (c_poll_interval c) = Inr d) \<and>
     (\<exists>d. parse_duration (c_poll_timeout c) = Inr d)"
  by (auto simp: validate_def servable_def get_poll_interval_def get_poll_timeout_def split: sum.splits)

lemma profile_config_credentials:
  "c_username (profile_config env fc name p) \<noteq> [] \<and> c_password (profile_config env fc name p) \<noteq> []"
  by (simp add: profile_config_def innermost_overlay overlay_not_Nil default_username_def
      default_password_def)

lemma load_config_InrD:
  assumes "load_config files decode env path wanted = Inr c"
  obtains data fc where "files path = Some data" "decode data = Some fc"
    "resolve_profile env fc wanted = Inr c" "validate c = []"
  using assms
  by (auto simp: load_config_def load_file_config_def read_file_def split: option.splits sum.splits if_splits)

lemma resolve_profile_not_Invalid: "resolve_profile env fc wanted \<noteq> Inl (Invalid_profile name ps)"
  by (simp add: resolve_profile_def Let_def split: option.split)

lemma load_config_InvalidD:
  assumes "load_config files decode env path wanted = Inl (Invalid_profile name ps)"
  obtains fc c where "resolve_profile env fc wanted = Inr c" "ps = validate c" "validate c \<noteq> []"
proof -
  from assms obtain fc where "load_file_config env fc wanted = Inl (Invalid_profile name ps)"
    by (auto simp: load_config_def read_file_def split: option.splits)
  then show ?thesis
    using that by (cases "resolve_profile env fc wanted")
      (auto simp: load_file_config_def resolve_profile_not_Invalid split: if_splits)
qed

lemma load_config_eq:
  assumes "files path = Some data" and "decode data = Some fc"
  shows "load_config files decode env path wanted = load_file_config env fc wanted"
  using assms by (simp add: load_config_def read_file_def)

lemma summarize_profile_name [simp]: "ps_name (summarize_profile env fc name) = name"
  by (simp add: summarize_profile_def split: sum.split)

lemma summarize_profile_iff:
  "load_file_config env fc name = Inr c \<longleftrightarrow>
     ps_error (summarize_profile env fc name) = None \<and> ps_config (summarize_profile env fc name) = Some c"
  by (auto simp: load_file_config_def summarize_profile_def split: sum.splits if_splits)

lemma set_profile_names: "set (profile_names ps) = fst ` set ps"
  by (simp add: profile_names_def)

lemma profile_names_order_free:
  "mset ps = mset qs \<Longrightarrow> profile_names ps = profile_names qs"
  unfolding profile_names_def by (metis mset_map properties_for_sort mset_sort sorted_sort)

lemma load_all_InrD:
  assumes "load_all files decode env path = Inr s"
  obtains data fc where "files path = Some data" "decode data = Some fc" "fc_profiles fc \<noteq> []"
    "sum_default s = fc_default_profile fc"
    "sum_default s = [] \<or> sum_default s \<in> set (profile_names (fc_profiles fc))"
    "sum_profiles s = List.map (summarize_profile env fc) (profile_names (fc_profiles fc))"
proof -
  from assms obtain data fc where *: "files path = Some data" "decode data = Some fc"
      "fc_profiles fc \<noteq> []"
      "fc_default_profile fc = [] \<or> map_of (fc_profiles fc) (fc_default_profile fc) \<noteq> None"
      "s = \<lparr>sum_default = fc_default_profile fc,
            sum_profiles = List.map (summarize_profile env fc) (profile_names (fc_profiles fc))\<rparr>"
    by (auto simp: load_all_def read_file_def split: option.splits sum.splits if_splits)
  moreover have "fc_default_profile fc = [] \<or> fc_default_profile fc \<in> set (profile_names (fc_profiles fc))"
    using *(4) by (auto simp: set_profile_names map_of_eq_None_iff)
  ultimately show ?thesis using that by simp
qed

text \<open>
  A configuration that loads can be served: a listener, a URL, a key, credentials and
  two positive durations in the range of \<open>time.Duration\<close>; and the credentials are never empty
  even in a profile that is refused, since no layer can blank the built-in ones.
\<close>

theorem loaded_config_servable:
  "(\<forall>c. load_config files decode env path wanted = Inr c \<longrightarrow>
      servable c \<and> get_poll_interval c < 2 ^ 63 \<and> get_poll_timeout c < 2 ^ 63) \<and>
   (\<forall>name problems. load_config files decode env path wanted = Inl (Invalid_profile name problems) \<longrightarrow>
      problems \<noteq> [] \<and> Empty_username \<notin> set problems \<and> Empty_password \<notin> set problems)"
proof (intro conjI allI impI)
  fix c
  assume "load_config files decode env path wanted = Inr c"
  then have v: "validate c = []" by (rule load_config_InrD)
  then obtain d e where "parse_duration (c_poll_interval c) = Inr d" "parse_duration (c_poll_timeout c) = Inr e"
    by (auto simp: validate_Nil_iff)
  then show "servable c" "get_poll_interval c < 2 ^ 63" "get_poll_timeout c < 2 ^ 63"
    using v parse_duration_range [of "c_poll_interval c" d] parse_duration_range [of "c_poll_timeout c" e]
    by (simp_all add: validate_Nil_iff get_poll_interval_def get_poll_timeout_def)
next
  fix name problems
  assume "load_config files decode env path wanted = Inl (Invalid_profile name problems)"
  then obtain fc c where c: "resolve_profile env fc wanted = Inr c" "problems = validate c" "validate c \<noteq> []"
    by (rule load_config_InvalidD)
  show "problems \<noteq> []" using c(2,3) by simp
  obtain p where "c = profile_config env fc (c_profile c) p" by (rule resolve_profile_InrD [OF c(1)])
  then have "c_username c \<noteq> []" "c_password c \<noteq> []" by (metis profile_config_credentials)+
  then show "Empty_username \<notin> set problems" "Empty_password \<notin> set problems"
    by (auto simp: c(2) validate_def split: sum.splits if_splits)
qed

text \<open>
  The report over all profiles agrees with loading: it has one entry per profile of
  the file, sorted by name, a profile loads exactly when its entry carries no error, and then with
  the configuration of the entry; starting without a profile is loading the reported default, or
  fails when there is none.
\<close>

theorem report_agrees_with_load:
  assumes "load_all files decode env path = Inr s"
  shows "sorted (List.map ps_name (sum_profiles s)) \<and>
    (\<exists>data fc. files path = Some data \<and> decode data = Some fc \<and>
       mset (List.map ps_name (sum_profiles s)) = mset (List.map fst (fc_profiles fc))) \<and>
    (\<forall>e \<in> set (sum_profiles s). \<forall>c.
       load_config files decode env path (ps_name e) = Inr c \<longleftrightarrow> ps_error e = None \<and> ps_config e = Some c) \<and>
    (if sum_default s = [] then \<exists>names. load_config files decode env path [] = Inl (No_profile_chosen names)
     else load_config files decode env path [] = load_config files decode env path (sum_default s) \<and>
       sum_default s \<in> set (List.map ps_name (sum_profiles s)))"
proof -
  obtain data fc where fc: "files path = Some data" "decode data = Some fc" "fc_profiles fc \<noteq> []"
      "sum_default s = fc_default_profile fc"
      "sum_default s = [] \<or> sum_default s \<in> set (profile_names (fc_profiles fc))"
      "sum_profiles s = List.map (summarize_profile env fc) (profile_names (fc_profiles fc))"
    by (rule load_all_InrD [OF assms])
  have names: "List.map ps_name (sum_profiles s) = profile_names (fc_profiles fc)"
    by (simp add: fc(6) comp_def)
  note load = load_config_eq [of files path data decode fc, OF fc(1,2)]
  have "load_file_config env fc [] = (if fc_default_profile fc = []
      then Inl (No_profile_chosen (profile_names (fc_profiles fc)))
      else load_file_config env fc (fc_default_profile fc))"
    by (simp add: load_file_config_def resolve_profile_name_Nil [OF fc(3)])
  moreover have "load_file_config env fc (ps_name e) = Inr c \<longleftrightarrow> ps_error e = None \<and> ps_config e = Some c"
    if "e \<in> set (sum_profiles s)" for e c
    using that by (auto simp: fc(6) summarize_profile_iff)
  ultimately show ?thesis
    using fc(1,2,4,5) by (auto simp: names load profile_names_def)
qed

end
