(* ===== verification/Config_Write.thy ===== *)
theory Config_Write
  imports Config_Laws
begin

text \<open>
  \<open>internal/config/write.go\<close>: the configuration a first setup writes, the comment for a listener
  left out, and the creation of the file as the sequence of its system calls, run by any number of
  setups at once. The YAML encoder is an argument; the directory of the path is one too.
\<close>

section \<open>The configuration of a first setup\<close>

definition new_file_config ::
    "string \<Rightarrow> string \<Rightarrow> string \<Rightarrow> string \<Rightarrow> string \<Rightarrow> bool \<Rightarrow> bool \<Rightarrow> bool \<Rightarrow> file_config" where
  "new_file_config name url key user pass enable_pg enable_mysql ro =
     (let pg = (if \<not> enable_pg \<and> \<not> enable_mysql then True else enable_pg);
          prof = \<lparr>c_profile = [], c_postgres_addr = [], c_mysql_addr = [], c_redash_url = url,
                  c_api_key = key, c_username = [], c_password = [], c_poll_interval = [],
                  c_poll_timeout = [], c_read_only = (if ro then Some True else None)\<rparr> in
      \<lparr>fc_postgres_addr = (if pg then default_postgres_addr else []),
       fc_mysql_addr = (if enable_mysql then default_mysql_addr else []),
       fc_username = user, fc_password = pass,
       fc_poll_interval = ''500ms'', fc_poll_timeout = ''120s'', fc_read_only = None,
       fc_default_profile = name, fc_profiles = [(name, prof)]\<rparr>)"

text \<open>
  A \<open>yaml.Node\<close>, as far as the code reads it: whether it is a mapping, and its entries, each a
  key with its head comment and a value.
\<close>

record 'v yaml_node =
  yn_mapping :: bool
  yn_entries :: "(string \<times> string \<times> 'v) list"

fun comment_key :: "(string \<times> string \<times> 'v) list \<Rightarrow> string \<Rightarrow> string \<Rightarrow> (string \<times> string \<times> 'v) list"
  where
  "comment_key [] key comment = []"
| "comment_key ((k, h, v) # es) key comment =
     (if k = key then (k, comment, v) # es else (k, h, v) # comment_key es key comment)"

definition set_head_comment :: "'v yaml_node \<Rightarrow> string \<Rightarrow> string \<Rightarrow> 'v yaml_node" where
  "set_head_comment n key comment = n\<lparr>yn_entries := comment_key (yn_entries n) key comment\<rparr>"

definition comment_disabled_listener :: "'v yaml_node \<Rightarrow> file_config \<Rightarrow> 'v yaml_node" where
  "comment_disabled_listener n fc =
     (if \<not> yn_mapping n then n
      else if fc_postgres_addr fc = [] \<and> fc_mysql_addr fc \<noteq> []
      then set_head_comment n ''mysql_listen_addr'' (''postgres_listen_addr: '' @ default_postgres_addr)
      else if fc_mysql_addr fc = [] \<and> fc_postgres_addr fc \<noteq> []
      then (case filter (\<lambda>k. k \<noteq> ''postgres_listen_addr'' \<and> k \<noteq> ''mysql_listen_addr'')
                   (List.map fst (yn_entries n)) of
              [] \<Rightarrow> n
            | k # ks \<Rightarrow> set_head_comment n k (''mysql_listen_addr: '' @ default_mysql_addr))
      else n)"

section \<open>Creating the file\<close>

datatype write_error =
    Marshal_failed | Mkdir_failed | Create_failed | Chmod_failed | Write_failed | Close_failed
  | File_exists string | Link_failed

text \<open>A file is its content and its mode.\<close>

type_synonym files = "string \<rightharpoonup> string \<times> nat"

datatype write_pc =
    At_mkdir
  | At_create
  | At_chmod string
  | At_write string
  | At_close string
  | At_link string
  | At_remove string "write_error option"
  | Returned "write_error option"

text \<open>
  What a system call came to: it worked, the temporary file got the random part of its name, a
  write stopped after some bytes, or the call failed for a reason of its own.
\<close>

datatype syscall = Call_ok | Created string | Wrote_only nat | Call_failed

definition temp_name :: "string \<Rightarrow> string \<Rightarrow> string" where
  "temp_name dir r = dir @ ''/.config-'' @ r @ ''.yaml.tmp''"

text \<open>
  One call of \<open>WriteConfig\<close>; a call that the event does not fit leaves the state. The content
  moves when the link is made, which stands for two names of one file: no step writes to the
  temporary name after it.
\<close>

fun write_step :: "string \<Rightarrow> string \<Rightarrow> string \<Rightarrow> syscall \<Rightarrow> write_pc \<times> files \<Rightarrow> write_pc \<times> files" where
  "write_step dir path data Call_ok (At_mkdir, fs) = (At_create, fs)"
| "write_step dir path data Call_failed (At_mkdir, fs) = (Returned (Some Mkdir_failed), fs)"
| "write_step dir path data (Created r) (At_create, fs) =
     (let t = temp_name dir r in
      if fs t = None then (At_chmod t, fs(t \<mapsto> ([], 384))) else (At_create, fs))"
| "write_step dir path data Call_failed (At_create, fs) = (Returned (Some Create_failed), fs)"
| "write_step dir path data Call_ok (At_chmod t, fs) =
     (At_write t, fs(t := map_option (\<lambda>(c, m). (c, 384)) (fs t)))"
| "write_step dir path data Call_failed (At_chmod t, fs) = (At_remove t (Some Chmod_failed), fs)"
| "write_step dir path data Call_ok (At_write t, fs) =
     (At_close t, fs(t := map_option (\<lambda>(c, m). (data, m)) (fs t)))"
| "write_step dir path data (Wrote_only n) (At_write t, fs) =
     (At_remove t (Some Write_failed), fs(t := map_option (\<lambda>(c, m). (take n data, m)) (fs t)))"
| "write_step dir path data Call_ok (At_close t, fs) = (At_link t, fs)"
| "write_step dir path data Call_failed (At_close t, fs) = (At_remove t (Some Close_failed), fs)"
| "write_step dir path data Call_ok (At_link t, fs) =
     (case fs path of
        None \<Rightarrow> (At_remove t None, fs(path := fs t))
      | Some f \<Rightarrow> (At_remove t (Some (File_exists path)), fs))"
| "write_step dir path data Call_failed (At_link t, fs) = (At_remove t (Some Link_failed), fs)"
| "write_step dir path data Call_ok (At_remove t r, fs) = (Returned r, fs(t := None))"
| "write_step dir path data Call_failed (At_remove t r, fs) = (Returned r, fs)"
| "write_step dir path data ev (pc, fs) = (pc, fs)"

text \<open>One \<open>WriteConfig\<close> on its own, with the outcomes of its system calls.\<close>

definition write_config ::
    "(file_config \<Rightarrow> 'v yaml_node option) \<Rightarrow> ('v yaml_node \<Rightarrow> string option) \<Rightarrow> string \<Rightarrow> string \<Rightarrow>
     file_config \<Rightarrow> syscall list \<Rightarrow> files \<Rightarrow> write_pc \<times> files" where
  "write_config encode marshal dir path fc evs fs =
     (case encode fc of
        None \<Rightarrow> (Returned (Some Marshal_failed), fs)
      | Some n \<Rightarrow>
          (case marshal (comment_disabled_listener n fc) of
             None \<Rightarrow> (Returned (Some Marshal_failed), fs)
           | Some data \<Rightarrow> fold (write_step dir path data) evs (At_mkdir, fs)))"

text \<open>Any number of setups for one path, each with the data it writes; a step is one call of one of them.\<close>

type_synonym setups = "(nat \<Rightarrow> write_pc) \<times> files"

inductive setup_step :: "string \<Rightarrow> string \<Rightarrow> (nat \<Rightarrow> string) \<Rightarrow> setups \<Rightarrow> setups \<Rightarrow> bool"
  for dir path :: string and data :: "nat \<Rightarrow> string" where
  call: "write_step dir path (data i) ev (pcs i, fs) = (pc, fs') \<Longrightarrow>
     setup_step dir path data (pcs, fs) (pcs(i := pc), fs')"

inductive setups_reach :: "string \<Rightarrow> string \<Rightarrow> (nat \<Rightarrow> string) \<Rightarrow> files \<Rightarrow> setups \<Rightarrow> bool"
  for dir path :: string and data :: "nat \<Rightarrow> string" and fs0 :: files where
  init: "setups_reach dir path data fs0 (\<lambda>i. At_mkdir, fs0)"
| step: "setups_reach dir path data fs0 s \<Longrightarrow> setup_step dir path data s s' \<Longrightarrow>
     setups_reach dir path data fs0 s'"

definition succeeded :: "write_pc \<Rightarrow> bool" where
  "succeeded pc = (case pc of Returned None \<Rightarrow> True | At_remove t None \<Rightarrow> True | _ \<Rightarrow> False)"

inductive_cases setup_stepE: "setup_step dir path data s s'"

section \<open>What the race comes to\<close>

fun owned :: "write_pc \<Rightarrow> string option" where
  "owned (At_chmod t) = Some t"
| "owned (At_write t) = Some t"
| "owned (At_close t) = Some t"
| "owned (At_link t) = Some t"
| "owned (At_remove t r) = Some t"
| "owned pc = None"

text \<open>What is in a setup's temporary file at each point of its run.\<close>

fun temp_content :: "string \<Rightarrow> write_pc \<Rightarrow> string \<times> nat \<Rightarrow> bool" where
  "temp_content d (At_write t) f = (snd f = 384)"
| "temp_content d (At_close t) f = (f = (d, 384))"
| "temp_content d (At_link t) f = (f = (d, 384))"
| "temp_content d pc f = True"

definition temps_ok :: "string \<Rightarrow> (nat \<Rightarrow> string) \<Rightarrow> setups \<Rightarrow> bool" where
  "temps_ok dir data s \<longleftrightarrow>
     (\<forall>i t. owned (fst s i) = Some t \<longrightarrow>
        (\<exists>r f. t = temp_name dir r \<and> snd s t = Some f \<and> temp_content (data i) (fst s i) f) \<and>
        (\<forall>j. owned (fst s j) = Some t \<longrightarrow> j = i))"

definition race_settled :: "string \<Rightarrow> (nat \<Rightarrow> string) \<Rightarrow> files \<Rightarrow> setups \<Rightarrow> bool" where
  "race_settled path data fs0 s \<longleftrightarrow>
     (if \<exists>w. succeeded (fst s w)
      then \<exists>w. fs0 path = None \<and> snd s path = Some (data w, 384) \<and>
               (\<forall>i. succeeded (fst s i) \<longleftrightarrow> i = w)
      else snd s path = fs0 path)"

lemma write_step_succeeded:
  assumes "write_step dir path d ev (pc, fs) = (pc', fs')" and "succeeded pc' \<noteq> succeeded pc"
  shows "\<exists>t. pc = At_link t \<and> fs path = None \<and> pc' = At_remove t None \<and> fs' = fs(path := fs t)"
  using assms by (cases pc; cases ev) (auto simp: succeeded_def Let_def split: option.splits if_splits)

text \<open>The files a call changes: its own temporary file, one it creates, or, by the link, the path.\<close>

lemma write_step_files:
  assumes "write_step dir path d ev (pc, fs) = (pc', fs')" and "fs' q \<noteq> fs q"
  shows "owned pc = Some q \<or> fs q = None \<and> owned pc' = Some q \<and> (\<exists>r. q = temp_name dir r) \<or>
    q = path \<and> (\<exists>t. pc = At_link t \<and> fs path = None \<and> pc' = At_remove t None)"
  using assms by (cases pc; cases ev) (auto simp: Let_def split: option.splits if_splits)

lemma write_step_owned:
  assumes "write_step dir path d ev (pc, fs) = (pc', fs')" and "owned pc' = Some t"
  shows "owned pc = Some t \<or> owned pc = None \<and> fs t = None \<and> (\<exists>r. t = temp_name dir r) \<and>
    fs' = fs(t \<mapsto> ([], 384)) \<and> pc' = At_chmod t"
  using assms by (cases pc; cases ev) (auto simp: Let_def split: option.splits if_splits)

lemma write_step_content:
  assumes "write_step dir path d ev (pc, fs) = (pc', fs')" and "owned pc = Some t" and "owned pc' = Some t"
    and "fs t = Some f" and "temp_content d pc f" and "t \<noteq> path"
  shows "\<exists>f'. fs' t = Some f' \<and> temp_content d pc' f'"
  using assms by (cases f; cases pc; cases ev) (auto split: option.splits)

lemma temps_ok_step:
  assumes step: "write_step dir path (data i) ev (pcs i, fs) = (pc, fs')"
    and ok: "temps_ok dir data (pcs, fs)" and path: "\<And>r. path \<noteq> temp_name dir r"
  shows "temps_ok dir data (pcs(i := pc), fs')"
proof -
  have own: "(\<exists>r f. t = temp_name dir r \<and> fs t = Some f \<and> temp_content (data j) (pcs j) f)"
    if "owned (pcs j) = Some t" for j t
    using ok that by (simp add: temps_ok_def)
  have uniq: "k = j" if "owned (pcs j) = Some t" "owned (pcs k) = Some t" for j k t
    using ok that by (simp add: temps_ok_def)
  have moved: "(\<exists>r f. t = temp_name dir r \<and> fs' t = Some f \<and> temp_content (data i) pc f) \<and>
      (\<forall>j. j \<noteq> i \<longrightarrow> owned (pcs j) \<noteq> Some t)" if "owned pc = Some t" for t
    using write_step_owned [OF step that]
  proof
    assume t: "owned (pcs i) = Some t"
    then obtain r f where "t = temp_name dir r" "fs t = Some f" "temp_content (data i) (pcs i) f"
      using own by blast
    with write_step_content [OF step t that] path uniq t show ?thesis by blast
  qed (use own in fastforce)
  have kept: "(\<exists>r f. t = temp_name dir r \<and> fs' t = Some f \<and> temp_content (data j) (pcs j) f)"
    if tj: "owned (pcs j) = Some t" and ji: "j \<noteq> i" for j t
  proof -
    obtain r f where f: "t = temp_name dir r" "fs t = Some f" "temp_content (data j) (pcs j) f"
      using own tj by blast
    have "fs' t = fs t"
      using write_step_files [OF step, of t] uniq [OF tj, of i] ji f(1,2) path by fastforce
    with f show ?thesis by metis
  qed
  show ?thesis
    unfolding temps_ok_def using moved kept uniq by (auto simp: fun_upd_def split: if_splits)
qed

lemma race_settled_step:
  assumes step: "write_step dir path (data i) ev (pcs i, fs) = (pc, fs')"
    and ok: "temps_ok dir data (pcs, fs)" and path: "\<And>r. path \<noteq> temp_name dir r"
    and settled: "race_settled path data fs0 (pcs, fs)"
  shows "race_settled path data fs0 (pcs(i := pc), fs')"
proof (cases "succeeded pc = succeeded (pcs i)")
  case True
  then have s: "succeeded ((pcs(i := pc)) j) = succeeded (pcs j)" for j by simp
  have "fs' path = fs path"
  proof (rule ccontr)
    assume "fs' path \<noteq> fs path"
    from write_step_files [OF step this] show False
    proof (elim disjE conjE exE)
      assume "owned (pcs i) = Some path"
      with ok obtain r where "path = temp_name dir r" unfolding temps_ok_def fst_conv by blast
      with path show False by blast
    next
      fix t assume "pcs i = At_link t" "pc = At_remove t None"
      with True show False by (simp add: succeeded_def)
    qed (use path in blast)
  qed
  with settled show ?thesis unfolding race_settled_def fst_conv snd_conv s by (simp only:)
next
  case False
  then obtain t where t: "pcs i = At_link t" "fs path = None" "pc = At_remove t None" "fs' = fs(path := fs t)"
    using write_step_succeeded [OF step] by blast
  then have "owned (pcs i) = Some t" by simp
  with ok obtain f where "fs t = Some f" "temp_content (data i) (pcs i) f"
    unfolding temps_ok_def fst_conv snd_conv by blast
  then have "fs t = Some (data i, 384)" using t(1) by simp
  moreover have "\<not> succeeded (pcs j)" for j
    using settled t(2) by (auto simp: race_settled_def split: if_splits)
  moreover from this have "fs0 path = None" using settled t(2) by (simp add: race_settled_def)
  ultimately show ?thesis using t by (auto simp: race_settled_def succeeded_def intro!: exI [of _ i])
qed

definition found_existing :: "string \<Rightarrow> write_pc \<Rightarrow> bool" where
  "found_existing path pc \<longleftrightarrow>
     (\<exists>t. pc = At_remove t (Some (File_exists path))) \<or> pc = Returned (Some (File_exists path))"

lemma write_step_found_existing:
  assumes "write_step dir path d ev (pc, fs) = (pc', fs')" and "found_existing path pc'"
  shows "found_existing path pc \<or> fs path \<noteq> None"
  using assms by (cases pc; cases ev) (auto simp: found_existing_def Let_def split: option.splits if_splits)

definition race_inv :: "string \<Rightarrow> string \<Rightarrow> (nat \<Rightarrow> string) \<Rightarrow> files \<Rightarrow> setups \<Rightarrow> bool" where
  "race_inv dir path data fs0 s \<longleftrightarrow>
     temps_ok dir data s \<and> race_settled path data fs0 s \<and>
     (\<forall>q. q \<noteq> path \<and> (\<forall>r. q \<noteq> temp_name dir r) \<longrightarrow> snd s q = fs0 q) \<and>
     (\<forall>i. found_existing path (fst s i) \<longrightarrow> snd s path \<noteq> None)"

lemma write_step_keeps_path:
  assumes "write_step dir path (data i) ev (pcs i, fs) = (pc, fs')"
    and "temps_ok dir data (pcs, fs)" and path: "\<And>r. path \<noteq> temp_name dir r" and "fs path \<noteq> None"
  shows "fs' path = fs path"
proof (rule ccontr)
  assume "fs' path \<noteq> fs path"
  from write_step_files [OF assms(1) this] assms(4) have "owned (pcs i) = Some path" by auto
  with assms(2) obtain r where "path = temp_name dir r" unfolding temps_ok_def fst_conv by blast
  with path show False by blast
qed

lemma race_inv_step:
  assumes step: "write_step dir path (data i) ev (pcs i, fs) = (pc, fs')"
    and inv: "race_inv dir path data fs0 (pcs, fs)" and path: "\<And>r. path \<noteq> temp_name dir r"
  shows "race_inv dir path data fs0 (pcs(i := pc), fs')"
proof -
  from inv have ok: "temps_ok dir data (pcs, fs)" and settled: "race_settled path data fs0 (pcs, fs)"
    and rest: "\<And>q. q \<noteq> path \<Longrightarrow> \<forall>r. q \<noteq> temp_name dir r \<Longrightarrow> fs q = fs0 q"
    and found: "\<And>j. found_existing path (pcs j) \<Longrightarrow> fs path \<noteq> None"
    by (auto simp: race_inv_def)
  have other: "fs' q = fs0 q" if "q \<noteq> path" "\<forall>r. q \<noteq> temp_name dir r" for q
  proof -
    have "owned (pcs i) \<noteq> Some q"
      using ok that(2) unfolding temps_ok_def fst_conv by blast
    then have "fs' q = fs q" using write_step_files [OF step, of q] that by blast
    with rest that show ?thesis by simp
  qed
  have "fs' path \<noteq> None" if "fs path \<noteq> None"
    using write_step_keeps_path [of dir path data i ev pcs fs pc fs', OF step ok path that] that by simp
  moreover have "fs path \<noteq> None" if "found_existing path ((pcs(i := pc)) j)" for j
    using that found write_step_found_existing [OF step] by (cases "j = i") auto
  ultimately show ?thesis
    using temps_ok_step [of dir path data i ev pcs fs pc fs', OF step ok path]
      race_settled_step [of dir path data i ev pcs fs pc fs', OF step ok path settled] other
    unfolding race_inv_def fst_conv snd_conv by blast
qed

lemma race_inv_reach:
  assumes "setups_reach dir path data fs0 s" and "\<And>r. path \<noteq> temp_name dir r"
  shows "race_inv dir path data fs0 s"
  using assms(1)
proof (induction rule: setups_reach.induct)
  case init
  show ?case
    by (auto simp: race_inv_def temps_ok_def race_settled_def succeeded_def found_existing_def)
next
  case (step s s')
  from step.hyps(2) obtain i ev pcs fs pc fs' where s: "s = (pcs, fs)" "s' = (pcs(i := pc), fs')"
      "write_step dir path (data i) ev (pcs i, fs) = (pc, fs')"
    by (rule setup_stepE)
  show ?case
    using race_inv_step [of dir path data i ev pcs fs pc fs' fs0] s step.IH assms(2) by simp
qed

text \<open>
  Property C20: However many setups write a configuration to one path at once, and whatever fails in
  between: a file that was there stays as it was and none of them succeeds; otherwise the path has
  no file until one of them succeeds and holds from then on exactly what that one wrote, with
  owner-only permissions; no other succeeds, one that reports an existing file is right, and no file
  is touched but the path and the temporary ones.
\<close>

theorem config_written_at_most_once:
  assumes "setups_reach dir path data fs0 (pcs, fs)" and "\<And>r. path \<noteq> temp_name dir r"
  shows "(fs0 path \<noteq> None \<longrightarrow> fs path = fs0 path \<and> (\<forall>i. \<not> succeeded (pcs i))) \<and>
    (fs0 path = None \<longrightarrow>
       fs path = None \<and> (\<forall>i. \<not> succeeded (pcs i)) \<or>
       (\<exists>w. fs path = Some (data w, 384) \<and> (\<forall>i. succeeded (pcs i) \<longleftrightarrow> i = w))) \<and>
    (\<forall>i. pcs i = Returned (Some (File_exists path)) \<longrightarrow> fs path \<noteq> None) \<and>
    (\<forall>q. q \<noteq> path \<and> (\<forall>r. q \<noteq> temp_name dir r) \<longrightarrow> fs q = fs0 q)"
  using race_inv_reach [OF assms]
  unfolding race_inv_def race_settled_def found_existing_def fst_conv snd_conv
  by (auto split: if_splits)

fun setup_run :: "string \<Rightarrow> string \<Rightarrow> (nat \<Rightarrow> string) \<Rightarrow> (nat \<times> syscall) list \<Rightarrow> setups \<Rightarrow> setups"
  where
  "setup_run dir path data [] s = s"
| "setup_run dir path data ((i, ev) # evs) (pcs, fs) =
     (let (pc, fs') = write_step dir path (data i) ev (pcs i, fs) in
      setup_run dir path data evs (pcs(i := pc), fs'))"

lemma setup_run_reach:
  "setups_reach dir path data fs0 s \<Longrightarrow> setups_reach dir path data fs0 (setup_run dir path data evs s)"
proof (induction evs s rule: setup_run.induct)
  case (2 dir path data i ev evs pcs fs)
  obtain pc fs' where w: "write_step dir path (data i) ev (pcs i, fs) = (pc, fs')"
    by (cases "write_step dir path (data i) ev (pcs i, fs)")
  have "setups_reach dir path data fs0 (pcs(i := pc), fs')"
    using 2(2) setup_step.call [of dir path data i ev pcs fs pc fs', OF w] by (rule setups_reach.step)
  then show ?case using 2(1) [of "(pc, fs')" pc fs'] w by simp
qed simp

lemma config_written_at_most_once_witness:
  "let s = setup_run ''d'' ''d/c'' (\<lambda>i. if i = 0 then ''x'' else ''y'')
      [(0, Call_ok), (1, Call_ok), (0, Created ''1''), (1, Created ''2''), (1, Call_ok), (1, Call_ok),
       (0, Call_ok), (0, Call_ok), (0, Call_ok), (0, Call_ok), (1, Call_ok), (1, Call_ok), (1, Call_ok)]
      (\<lambda>i. At_mkdir, Map.empty) in
   (\<forall>i. succeeded (fst s i) \<longrightarrow> i = 0) \<and> fst s 1 = Returned (Some (File_exists ''d/c'')) \<and>
   snd s ''d/c'' = Some (''x'', 384)"
proof -
  let ?data = "\<lambda>i::nat. if i = 0 then ''x'' else ''y''"
  let ?evs = "[(0, Call_ok), (1, Call_ok), (0, Created ''1''), (1, Created ''2''), (1, Call_ok), (1, Call_ok),
       (0, Call_ok), (0, Call_ok), (0, Call_ok), (0, Call_ok), (1, Call_ok), (1, Call_ok), (1, Call_ok)]"
  let ?s = "setup_run ''d'' ''d/c'' ?data ?evs (\<lambda>i. At_mkdir, Map.empty)"
  have run: "succeeded (fst ?s 0) \<and> fst ?s 1 = Returned (Some (File_exists ''d/c'')) \<and>
      snd ?s ''d/c'' = Some (''x'', 384)"
    by (simp add: temp_name_def succeeded_def Let_def)
  have "setups_reach ''d'' ''d/c'' ?data Map.empty (fst ?s, snd ?s)"
    using setup_run_reach [OF setups_reach.init, of "''d''" "''d/c''" ?data Map.empty ?evs] by simp
  then obtain w where w: "succeeded (fst ?s i) \<longleftrightarrow> i = w" for i
    using config_written_at_most_once [of "''d''" "''d/c''" ?data Map.empty "fst ?s" "snd ?s"] run
    by (force simp only: temp_name_def append.simps list.inject char.inject simp_thms)
  then have "w = 0" using run by metis
  with w run show ?thesis unfolding Let_def by (simp only: simp_thms)
qed

section \<open>What a first setup writes loads\<close>

lemma default_durations: "parse_duration ''500ms'' = Inr 500000000" "parse_duration ''120s'' = Inr 120000000000"
  by code_simp+

lemma new_file_config_resolves:
  assumes "name \<noteq> []"
  shows "resolve_profile env (new_file_config name url key user pass enable_pg enable_mysql ro) [] =
    Inr \<lparr>c_profile = name,
         c_postgres_addr = (if enable_pg \<or> \<not> enable_mysql then default_postgres_addr else []),
         c_mysql_addr = (if enable_mysql then default_mysql_addr else []),
         c_redash_url = expand_env env url, c_api_key = expand_env env key,
         c_username = (if user = [] then default_username else user),
         c_password = (if pass = [] then default_password else pass),
         c_poll_interval = ''500ms'', c_poll_timeout = ''120s'',
         c_read_only = (if ro then Some True else None)\<rparr>"
  using assms
  by (auto simp: resolve_profile_iff new_file_config_def profile_config_def innermost_def Let_def)

lemma new_file_config_validates:
  assumes "expand_env env url \<noteq> []" and "expand_env env key \<noteq> []" and "name \<noteq> []"
    and "resolve_profile env (new_file_config name url key user pass enable_pg enable_mysql ro) [] = Inr c"
  shows "validate c = []"
  using assms
  by (auto simp: new_file_config_resolves validate_Nil_iff servable_def get_poll_interval_def
      get_poll_timeout_def default_durations default_postgres_addr_def default_mysql_addr_def
      default_username_def default_password_def split: if_splits)

text \<open>
  A first setup works: when no file is in the way and no call fails, the file is
  written, and starting without naming a profile loads from it the URL, the key, the listeners and
  the read-only flag that were asked for (PostgreSQL when none was), with the built-in credentials
  only where none were given. It relies on the YAML decoder reading back what the encoder and the
  comment make of this configuration, and on a dollar-free URL and key: one with a dollar is
  expanded when it is read.
\<close>

theorem first_setup_loads:
  assumes "encode fc = Some n" and "marshal (comment_disabled_listener n fc) = Some data"
    and "decode data = Some fc" and "fc = new_file_config name url key user pass enable_pg enable_mysql ro"
    and "name \<noteq> []" and "url \<noteq> []" and "key \<noteq> []" and "CHR ''$'' \<notin> set url" and "CHR ''$'' \<notin> set key"
    and "fs path = None" and "fs (temp_name dir r) = None" and "path \<noteq> temp_name dir r"
  shows "\<exists>fs' c.
    write_config encode marshal dir path fc
      [Call_ok, Created r, Call_ok, Call_ok, Call_ok, Call_ok, Call_ok] fs = (Returned None, fs') \<and>
    fs' = fs(path \<mapsto> (data, 384)) \<and>
    load_config (map_option fst \<circ> fs') decode env path [] = Inr c \<and>
    c_redash_url c = url \<and> c_api_key c = key \<and> is_read_only c = ro \<and>
    (c_postgres_addr c \<noteq> [] \<longleftrightarrow> enable_pg \<or> \<not> enable_mysql) \<and> (c_mysql_addr c \<noteq> [] \<longleftrightarrow> enable_mysql) \<and>
    c_username c = (if user = [] then default_username else user) \<and>
    c_password c = (if pass = [] then default_password else pass)"
proof -
  let ?fs' = "fs(path \<mapsto> (data, 384))"
  have w: "write_config encode marshal dir path fc
      [Call_ok, Created r, Call_ok, Call_ok, Call_ok, Call_ok, Call_ok] fs = (Returned None, ?fs')"
    using assms(1,2,10-12) by (auto simp: write_config_def Let_def fun_upd_twist)
  have e: "expand_env env url = url" "expand_env env key = key"
    using assms(8,9) by (auto simp: expand_env_plain)
  obtain c where c: "resolve_profile env fc [] = Inr c"
    using assms(4,5) new_file_config_resolves by simp
  have "validate c = []"
    by (rule new_file_config_validates [OF _ _ assms(5) c [unfolded assms(4)]]) (use e assms(6,7) in simp_all)
  then have l: "load_config (map_option fst \<circ> ?fs') decode env path [] = Inr c"
    using c by (simp add: load_config_def read_file_def load_file_config_def assms(3))
  have "c_redash_url c = url \<and> c_api_key c = key \<and> is_read_only c = ro \<and>
    (c_postgres_addr c \<noteq> [] \<longleftrightarrow> enable_pg \<or> \<not> enable_mysql) \<and> (c_mysql_addr c \<noteq> [] \<longleftrightarrow> enable_mysql) \<and>
    c_username c = (if user = [] then default_username else user) \<and>
    c_password c = (if pass = [] then default_password else pass)"
    using c e by (auto simp: assms(4) new_file_config_resolves [OF assms(5)] is_read_only_def
        default_postgres_addr_def default_mysql_addr_def split: if_splits)
  with w l show ?thesis by blast
qed

definition sample_file :: file_config where
  "sample_file = new_file_config ''default'' ''http://r'' ''k'' [] [] False True True"

lemma first_setup_loads_witness:
  "\<exists>fs' c.
    write_config (\<lambda>fc. Some \<lparr>yn_mapping = True, yn_entries = [(''mysql_listen_addr'', [], ())]\<rparr>)
      (\<lambda>n. Some (fst (snd (hd (yn_entries n))))) ''d'' ''d/c'' sample_file
      [Call_ok, Created ''1'', Call_ok, Call_ok, Call_ok, Call_ok, Call_ok] Map.empty = (Returned None, fs') \<and>
    load_config (map_option fst \<circ> fs') (\<lambda>data. Some sample_file) (\<lambda>v. []) ''d/c'' [] = Inr c \<and>
    is_read_only c"
  using first_setup_loads [of "\<lambda>fc. Some \<lparr>yn_mapping = True, yn_entries = [(''mysql_listen_addr'', [], ())]\<rparr>"
      sample_file "\<lparr>yn_mapping = True, yn_entries = [(''mysql_listen_addr'', [], ())]\<rparr>"
      "\<lambda>n. Some (fst (snd (hd (yn_entries n))))" _ "\<lambda>data. Some sample_file"
      "''default''" "''http://r''" "''k''" "[]" "[]" False True True Map.empty "''d/c''" "''d''" "''1''" "\<lambda>v. []",
      OF refl refl refl sample_file_def]
  by (auto simp: temp_name_def)

lemma report_agrees_with_load_witness:
  "\<exists>s e c. load_all (\<lambda>p. Some []) (\<lambda>data. Some sample_file) (\<lambda>v. []) ''c'' = Inr s \<and>
     e \<in> set (sum_profiles s) \<and> ps_error e = None \<and>
     load_config (\<lambda>p. Some []) (\<lambda>data. Some sample_file) (\<lambda>v. []) ''c'' (ps_name e) = Inr c"
proof -
  let ?e = "summarize_profile (\<lambda>v. []) sample_file ''default''"
  let ?s = "\<lparr>sum_default = ''default'', sum_profiles = [?e]\<rparr>"
  have s: "load_all (\<lambda>p. Some []) (\<lambda>data. Some sample_file) (\<lambda>v. []) ''c'' = Inr ?s"
    by (simp add: load_all_def read_file_def sample_file_def new_file_config_def profile_names_def Let_def)
  have "(case ps_error ?e of None \<Rightarrow> True | Some x \<Rightarrow> False) \<and>
      (case ps_config ?e of None \<Rightarrow> False | Some c \<Rightarrow> True)"
    by code_simp
  then have "ps_error ?e = None \<and> (\<exists>c. ps_config ?e = Some c)"
    by (auto split: option.splits)
  then show ?thesis
    using report_agrees_with_load [OF s] s by (metis list.set_intros(1) config_summary.select_convs(2))
qed

end
