(* ===== verification/Command_Line.thy ===== *)
theory Command_Line
  imports Config_Write Redash_Registry Redash_Types
begin

text \<open>
  \<open>cmd/redash-wire\<close> around the configuration: which file is used (\<open>internal/config/resolve.go\<close>),
  the stable error codes and exit statuses (\<open>cli.go\<close>), the \<open>config\<close> command with its report
  (\<open>cmd_config.go\<close>), the \<open>init\<close> command (\<open>cmd_init.go\<close>), and what \<open>serve\<close> of \<open>main.go\<close> derives
  from a loaded profile. The working directory, the home directory and the answers of \<open>os.Stat\<close>
  are arguments; flag parsing, terminals and the styling of the banner are left out.
\<close>

section \<open>Which file\<close>

record resolved =
  r_path :: string
  r_found :: bool
  r_from_cwd :: bool

text \<open>\<open>filepath.Join\<close> of a directory and a plain name; \<open>home\<close> is \<open>None\<close> when it is not known.\<close>

definition join_path :: "string \<Rightarrow> string \<Rightarrow> string" where
  "join_path dir name = trim_right (\<lambda>c. c = CHR ''/'') dir @ ''/'' @ name"

definition default_config_dir :: "string option \<Rightarrow> string option" where
  "default_config_dir home = map_option (\<lambda>h. join_path h ''.redash-wire'') home"

definition default_config_path :: "string option \<Rightarrow> string option" where
  "default_config_path home = map_option (\<lambda>d. join_path d ''config.yaml'') (default_config_dir home)"

text \<open>\<open>absolute\<close> is \<open>filepath.Abs\<close>, \<open>exists\<close> whether \<open>os.Stat\<close> succeeds.\<close>

definition resolve_config ::
    "(string \<Rightarrow> string option) \<Rightarrow> (string \<Rightarrow> bool) \<Rightarrow> string option \<Rightarrow> string \<Rightarrow> bool \<Rightarrow> resolved option"
  where
  "resolve_config absolute exists home flag_path explicit =
     (if explicit
      then map_option (\<lambda>p. \<lparr>r_path = p, r_found = exists p, r_from_cwd = False\<rparr>) (absolute flag_path)
      else
        let cwd = (case absolute ''config.yaml'' of
                     Some p \<Rightarrow> if exists p then Some p else None
                   | None \<Rightarrow> None) in
        case cwd of
          Some p \<Rightarrow> Some \<lparr>r_path = p, r_found = True, r_from_cwd = True\<rparr>
        | None \<Rightarrow> map_option (\<lambda>p. \<lparr>r_path = p, r_found = exists p, r_from_cwd = False\<rparr>)
            (default_config_path home))"

section \<open>Error codes\<close>

datatype cli_code =
    Usage | Not_configured | Invalid_config | Profile_missing | Connection_failed
  | Authentication_failed | Config_exists | Io_error

definition exit_ok :: nat where "exit_ok = 0"
definition exit_error :: nat where "exit_error = 1"
definition exit_usage :: nat where "exit_usage = 2"

definition report_error :: "cli_code \<Rightarrow> nat" where
  "report_error code = (if code = Usage then exit_usage else exit_error)"

definition resolve_config_path ::
    "(string \<Rightarrow> string option) \<Rightarrow> (string \<Rightarrow> bool) \<Rightarrow> string option \<Rightarrow> string \<Rightarrow>
     cli_code + resolved \<times> string" where
  "resolve_config_path absolute exists home flag_path =
     (let explicit = (flag_path \<noteq> []);
          path = (if explicit then flag_path else ''config.yaml'') in
      case resolve_config absolute exists home path explicit of
        None \<Rightarrow> Inl Io_error
      | Some res \<Rightarrow>
          Inr (res, if explicit then ''explicit'' else if r_from_cwd res then ''cwd'' else ''home''))"

definition classify_load_error :: "config_error \<Rightarrow> cli_code" where
  "classify_load_error e =
     (case e of
        Profile_not_found name names \<Rightarrow> Profile_missing
      | Read_failed path \<Rightarrow> Io_error
      | _ \<Rightarrow> Invalid_config)"

definition classify_api_error :: "go_error \<Rightarrow> cli_code" where
  "classify_api_error e =
     (case http_status e of
        None \<Rightarrow> Connection_failed
      | Some s \<Rightarrow> if s = 401 \<or> s = 403 \<or> s = 404 then Authentication_failed else Connection_failed)"

definition load_profile ::
    "(string \<Rightarrow> string option) \<Rightarrow> string option \<Rightarrow> (string \<rightharpoonup> string) \<Rightarrow> (string \<Rightarrow> file_config option) \<Rightarrow>
     (string \<Rightarrow> string) \<Rightarrow> string \<Rightarrow> string \<Rightarrow> cli_code + config" where
  "load_profile absolute home files decode env flag_path wanted =
     (case resolve_config_path absolute (\<lambda>p. files p \<noteq> None) home flag_path of
        Inl code \<Rightarrow> Inl code
      | Inr (res, source) \<Rightarrow>
          if \<not> r_found res then Inl Not_configured
          else case load_config files decode env (r_path res) wanted of
            Inl e \<Rightarrow> Inl (classify_load_error e)
          | Inr c \<Rightarrow> Inr c)"

section \<open>Error texts\<close>

definition duration_message :: "string \<Rightarrow> duration_error \<Rightarrow> string" where
  "duration_message s e =
     (case e of
        Duration_invalid \<Rightarrow> ''time: invalid duration '' @ go_quote s
      | Duration_missing_unit \<Rightarrow> ''time: missing unit in duration '' @ go_quote s
      | Duration_unknown_unit u \<Rightarrow>
          ''time: unknown unit '' @ go_quote u @ '' in duration '' @ go_quote s)"

definition problem_message :: "config_problem \<Rightarrow> string" where
  "problem_message p =
     (case p of
        No_listeners \<Rightarrow> ''no listeners enabled: set postgres_listen_addr: '' @ go_quote ''127.0.0.1:15432''
          @ '' and/or mysql_listen_addr: '' @ go_quote ''127.0.0.1:13306''
      | No_redash_url \<Rightarrow> ''redash_url is required''
      | No_api_key \<Rightarrow> ''api_key is required (check that any ${ENV_VAR} in api_key is set)''
      | Empty_username \<Rightarrow> ''username must not be empty''
      | Empty_password \<Rightarrow> ''password must not be empty''
      | Bad_poll_interval s e \<Rightarrow> ''invalid poll_interval '' @ go_quote s @ '': '' @ duration_message s e
      | Poll_interval_not_positive s \<Rightarrow> ''poll_interval must be positive, got '' @ go_quote s
      | Bad_poll_timeout s e \<Rightarrow> ''invalid poll_timeout '' @ go_quote s @ '': '' @ duration_message s e
      | Poll_timeout_not_positive s \<Rightarrow> ''poll_timeout must be positive, got '' @ go_quote s)"

definition problems_message :: "config_problem list \<Rightarrow> string" where
  "problems_message ps = join_with [newline] (List.map problem_message ps)"

definition config_error_message :: "config_error \<Rightarrow> string" where
  "config_error_message e =
     (case e of
        Read_failed path \<Rightarrow> ''reading config file: '' @ path
      | Parse_failed path \<Rightarrow> ''parsing config file: '' @ path
      | No_profiles \<Rightarrow> ''no profiles defined in config file''
      | No_profile_chosen names \<Rightarrow>
          ''no profile specified and no default_profile set (available: '' @ join_with '', '' names @ '')''
      | Profile_not_found name names \<Rightarrow>
          ''profile '' @ go_quote name @ '' not found (available: '' @ join_with '', '' names @ '')''
      | Default_not_found name names \<Rightarrow>
          ''default_profile '' @ go_quote name @ '' not found (available: '' @ join_with '', '' names @ '')''
      | Invalid_profile name ps \<Rightarrow> ''profile '' @ go_quote name @ '': '' @ problems_message ps)"

definition entry_message :: "entry_error \<Rightarrow> string" where
  "entry_message e = (case e of Unresolved ce \<Rightarrow> config_error_message ce | Problems ps \<Rightarrow> problems_message ps)"

section \<open>The config command\<close>

record profile_payload =
  pp_name :: string
  pp_redash_url :: string
  pp_api_key_set :: bool
  pp_api_key :: "string option"
  pp_postgres_addr :: string
  pp_mysql_addr :: string
  pp_username :: string
  pp_password :: string
  pp_default_credentials :: bool
  pp_poll_interval :: string
  pp_poll_timeout :: string
  pp_read_only :: bool
  pp_valid :: bool
  pp_error :: string

record config_payload =
  cp_path :: string
  cp_exists :: bool
  cp_source :: string
  cp_default_profile :: string
  cp_profiles :: "profile_payload list"

definition profile_payload_of :: "bool \<Rightarrow> profile_summary \<Rightarrow> profile_payload" where
  "profile_payload_of show_secrets p =
     (let entry = \<lparr>pp_name = ps_name p, pp_redash_url = [], pp_api_key_set = False, pp_api_key = None,
        pp_postgres_addr = [], pp_mysql_addr = [], pp_username = [], pp_password = [],
        pp_default_credentials = False, pp_poll_interval = [], pp_poll_timeout = [],
        pp_read_only = False, pp_valid = (ps_error p = None),
        pp_error = (case ps_error p of None \<Rightarrow> [] | Some e \<Rightarrow> entry_message e)\<rparr> in
      case ps_config p of
        None \<Rightarrow> entry
      | Some c \<Rightarrow> entry\<lparr>pp_redash_url := c_redash_url c, pp_api_key_set := (c_api_key c \<noteq> []),
          pp_postgres_addr := c_postgres_addr c, pp_mysql_addr := c_mysql_addr c,
          pp_username := c_username c, pp_password := c_password c,
          pp_default_credentials := uses_default_credentials c,
          pp_poll_interval := c_poll_interval c, pp_poll_timeout := c_poll_timeout c,
          pp_read_only := is_read_only c,
          pp_api_key := (if show_secrets then Some (c_api_key c) else None)\<rparr>)"

definition build_config_payload ::
    "resolved \<Rightarrow> string \<Rightarrow> config_summary option \<Rightarrow> bool \<Rightarrow> config_payload" where
  "build_config_payload res source summary show_secrets =
     (let payload = \<lparr>cp_path = r_path res, cp_exists = r_found res, cp_source = source,
        cp_default_profile = [], cp_profiles = []\<rparr> in
      case summary of
        None \<Rightarrow> payload
      | Some s \<Rightarrow> payload\<lparr>cp_default_profile := sum_default s,
          cp_profiles := List.map (profile_payload_of show_secrets) (sum_profiles s)\<rparr>)"

definition bool_label :: "bool \<Rightarrow> string \<Rightarrow> string \<Rightarrow> string" where
  "bool_label b yes no = (if b then yes else no)"

definition addr_label :: "string \<Rightarrow> string" where
  "addr_label addr = (if addr = [] then ''disabled'' else addr)"

definition api_key_label :: "profile_payload \<Rightarrow> string" where
  "api_key_label p =
     (case pp_api_key p of
        Some k \<Rightarrow> if k \<noteq> [] then k else bool_label (pp_api_key_set p) ''set'' ''missing''
      | None \<Rightarrow> bool_label (pp_api_key_set p) ''set'' ''missing'')"

text \<open>\<open>shortenHome\<close> of \<open>main.go\<close>.\<close>

definition shorten_home :: "string option \<Rightarrow> string \<Rightarrow> string" where
  "shorten_home home path =
     (case home of
        None \<Rightarrow> path
      | Some h \<Rightarrow>
          let rel = drop (length h) path in
          if has_prefix path h \<and> (rel = [] \<or> hd rel = CHR ''/'') then CHR ''~'' # rel else path)"

definition print_profile :: "profile_payload \<Rightarrow> string list" where
  "print_profile p =
     [[], ''['' @ pp_name p @ '']'',
      ''  redash url:  '' @ pp_redash_url p,
      ''  api key:     '' @ api_key_label p,
      ''  postgres:    '' @ addr_label (pp_postgres_addr p),
      ''  mysql:       '' @ addr_label (pp_mysql_addr p),
      ''  username:    '' @ pp_username p,
      ''  password:    '' @ pp_password p]
     @ (if pp_default_credentials p then [''               (built-in defaults)''] else [])
     @ [''  poll:        every '' @ pp_poll_interval p @ '', timeout '' @ pp_poll_timeout p,
        ''  read only:   '' @ bool_label (pp_read_only p) ''yes'' ''no'']
     @ (if pp_valid p then [] else [''  invalid:     '' @ pp_error p])"

text \<open>The lines \<open>printConfig\<close> writes.\<close>

definition print_config :: "string option \<Rightarrow> config_payload \<Rightarrow> string list" where
  "print_config home p =
     (''config: '' @ shorten_home home (cp_path p) @ '' ('' @ cp_source p @ '')'')
     # (if \<not> cp_exists p
        then [''status: not configured '' @ [CHR 0xE2, CHR 0x80, CHR 0x94] @
                '' run `redash-wire` to set up, or `redash-wire init -url <url>`'']
        else (''default profile: '' @ cp_default_profile p) # concat (List.map print_profile (cp_profiles p)))"

definition cmd_config ::
    "(string \<Rightarrow> string option) \<Rightarrow> string option \<Rightarrow> (string \<rightharpoonup> string) \<Rightarrow> (string \<Rightarrow> file_config option) \<Rightarrow>
     (string \<Rightarrow> string) \<Rightarrow> string \<Rightarrow> bool \<Rightarrow> cli_code + config_payload" where
  "cmd_config absolute home files decode env flag_path show_secrets =
     (case resolve_config_path absolute (\<lambda>p. files p \<noteq> None) home flag_path of
        Inl code \<Rightarrow> Inl code
      | Inr (res, source) \<Rightarrow>
          if r_found res
          then (case load_all files decode env (r_path res) of
                  Inl e \<Rightarrow> Inl (classify_load_error e)
                | Inr s \<Rightarrow> Inr (build_config_payload res source (Some s) show_secrets))
          else Inr (build_config_payload res source None show_secrets))"

section \<open>The init command\<close>

text \<open>\<open>valid_url\<close> is \<open>setup.ValidateURL\<close>, which parses with \<open>net/url\<close>.\<close>

definition init_url :: "(string \<Rightarrow> bool) \<Rightarrow> string \<Rightarrow> cli_code + string" where
  "init_url valid_url raw =
     (let url = trim_right (\<lambda>c. c = CHR ''/'') raw in
      if valid_url url then Inr url else Inl Usage)"

definition max_api_key_bytes :: nat where
  "max_api_key_bytes = 4096"

text \<open>Standard input: a terminal, or what reading it gives, \<open>None\<close> for an error.\<close>

datatype key_input = Terminal | Piped "string option"

definition read_api_key_from :: "string option \<Rightarrow> cli_code + string" where
  "read_api_key_from r =
     (case r of
        None \<Rightarrow> Inl Io_error
      | Some data \<Rightarrow>
          let key = trim_space (take max_api_key_bytes data) in
          if key = [] then Inl Usage else Inr key)"

definition read_api_key :: "key_input \<Rightarrow> cli_code + string" where
  "read_api_key inp = (case inp of Terminal \<Rightarrow> Inl Usage | Piped r \<Rightarrow> read_api_key_from r)"

datatype stat_answer = Not_there | Stat_failed | Directory | Regular_file

definition init_target ::
    "(string \<Rightarrow> string option) \<Rightarrow> (string \<Rightarrow> stat_answer) \<Rightarrow> string option \<Rightarrow> string \<Rightarrow> cli_code + string"
  where
  "init_target absolute stat home flag_path =
     (case (if flag_path = [] then default_config_path home else Some flag_path) of
        None \<Rightarrow> Inl Io_error
      | Some path \<Rightarrow>
          (case absolute path of
             None \<Rightarrow> Inl Io_error
           | Some p \<Rightarrow>
               (case stat p of
                  Not_there \<Rightarrow> Inr p
                | Stat_failed \<Rightarrow> Inl Io_error
                | Directory \<Rightarrow> Inl Io_error
                | Regular_file \<Rightarrow> Inl Config_exists)))"

record session_info =
  user_name :: string
  user_email :: string
  redash_version :: string

record init_payload =
  ip_path :: string
  ip_profile :: string
  ip_url :: string
  ip_postgres :: bool
  ip_mysql :: bool
  ip_read_only :: bool
  ip_sources :: nat
  ip_user_name :: string
  ip_user_email :: string
  ip_version :: string

definition build_init_payload ::
    "string \<Rightarrow> string \<Rightarrow> string \<Rightarrow> session_info option \<Rightarrow> data_source list \<Rightarrow> bool \<Rightarrow> bool \<Rightarrow> bool \<Rightarrow> init_payload"
  where
  "build_init_payload path prof url session sources has_pg has_mysql ro =
     \<lparr>ip_path = path, ip_profile = prof, ip_url = url, ip_postgres = has_pg, ip_mysql = has_mysql,
      ip_read_only = ro, ip_sources = length sources,
      ip_user_name = (case session of None \<Rightarrow> [] | Some s \<Rightarrow> user_name s),
      ip_user_email = (case session of None \<Rightarrow> [] | Some s \<Rightarrow> user_email s),
      ip_version = (case session of None \<Rightarrow> [] | Some s \<Rightarrow> redash_version s)\<rparr>"

definition enabled_listeners :: "init_payload \<Rightarrow> string list" where
  "enabled_listeners p =
     (if ip_postgres p then [''postgres '' @ default_postgres_addr] else [])
     @ (if ip_mysql p then [''mysql '' @ default_mysql_addr] else [])"

text \<open>
  \<open>ValidateConnection\<close>: the session request, then the list of data sources; the answers of the two
  requests are arguments.
\<close>

definition validate_connection ::
    "go_error + session_info \<Rightarrow> go_error + data_source list \<Rightarrow> go_error + session_info \<times> data_source list"
  where
  "validate_connection session_reply list_reply =
     (case session_reply of
        Inl e \<Rightarrow> Inl (Wrapped ''validating connection'' e)
      | Inr s \<Rightarrow>
          (case list_reply of
             Inl e \<Rightarrow> Inl (Wrapped ''listing data sources failed'' e)
           | Inr sources \<Rightarrow> Inr (s, sources)))"

record init_flags =
  if_config :: string
  if_profile :: string
  if_url :: string
  if_username :: string
  if_password :: string
  if_read_only :: bool

text \<open>Which listeners a list of data sources calls for: both when it has no use for either.\<close>

definition wanted_listeners :: "data_source list \<Rightarrow> bool \<times> bool" where
  "wanted_listeners sources =
     (let pg = (filter_by_type sources is_postgres_compatible \<noteq> []);
          my = (filter_by_type sources is_mysql_compatible \<noteq> []) in
      if \<not> pg \<and> \<not> my then (True, True) else (pg, my))"

text \<open>
  \<open>cmdInit\<close>: the error code, or the path, the configuration that is written there and the report.
  \<open>write\<close> is \<open>config.WriteConfig\<close>, run on the file system as it is then; \<open>replies\<close> are Redash's
  answers to a URL and a key. The second component is the write that was attempted.
\<close>

definition cmd_init ::
    "(string \<Rightarrow> bool) \<Rightarrow> (string \<Rightarrow> string option) \<Rightarrow> (string \<Rightarrow> stat_answer) \<Rightarrow> string option \<Rightarrow>
     (string \<Rightarrow> string \<Rightarrow> (go_error + session_info) \<times> (go_error + data_source list)) \<Rightarrow>
     (string \<Rightarrow> file_config \<Rightarrow> write_error option) \<Rightarrow> key_input \<Rightarrow> init_flags \<Rightarrow>
     (cli_code + init_payload) \<times> (string \<times> file_config) option" where
  "cmd_init valid_url absolute stat home replies write inp flags =
     (if if_url flags = [] then (Inl Usage, None)
      else case init_url valid_url (if_url flags) of
        Inl code \<Rightarrow> (Inl code, None)
      | Inr url \<Rightarrow>
      let prof = (if if_profile flags = [] then ''default'' else if_profile flags) in
      case read_api_key inp of
        Inl code \<Rightarrow> (Inl code, None)
      | Inr key \<Rightarrow>
      (case init_target absolute stat home (if_config flags) of
         Inl code \<Rightarrow> (Inl code, None)
       | Inr path \<Rightarrow>
      (case validate_connection (fst (replies url key)) (snd (replies url key)) of
         Inl e \<Rightarrow> (Inl (classify_api_error e), None)
       | Inr (session, sources) \<Rightarrow>
      let (has_pg, has_mysql) = wanted_listeners sources;
          fc = new_file_config prof url key (if_username flags) (if_password flags) has_pg has_mysql
                 (if_read_only flags) in
      (case write path fc of
         Some (File_exists q) \<Rightarrow> (Inl Config_exists, Some (path, fc))
       | Some e \<Rightarrow> (Inl Io_error, Some (path, fc))
       | None \<Rightarrow>
           (Inr (build_init_payload path prof url (Some session) sources has_pg has_mysql (if_read_only flags)),
            Some (path, fc))))))"

section \<open>What serve derives from a profile\<close>

definition is_loopback_host :: "string \<Rightarrow> bool" where
  "is_loopback_host host \<longleftrightarrow> host = ''127.0.0.1'' \<or> host = ''localhost'' \<or> host = ''::1''"

text \<open>The addresses \<open>warnDefaultCredentials\<close> warns of.\<close>

definition warn_default_credentials :: "config \<Rightarrow> string list" where
  "warn_default_credentials c =
     (if \<not> uses_default_credentials c then []
      else filter
        (\<lambda>addr. addr \<noteq> [] \<and>
           \<not> is_loopback_host (case split_host_port addr of Some (h, p) \<Rightarrow> h | None \<Rightarrow> addr))
        [c_postgres_addr c, c_mysql_addr c])"

definition effective_read_only :: "config \<Rightarrow> bool \<Rightarrow> bool" where
  "effective_read_only c flag \<longleftrightarrow> is_read_only c \<or> flag"

datatype wire = Postgres_wire | Mysql_wire

record listener =
  ln_wire :: wire
  ln_addr :: string
  ln_username :: string
  ln_password :: string
  ln_read_only :: bool

definition started_servers :: "config \<Rightarrow> bool \<Rightarrow> listener list" where
  "started_servers c flag =
     (let ro = effective_read_only c flag in
      (if c_postgres_addr c \<noteq> []
       then [\<lparr>ln_wire = Postgres_wire, ln_addr = c_postgres_addr c, ln_username = c_username c,
              ln_password = c_password c, ln_read_only = ro\<rparr>] else [])
      @ (if c_mysql_addr c \<noteq> []
         then [\<lparr>ln_wire = Mysql_wire, ln_addr = c_mysql_addr c, ln_username = c_username c,
                ln_password = c_password c, ln_read_only = ro\<rparr>] else []))"

definition format_source_count :: "data_source list \<Rightarrow> string" where
  "format_source_count sources =
     (let pg = length (filter (\<lambda>d. is_postgres_compatible (ds_type d)) sources);
          my = length (filter (\<lambda>d. \<not> is_postgres_compatible (ds_type d) \<and> is_mysql_compatible (ds_type d)) sources);
          other = length (filter (\<lambda>d. \<not> is_postgres_compatible (ds_type d) \<and> \<not> is_mysql_compatible (ds_type d)) sources);
          parts = (if pg > 0 then [nat_to_string pg @ '' PostgreSQL''] else [])
            @ (if my > 0 then [nat_to_string my @ '' MySQL''] else [])
            @ (if other > 0 then [nat_to_string other @ '' other''] else []) in
      nat_to_string (length sources) @ '' available''
        @ (if parts \<noteq> [] then '' ('' @ join_with '', '' parts @ '')'' else []))"

end
