(* ===== verification/Main_Serve.thy ===== *)
theory Main_Serve
  imports Command_Line Redash_Client Health_Laws
begin

text \<open>
  The process itself: the flags (\<open>flag\<close> as \<open>cmd/redash-wire\<close> uses it), \<open>main\<close> and the dispatch of the
  commands (\<open>cli.go\<close>, \<open>cmd_datasources.go\<close>), the setup wizard (\<open>internal/setup/wizard.go\<close>), and
  \<open>serve\<close> of \<open>main.go\<close> from its flags to the bound listeners and its shutdown. What the process is
  given is the record \<open>world\<close>: the file system, the terminal, the answers of the person at the form and
  of Redash. The library of the form and the parser of URLs are arguments; the boxes and colours of the
  banner are left out.
\<close>

section \<open>Flags\<close>

text \<open>A flag set is a list of names, each with whether it is a boolean; what is set is a map to texts.\<close>

type_synonym flag_specs = "(string \<times> bool) list"

datatype flag_error = Flag_help | Flag_invalid

definition parse_bool :: "string \<Rightarrow> bool option" where
  "parse_bool s =
     (if s \<in> {''1'', ''t'', ''T'', ''TRUE'', ''true'', ''True''} then Some True
      else if s \<in> {''0'', ''f'', ''F'', ''FALSE'', ''false'', ''False''} then Some False
      else None)"

text \<open>The name and, after the first \<open>=\<close> that is not at its start, the value.\<close>

definition split_flag :: "string \<Rightarrow> string \<times> string option" where
  "split_flag s =
     (case index_byte (tl s) (CHR ''='') of
        None \<Rightarrow> (s, None)
      | Some i \<Rightarrow> (take (i + 1) s, Some (drop (i + 2) s)))"

text \<open>The text after one or two dashes; \<open>None\<close> for an argument that is no flag.\<close>

definition flag_name :: "string \<Rightarrow> string option" where
  "flag_name s =
     (if length s < 2 \<or> hd s \<noteq> CHR ''-'' then None
      else if s ! 1 = CHR ''-'' then (if length s = 2 then None else Some (drop 2 s))
      else Some (tl s))"

fun flag_parse :: "flag_specs \<Rightarrow> (string \<rightharpoonup> string) \<Rightarrow> string list \<Rightarrow> flag_error + (string \<rightharpoonup> string)" where
  "flag_parse specs m [] = Inr m"
| "flag_parse specs m (arg # rest) =
     (case flag_name arg of
        None \<Rightarrow> Inr m
      | Some text \<Rightarrow>
          if text = [] \<or> hd text = CHR ''-'' \<or> hd text = CHR ''='' then Inl Flag_invalid
          else
            let (name, given) = split_flag text in
            case map_of specs name of
              None \<Rightarrow> Inl (if name = ''help'' \<or> name = ''h'' then Flag_help else Flag_invalid)
            | Some True \<Rightarrow>
                let v = (case given of None \<Rightarrow> ''true'' | Some v \<Rightarrow> v) in
                if parse_bool v = None then Inl Flag_invalid
                else flag_parse specs (m(name \<mapsto> v)) rest
            | Some False \<Rightarrow>
                (case given of
                   Some v \<Rightarrow> flag_parse specs (m(name \<mapsto> v)) rest
                 | None \<Rightarrow>
                     (case rest of
                        [] \<Rightarrow> Inl Flag_invalid
                      | v # rest' \<Rightarrow> flag_parse specs (m(name \<mapsto> v)) rest')))"

definition flag_text :: "(string \<rightharpoonup> string) \<Rightarrow> string \<Rightarrow> string \<Rightarrow> string" where
  "flag_text m name initial = (case m name of None \<Rightarrow> initial | Some v \<Rightarrow> v)"

definition flag_on :: "(string \<rightharpoonup> string) \<Rightarrow> string \<Rightarrow> bool" where
  "flag_on m name = (case m name of None \<Rightarrow> False | Some v \<Rightarrow> parse_bool v = Some True)"

text \<open>\<open>parseFlags\<close> of the commands: the exit status, or what is set.\<close>

definition parse_flags :: "flag_specs \<Rightarrow> string list \<Rightarrow> nat + (string \<rightharpoonup> string)" where
  "parse_flags specs args =
     (case flag_parse specs Map.empty args of
        Inr m \<Rightarrow> Inr m
      | Inl Flag_help \<Rightarrow> Inl exit_ok
      | Inl Flag_invalid \<Rightarrow> Inl exit_usage)"

section \<open>The session of the Redash client\<close>

definition decode_session :: "json \<Rightarrow> session_info option" where
  "decode_session = decode_struct (\<lambda>kvs.
     case (decode_or_zero (decode_struct (\<lambda>u. case (decode_string (member ''name'' u), decode_string (member ''email'' u)) of
             (Some n, Some e) \<Rightarrow> Some (n, e) | _ \<Rightarrow> None)) (member ''user'' kvs),
           decode_or_zero (decode_struct (\<lambda>q. decode_string (member ''version'' q))) (member ''client_config'' kvs)) of
       (Some (n, e), Some v) \<Rightarrow> Some \<lparr>user_name = n, user_email = e, redash_version = v\<rparr>
     | _ \<Rightarrow> None)"

definition get_session :: "http_reply \<Rightarrow> go_error + session_info" where
  "get_session r =
     (case r of
        Transport e \<Rightarrow> Inl (Wrapped ''fetching session'' (transport_err e))
      | Reply status len b \<Rightarrow>
          if status \<noteq> 200 then Inl (HttpError status (status_text ''session request failed'' status))
          else decoded ''decoding session'' decode_session b)"

record client_settings =
  cs_url :: string
  cs_key :: string
  cs_poll_interval :: int
  cs_poll_timeout :: int
  cs_max_result :: int

definition with_poll_interval :: "int \<Rightarrow> client_settings \<Rightarrow> client_settings" where
  "with_poll_interval d c = c\<lparr>cs_poll_interval := d\<rparr>"

definition with_poll_timeout :: "int \<Rightarrow> client_settings \<Rightarrow> client_settings" where
  "with_poll_timeout d c = c\<lparr>cs_poll_timeout := d\<rparr>"

definition with_max_result_bytes :: "int \<Rightarrow> client_settings \<Rightarrow> client_settings" where
  "with_max_result_bytes n c = c\<lparr>cs_max_result := n\<rparr>"

definition new_client :: "string \<Rightarrow> string \<Rightarrow> (client_settings \<Rightarrow> client_settings) list \<Rightarrow> client_settings" where
  "new_client url key opts =
     fold (\<lambda>opt c. opt c) opts
       \<lparr>cs_url = url, cs_key = key, cs_poll_interval = 500000000, cs_poll_timeout = 120 * second,
        cs_max_result = default_max_result_bytes\<rparr>"

section \<open>The setup wizard\<close>

datatype url_problem = Url_missing | Url_invalid | Url_scheme

text \<open>\<open>parse\<close> is \<open>url.Parse\<close>: the scheme and the host, \<open>None\<close> for its error.\<close>

definition validate_url :: "(string \<Rightarrow> (string \<times> string) option) \<Rightarrow> string \<Rightarrow> url_problem option" where
  "validate_url parse s =
     (if s = [] then Some Url_missing
      else case parse s of
        None \<Rightarrow> Some Url_invalid
      | Some (scheme, host) \<Rightarrow>
          if scheme = [] \<or> host = [] then Some Url_invalid
          else if scheme \<noteq> ''http'' \<and> scheme \<noteq> ''https'' then Some Url_scheme
          else None)"

definition validate_not_empty :: "string \<Rightarrow> bool" where
  "validate_not_empty s \<longleftrightarrow> trim_space s \<noteq> []"

text \<open>What the person fills in; the form gives nothing when it is aborted.\<close>

record form_values =
  fv_profile :: string
  fv_url :: string
  fv_key :: string
  fv_read_only :: bool

record wizard_result =
  wr_profile :: string
  wr_url :: string
  wr_key :: string
  wr_username :: string
  wr_password :: string
  wr_postgres :: bool
  wr_mysql :: bool
  wr_read_only :: bool

datatype wizard_error = Form_failed | Confirm_failed | Setup_cancelled

type_synonym replies = "string \<Rightarrow> string \<Rightarrow> (go_error + session_info) \<times> (go_error + data_source list)"

text \<open>\<open>confirm\<close> is the answer to saving anyway, \<open>None\<close> when that form fails.\<close>

definition run_connection_test :: "replies \<Rightarrow> bool option \<Rightarrow> string \<Rightarrow> string \<Rightarrow> wizard_error + bool \<times> bool" where
  "run_connection_test replies confirm url key =
     (case validate_connection (fst (replies url key)) (snd (replies url key)) of
        Inl e \<Rightarrow>
          (case confirm of
             None \<Rightarrow> Inl Confirm_failed
           | Some False \<Rightarrow> Inl Setup_cancelled
           | Some True \<Rightarrow> Inr (False, False))
      | Inr (session, srcs) \<Rightarrow>
          Inr (list_ex (\<lambda>d. is_postgres_compatible (ds_type d)) srcs, list_ex (\<lambda>d. is_mysql_compatible (ds_type d)) srcs))"

definition run_wizard ::
  "(string \<Rightarrow> form_values option) \<Rightarrow> replies \<Rightarrow> bool option \<Rightarrow> string \<Rightarrow> wizard_error + wizard_result" where
  "run_wizard form replies confirm initial =
     (case form initial of
        None \<Rightarrow> Inl Form_failed
      | Some v \<Rightarrow>
          let profile = (if fv_profile v = [] then ''default'' else fv_profile v);
              url = trim_right (\<lambda>c. c = CHR ''/'') (fv_url v) in
          case run_connection_test replies confirm url (fv_key v) of
            Inl e \<Rightarrow> Inl e
          | Inr (pg, my) \<Rightarrow>
              Inr \<lparr>wr_profile = profile, wr_url = url, wr_key = fv_key v, wr_username = default_username,
                   wr_password = default_password,
                   wr_postgres = (if \<not> pg \<and> \<not> my then True else pg),
                   wr_mysql = (if \<not> pg \<and> \<not> my then True else my),
                   wr_read_only = fv_read_only v\<rparr>)"

section \<open>What a process is given\<close>

text \<open>
  \<open>w_parse_url\<close> is \<open>url.Parse\<close>, \<open>w_form\<close> the form with the name it is filled in with at first, which gives only
  what its validators accept, and \<open>w_write\<close> is \<open>config.WriteConfig\<close>: its error, and the files after it.
\<close>

record world =
  w_absolute :: "string \<Rightarrow> string option"
  w_home :: "string option"
  w_files :: "string \<rightharpoonup> string"
  w_stat :: "string \<Rightarrow> stat_answer"
  w_decode :: "string \<Rightarrow> file_config option"
  w_env :: "string \<Rightarrow> string"
  w_parse_url :: "string \<Rightarrow> (string \<times> string) option"
  w_stdin :: key_input
  w_form :: "string \<Rightarrow> form_values option"
  w_confirm :: "bool option"
  w_write :: "string \<Rightarrow> file_config \<Rightarrow> write_error option \<times> (string \<rightharpoonup> string)"
  w_replies :: replies

definition w_exists :: "world \<Rightarrow> string \<Rightarrow> bool" where
  "w_exists w p = (w_files w p \<noteq> None)"

section \<open>The commands\<close>

datatype command_result =
    Config_report config_payload
  | Sources_report "data_source_view list"
  | Init_report init_payload
  | Command_failed cli_code
  | Flags_ended nat
  | Usage_shown nat

definition exit_status :: "command_result \<Rightarrow> nat" where
  "exit_status r =
     (case r of
        Command_failed code \<Rightarrow> report_error code
      | Flags_ended n \<Rightarrow> n
      | Usage_shown n \<Rightarrow> n
      | _ \<Rightarrow> exit_ok)"

definition command_config :: "world \<Rightarrow> string list \<Rightarrow> command_result" where
  "command_config w args =
     (case parse_flags [(''config'', False), (''json'', True), (''show-secrets'', True)] args of
        Inl n \<Rightarrow> Flags_ended n
      | Inr m \<Rightarrow>
          (case cmd_config (w_absolute w) (w_home w) (w_files w) (w_decode w) (w_env w)
                  (flag_text m ''config'' []) (flag_on m ''show-secrets'') of
             Inl code \<Rightarrow> Command_failed code
           | Inr p \<Rightarrow> Config_report p))"

definition build_data_sources_payload :: "data_source list \<Rightarrow> data_source_view list" where
  "build_data_sources_payload = data_source_views"

definition cmd_data_sources :: "world \<Rightarrow> string list \<Rightarrow> command_result" where
  "cmd_data_sources w args =
     (case parse_flags [(''config'', False), (''profile'', False), (''json'', True)] args of
        Inl n \<Rightarrow> Flags_ended n
      | Inr m \<Rightarrow>
          (case load_profile (w_absolute w) (w_home w) (w_files w) (w_decode w) (w_env w)
                  (flag_text m ''config'' []) (flag_text m ''profile'' []) of
             Inl code \<Rightarrow> Command_failed code
           | Inr c \<Rightarrow>
               (case snd (w_replies w (c_redash_url c) (c_api_key c)) of
                  Inl e \<Rightarrow> Command_failed (classify_api_error e)
                | Inr srcs \<Rightarrow> Sources_report (build_data_sources_payload srcs))))"

definition pad_right :: "nat \<Rightarrow> string \<Rightarrow> string" where
  "pad_right n s = s @ replicate (n - length s) (CHR '' '')"

text \<open>The lines \<open>printDataSources\<close> writes.\<close>

definition print_data_sources :: "data_source_view list \<Rightarrow> string list" where
  "print_data_sources vs =
     (if vs = [] then [''no data sources'']
      else
        let width = fold (\<lambda>v n. max n (length (v_name v))) vs 0 in
        map (\<lambda>v. pad_right width (v_name v) @ ''  '' @ pad_right 12 (v_type v) @ '' '' @
          (if v_wire v = [] then ''unsupported'' else v_wire v)) vs)"

text \<open>The lines \<open>printInit\<close> writes.\<close>

definition print_init :: "string option \<Rightarrow> init_payload \<Rightarrow> string list" where
  "print_init home p =
     [''wrote '' @ shorten_home home (ip_path p), ''profile:      '' @ ip_profile p]
     @ (if ip_user_name p \<noteq> [] then [''redash user:  '' @ ip_user_name p @ '' ('' @ ip_user_email p @ '')''] else [])
     @ [''data sources: '' @ nat_to_string (ip_sources p),
        ''listeners:    '' @ join_with '', '' (enabled_listeners p)]
     @ (if ip_read_only p then [''mode:         read-only''] else [])"

definition command_init :: "world \<Rightarrow> string list \<Rightarrow> command_result" where
  "command_init w args =
     (case parse_flags [(''config'', False), (''profile'', False), (''url'', False), (''username'', False),
             (''password'', False), (''read-only'', True), (''json'', True)] args of
        Inl n \<Rightarrow> Flags_ended n
      | Inr m \<Rightarrow>
          let flags = \<lparr>if_config = flag_text m ''config'' [], if_profile = flag_text m ''profile'' ''default'',
                if_url = flag_text m ''url'' [], if_username = flag_text m ''username'' default_username,
                if_password = flag_text m ''password'' default_password, if_read_only = flag_on m ''read-only''\<rparr> in
          case fst (cmd_init (\<lambda>u. validate_url (w_parse_url w) u = None) (w_absolute w) (w_stat w) (w_home w) (w_replies w)
                 (\<lambda>p fc. fst (w_write w p fc)) (w_stdin w) flags) of
            Inl code \<Rightarrow> Command_failed code
          | Inr p \<Rightarrow> Init_report p)"

definition dispatch_command :: "world \<Rightarrow> string \<Rightarrow> string list \<Rightarrow> command_result" where
  "dispatch_command w name args =
     (if name = ''config'' then command_config w args
      else if name = ''datasources'' then cmd_data_sources w args
      else if name = ''init'' then command_init w args
      else if name = ''help'' then Usage_shown exit_ok
      else Usage_shown exit_usage)"

section \<open>Serve: the configuration\<close>

record serve_flags =
  sf_config :: string
  sf_explicit :: bool
  sf_profile :: string
  sf_debug :: bool
  sf_version :: bool
  sf_log_format :: string
  sf_exit_on_eof :: bool
  sf_wait :: bool
  sf_read_only :: bool

definition serve_specs :: flag_specs where
  "serve_specs =
     [(''config'', False), (''profile'', False), (''debug'', True), (''version'', True), (''log-format'', False),
      (''exit-on-stdin-eof'', True), (''wait-for-redash'', True), (''read-only'', True)]"

definition serve_flags_of :: "(string \<rightharpoonup> string) \<Rightarrow> serve_flags" where
  "serve_flags_of m =
     \<lparr>sf_config = flag_text m ''config'' ''config.yaml'', sf_explicit = (m ''config'' \<noteq> None),
      sf_profile = flag_text m ''profile'' [], sf_debug = flag_on m ''debug'', sf_version = flag_on m ''version'',
      sf_log_format = flag_text m ''log-format'' ''text'', sf_exit_on_eof = flag_on m ''exit-on-stdin-eof'',
      sf_wait = flag_on m ''wait-for-redash'', sf_read_only = flag_on m ''read-only''\<rparr>"

record logger =
  lg_debug :: bool
  lg_json :: bool

definition new_logger :: "string \<Rightarrow> bool \<Rightarrow> logger option" where
  "new_logger format debug =
     (if format = ''text'' then Some \<lparr>lg_debug = debug, lg_json = False\<rparr>
      else if format = ''json'' then Some \<lparr>lg_debug = debug, lg_json = True\<rparr>
      else None)"

text \<open>An entry of the log: its level, its text and its attributes.\<close>

datatype level = Level_info | Level_warn | Level_error

type_synonym entry = "level \<times> string \<times> (string \<times> string) list"

text \<open>
  Without a configuration file, the wizard writes one, unless the path was given or nobody can answer.
  The result is the entry of a fatal error, or the profile to load and the files then.
\<close>

definition first_run :: "world \<Rightarrow> serve_flags \<Rightarrow> resolved \<Rightarrow> entry + string \<times> (string \<rightharpoonup> string)" where
  "first_run w fl res =
     (let path = shorten_home (w_home w) (r_path res) in
      if sf_explicit fl then Inl (Level_error, ''config file not found'', [(''path'', path)])
      else if sf_log_format fl = ''json'' then
        Inl (Level_error, ''no config file found, and the setup wizard cannot run under -log-format=json'', [(''path'', path)])
      else if w_stdin w \<noteq> Terminal then
        Inl (Level_error, ''no config file found: run interactively to set up, or create ~/.redash-wire/config.yaml manually'', [])
      else
        case run_wizard (w_form w) (w_replies w) (w_confirm w) (sf_profile fl) of
          Inl e \<Rightarrow> Inl (Level_error, ''setup wizard'', [])
        | Inr r \<Rightarrow>
            let fc = new_file_config (wr_profile r) (wr_url r) (wr_key r) (wr_username r) (wr_password r)
                  (wr_postgres r) (wr_mysql r) (wr_read_only r) in
            case w_write w (r_path res) fc of
              (Some e, files) \<Rightarrow> Inl (Level_error, ''writing config'', [])
            | (None, files) \<Rightarrow> Inr (wr_profile r, files))"

definition serve_config :: "world \<Rightarrow> serve_flags \<Rightarrow> entry + resolved \<times> config" where
  "serve_config w fl =
     (case resolve_config (w_absolute w) (w_exists w) (w_home w) (sf_config fl) (sf_explicit fl) of
        None \<Rightarrow> Inl (Level_error, ''resolving config path'', [])
      | Some res \<Rightarrow>
          case (if r_found res then Inr (sf_profile fl, w_files w) else first_run w fl res) of
            Inl e \<Rightarrow> Inl e
          | Inr (profile, files) \<Rightarrow>
              (case load_config files (w_decode w) (w_env w) (r_path res) profile of
                 Inl e \<Rightarrow> Inl (Level_error, ''loading config'', [(''error'', config_error_message e)])
               | Inr c \<Rightarrow> Inr (res, c)))"

text \<open>What is logged of the configuration before any request goes out.\<close>

definition config_entries :: "world \<Rightarrow> serve_flags \<Rightarrow> resolved \<Rightarrow> config \<Rightarrow> entry list" where
  "config_entries w fl res c =
     map (\<lambda>addr. (Level_warn,
         ''listening on a non-loopback address with the built-in default credentials; set a username/password in your config'',
         [(''addr'', addr)])) (warn_default_credentials c)
     @ (if effective_read_only c (sf_read_only fl)
        then [(Level_info, ''read-only mode enabled: statements that are not reads will be refused'',
               [(''source'', if is_read_only c then ''config'' else ''flag'')])] else [])
     @ [if r_from_cwd res
        then (Level_warn, ''using ./config.yaml from the current directory'',
              [(''path'', shorten_home (w_home w) (r_path res)), (''redash_url'', c_redash_url c)])
        else (Level_info, ''loaded config'',
              [(''path'', shorten_home (w_home w) (r_path res)), (''profile'', c_profile c)])]"

definition serve_client :: "config \<Rightarrow> client_settings" where
  "serve_client c =
     new_client (c_redash_url c) (c_api_key c)
       [with_poll_interval (get_poll_interval c), with_poll_timeout (get_poll_timeout c)]"

section \<open>Serve: the banner\<close>

text \<open>The rows of the boxes: a label and a value.\<close>

definition server_conn_lines :: "string \<Rightarrow> bool \<Rightarrow> string \<Rightarrow> string \<Rightarrow> (string \<times> string) list" where
  "server_conn_lines addr mysql user pass =
     (let (host0, port) = (case split_host_port addr of None \<Rightarrow> (addr, []) | Some hp \<Rightarrow> hp);
          host = (if host0 \<in> {[], ''0.0.0.0'', ''::''} then ''127.0.0.1'' else host0) in
      [(''Host'', host), (''Port'', port), (''User'', user), (''Password'', pass),
       (''Connect'',
        if mysql then ''mysql -h '' @ host @ '' -P '' @ port @ '' -u '' @ user @ '' -p''
        else ''psql -h '' @ host @ '' -p '' @ port @ '' -U '' @ user)])"

definition redash_lines :: "config \<Rightarrow> data_source list \<Rightarrow> bool \<Rightarrow> session_info option \<Rightarrow> (string \<times> string) list" where
  "redash_lines c srcs checked session =
     (case session of
        Some s \<Rightarrow> if user_name s \<noteq> [] then [(''User'', user_name s @ '' ('' @ user_email s @ '')'')] else []
      | None \<Rightarrow> [])
     @ [(''URL'', c_redash_url c)]
     @ (case session of
          Some s \<Rightarrow> if redash_version s \<noteq> [] then [(''Version'', redash_version s)] else []
        | None \<Rightarrow> [])
     @ [(''Sources'', if checked then format_source_count srcs else ''checking'' @ [CHR 0xE2, CHR 0x80, CHR 0xA6])]"

record banner =
  bn_redash :: "(string \<times> string) list"
  bn_servers :: "(string \<times> (string \<times> string) list) list"
  bn_profile :: string
  bn_path :: string
  bn_read_only :: bool

definition print_banner ::
  "string option \<Rightarrow> config \<Rightarrow> string \<Rightarrow> data_source list \<Rightarrow> bool \<Rightarrow> session_info option \<Rightarrow> bool \<Rightarrow> banner" where
  "print_banner home c path srcs checked session ro =
     \<lparr>bn_redash = redash_lines c srcs checked session,
      bn_servers =
        (if c_postgres_addr c \<noteq> []
         then [(''PostgreSQL'', server_conn_lines (c_postgres_addr c) False (c_username c) (c_password c))] else [])
        @ (if c_mysql_addr c \<noteq> []
           then [(''MySQL'', server_conn_lines (c_mysql_addr c) True (c_username c) (c_password c))] else []),
      bn_profile = c_profile c, bn_path = shorten_home home path, bn_read_only = ro\<rparr>"

section \<open>Serve: up to the listeners\<close>

record run =
  rn_config :: config
  rn_client :: client_settings
  rn_read_only :: bool
  rn_checker :: checker
  rn_servers :: "listener list"
  rn_banner :: "banner option"
  rn_entries :: "entry list"

datatype serve_end =
    Version_printed
  | Exited nat "entry list"
  | Bound run

text \<open>
  The session request is made for the banner only; its failure is logged. The first probe, or the
  closing of the gate, is \<open>serve_start\<close>; the list it asks for is Redash's answer to the loaded URL and key.
  The signal that asks for a probe is the step \<open>suspicion_raised\<close> of the health loop, which runs from here on.
\<close>

definition serve :: "world \<Rightarrow> serve_flags \<Rightarrow> serve_end" where
  "serve w fl =
     (if sf_version fl then Version_printed
      else case new_logger (sf_log_format fl) (sf_debug fl) of
        None \<Rightarrow> Exited 2 []
      | Some lg \<Rightarrow>
        case serve_config w fl of
          Inl e \<Rightarrow> Exited 1 [e]
        | Inr (res, c) \<Rightarrow>
          let ro = effective_read_only c (sf_read_only fl);
              client = serve_client c;
              (session_reply, list_reply) = w_replies w (cs_url client) (cs_key client);
              session = (if lg_json lg then None else case session_reply of Inl e \<Rightarrow> None | Inr s \<Rightarrow> Some s);
              entries = config_entries w fl res c @
                (if lg_json lg then []
                 else case session_reply of Inl e \<Rightarrow> [(Level_warn, ''fetching session info'', [(''error'', error_text e)])]
                   | Inr s \<Rightarrow> []) in
          case serve_start (sf_wait fl) list_reply (serve_checker (sf_wait fl)) of
            None \<Rightarrow> Exited 1 (entries @ (case list_reply of Inr srcs \<Rightarrow> [(Level_error, ''no data sources found'', [])] | Inl e \<Rightarrow> []))
          | Some ck \<Rightarrow>
              Bound
                \<lparr>rn_config = c, rn_client = client, rn_read_only = ro, rn_checker = ck,
                 rn_servers = started_servers c (sf_read_only fl),
                 rn_banner = (if lg_json lg then None
                   else Some (print_banner (w_home w) c (r_path res) (swappable_all (registry ck))
                     (gate_up (gate ck)) session ro)),
                 rn_entries = entries @
                   (if c_postgres_addr c = [] then [(Level_info, ''PostgreSQL listener disabled (no postgres_listen_addr configured)'', [])] else [])\<rparr>)"

text \<open>\<open>main\<close>: the arguments of the process, without its name. Wrong flags of \<open>serve\<close> exit with status 2, \<open>-h\<close> with 0.\<close>

definition main_process :: "world \<Rightarrow> string list \<Rightarrow> command_result + serve_end" where
  "main_process w args =
     (if args \<noteq> [] \<and> \<not> has_prefix (hd args) ''-'' then Inl (dispatch_command w (hd args) (tl args))
      else case flag_parse serve_specs Map.empty args of
        Inl Flag_help \<Rightarrow> Inr (Exited 0 [])
      | Inl Flag_invalid \<Rightarrow> Inr (Exited 2 [])
      | Inr m \<Rightarrow> Inr (serve w (serve_flags_of m)))"

section \<open>Serve: the end\<close>

text \<open>
  What the process waits for after the listeners started, in the order it is taken. The end of standard
  input is watched under its flag only.
\<close>

datatype stop_event = Signal string | Stdin_closed | Server_returned "go_error option"

fun stop_cause :: "bool \<Rightarrow> stop_event list \<Rightarrow> stop_event option" where
  "stop_cause on_eof [] = None"
| "stop_cause on_eof (e # es) = (if e = Stdin_closed \<and> \<not> on_eof then stop_cause on_eof es else Some e)"

text \<open>The exit status with the log; \<open>in_time\<close> says whether the servers ended within the five seconds.\<close>

definition shutdown :: "bool \<Rightarrow> bool \<Rightarrow> stop_event list \<Rightarrow> (nat \<times> entry list) option" where
  "shutdown on_eof in_time es =
     (case stop_cause on_eof es of
        None \<Rightarrow> None
      | Some e \<Rightarrow>
          let (code, entries) =
            (case e of
               Signal s \<Rightarrow> (0, [(Level_info, ''shutting down'', [(''signal'', s)])])
             | Stdin_closed \<Rightarrow> (0, [(Level_info, ''stdin closed, shutting down'', [])])
             | Server_returned None \<Rightarrow> (0, [])
             | Server_returned (Some err) \<Rightarrow> (1, [(Level_error, ''server error'', [(''error'', error_text err)])])) in
          Some (code, entries
            @ (if in_time then [] else [(Level_warn, ''shutdown timed out, forcing exit'', [])])
            @ [(Level_info, ''server stopped'', [])]))"

end
