(* ===== verification/Command_Laws.thy ===== *)
theory Command_Laws
  imports Command_Line
begin

text \<open>
  What the commands promise: the \<open>config\<close> report does not tell one API key from another unless the
  secrets are asked for, \<open>init\<close> writes nothing that was not validated, and every server started
  has the credentials and the read-only mode of the loaded profile.
\<close>

lemma resolve_config_path_found:
  assumes "resolve_config_path absolute (\<lambda>p. files p \<noteq> None) home flag_path = Inr (res, source)" and "r_found res"
  shows "files (r_path res) \<noteq> None"
  using assms
  by (auto simp: resolve_config_path_def resolve_config_def Let_def split: option.splits if_splits)

section \<open>The report keeps the key\<close>

text \<open>Two summaries that differ in the API keys only, and not in which of them are set.\<close>

definition same_up_to_key :: "config \<Rightarrow> config \<Rightarrow> bool" where
  "same_up_to_key c d \<longleftrightarrow> d = c\<lparr>c_api_key := c_api_key d\<rparr> \<and> (c_api_key c = [] \<longleftrightarrow> c_api_key d = [])"

definition same_profile_up_to_key :: "profile_summary \<Rightarrow> profile_summary \<Rightarrow> bool" where
  "same_profile_up_to_key p q \<longleftrightarrow>
     ps_name p = ps_name q \<and> ps_error p = ps_error q \<and> rel_option same_up_to_key (ps_config p) (ps_config q)"

definition same_summary_up_to_keys :: "config_summary \<Rightarrow> config_summary \<Rightarrow> bool" where
  "same_summary_up_to_keys s t \<longleftrightarrow>
     sum_default s = sum_default t \<and> list_all2 same_profile_up_to_key (sum_profiles s) (sum_profiles t)"

lemma same_up_to_keyE:
  assumes "same_up_to_key c d"
  obtains k where "d = c\<lparr>c_api_key := k\<rparr>" "c_api_key c = [] \<longleftrightarrow> k = []"
  using assms unfolding same_up_to_key_def by blast

lemma profile_payload_blind:
  assumes "same_profile_up_to_key p q"
  shows "profile_payload_of False p = profile_payload_of False q"
proof (cases "ps_config p")
  case None
  with assms show ?thesis
    by (simp add: same_profile_up_to_key_def profile_payload_of_def Let_def)
next
  case (Some c)
  with assms obtain d where d: "ps_config q = Some d" "same_up_to_key c d"
    by (auto simp: same_profile_up_to_key_def option_rel_Some1)
  from d(2) obtain k where k: "d = c\<lparr>c_api_key := k\<rparr>" "c_api_key c = [] \<longleftrightarrow> k = []"
    by (rule same_up_to_keyE)
  with assms Some d(1) show ?thesis
    by (simp add: same_profile_up_to_key_def profile_payload_of_def Let_def
        uses_default_credentials_def is_read_only_def)
qed

lemma validate_blind: "same_up_to_key c d \<Longrightarrow> validate c = validate d"
  by (erule same_up_to_keyE) (simp add: validate_def split: sum.split)

text \<open>Two files that differ in the API keys only, and not in which of them come out set.\<close>

definition same_file_up_to_keys :: "(string \<Rightarrow> string) \<Rightarrow> file_config \<Rightarrow> file_config \<Rightarrow> bool" where
  "same_file_up_to_keys env fc fd \<longleftrightarrow>
     fd = fc\<lparr>fc_profiles := fc_profiles fd\<rparr> \<and>
     list_all2 (\<lambda>(n, p) (m, q). n = m \<and> q = p\<lparr>c_api_key := c_api_key q\<rparr> \<and>
         (expand_env env (c_api_key p) = [] \<longleftrightarrow> expand_env env (c_api_key q) = []))
       (fc_profiles fc) (fc_profiles fd)"

lemma list_all2_map_of:
  assumes "list_all2 (\<lambda>(n, p) (m, q). n = m \<and> R p q) ps qs"
  shows "rel_option R (map_of ps k) (map_of qs k) \<and> List.map fst ps = List.map fst qs \<and> (ps = [] \<longleftrightarrow> qs = [])"
  using assms by (induction ps qs rule: list_all2_induct) auto

lemma same_file_resolves:
  assumes "same_file_up_to_keys env fc fd"
  shows "rel_sum (=) same_up_to_key (resolve_profile env fc name) (resolve_profile env fd name)"
proof -
  let ?R = "\<lambda>p q. q = p\<lparr>c_api_key := c_api_key q\<rparr> \<and>
      (expand_env env (c_api_key p) = [] \<longleftrightarrow> expand_env env (c_api_key q) = [])"
  obtain qs where fd: "fd = fc\<lparr>fc_profiles := qs\<rparr>" and qs: "fc_profiles fd = qs"
    using assms unfolding same_file_up_to_keys_def by blast
  have l: "list_all2 (\<lambda>(n, p) (m, q). n = m \<and> ?R p q) (fc_profiles fc) qs"
    using assms unfolding same_file_up_to_keys_def qs by simp
  have names: "List.map fst (fc_profiles fc) = List.map fst qs" "fc_profiles fc = [] \<longleftrightarrow> qs = []"
    using list_all2_map_of [OF l] by auto
  have same: "same_up_to_key (profile_config env fc n p) (profile_config env fd n q)" if "?R p q" for n p q
  proof -
    from that obtain k where "q = p\<lparr>c_api_key := k\<rparr>" "expand_env env (c_api_key p) = [] \<longleftrightarrow> expand_env env k = []"
      by blast
    then show ?thesis by (simp add: same_up_to_key_def profile_config_def fd split: option.split)
  qed
  define n where "n = (if name = [] then fc_default_profile fc else name)"
  have "fc_default_profile fd = fc_default_profile fc" by (simp add: fd)
  note n = n_def [symmetric] this
  have "rel_option ?R (map_of (fc_profiles fc) n) (map_of qs n)"
    using list_all2_map_of [OF l] by blast
  then show ?thesis
    unfolding resolve_profile_def Let_def overlay_profile_eq n
    using same names by (cases rule: option.rel_cases) (simp_all add: fd profile_names_def)
qed

lemma same_file_summarizes:
  assumes "same_file_up_to_keys env fc fd"
  shows "same_profile_up_to_key (summarize_profile env fc name) (summarize_profile env fd name)"
  using same_file_resolves [OF assms, of name]
  by (cases rule: rel_sum.cases)
    (auto simp: summarize_profile_def same_profile_up_to_key_def dest: validate_blind)

lemma payload_blind:
  assumes "same_summary_up_to_keys s t"
  shows "build_config_payload res source (Some s) False = build_config_payload res source (Some t) False"
proof -
  have "List.map (profile_payload_of False) (sum_profiles s) = List.map (profile_payload_of False) (sum_profiles t)"
    using assms unfolding same_summary_up_to_keys_def list_all2_conv_all_nth
    by (auto intro!: nth_equalityI profile_payload_blind)
  with assms show ?thesis
    by (simp add: build_config_payload_def same_summary_up_to_keys_def Let_def)
qed

lemma load_all_blind:
  assumes "rel_option (same_file_up_to_keys env) (decode data) (decode' data)" and "files path = Some data"
  shows "rel_sum (=) same_summary_up_to_keys (load_all files decode env path) (load_all files decode' env path)"
proof (cases "decode data")
  case None
  with assms show ?thesis by (simp add: load_all_def read_file_def)
next
  case (Some fc)
  with assms(1) obtain fd where fd: "decode' data = Some fd" "same_file_up_to_keys env fc fd"
    by (auto simp: option_rel_Some1)
  obtain qs where qs: "fd = fc\<lparr>fc_profiles := qs\<rparr>" "fc_profiles fd = qs"
    using fd(2) unfolding same_file_up_to_keys_def by blast
  have l: "list_all2 (\<lambda>(n, p) (m, q). n = m \<and> (\<lambda>p q. q = p\<lparr>c_api_key := c_api_key q\<rparr> \<and>
      (expand_env env (c_api_key p) = [] \<longleftrightarrow> expand_env env (c_api_key q) = [])) p q) (fc_profiles fc) qs"
    using fd(2) unfolding same_file_up_to_keys_def qs(2) by simp
  note names = list_all2_map_of [OF l]
  have "map_of (fc_profiles fc) n = None \<longleftrightarrow> map_of qs n = None" for n
    using names by (simp add: map_of_eq_None_iff image_set del: set_map)
  moreover have "profile_names (fc_profiles fc) = profile_names qs" "fc_profiles fc = [] \<longleftrightarrow> qs = []"
    using names by (simp_all add: profile_names_def)
  moreover have "list_all2 same_profile_up_to_key (List.map (summarize_profile env fc) ns)
      (List.map (summarize_profile env fd) ns)" for ns
    by (simp add: list.rel_map list.rel_refl same_file_summarizes [OF fd(2)])
  ultimately show ?thesis
    using assms(2) Some fd(1)
    by (simp add: load_all_def read_file_def same_summary_up_to_keys_def qs)
qed

text \<open>
  Property C17: Without \<open>-show-secrets\<close> the \<open>config\<close> command reports the same, as JSON or as text,
  for any two configuration files that differ only in their API keys: it says whether a key is set
  and nothing else about it, in its error texts either.
\<close>

theorem report_hides_api_keys:
  assumes "\<And>data. rel_option (same_file_up_to_keys env) (decode data) (decode' data)"
  shows "cmd_config absolute home files decode env flag_path False =
    cmd_config absolute home files decode' env flag_path False"
proof -
  have "(case load_all files decode env path of Inl e \<Rightarrow> Inl (classify_load_error e)
        | Inr s \<Rightarrow> Inr (build_config_payload res source (Some s) False)) =
      (case load_all files decode' env path of Inl e \<Rightarrow> Inl (classify_load_error e)
        | Inr s \<Rightarrow> Inr (build_config_payload res source (Some s) False))"
    if "files path \<noteq> None" for path res source
  proof -
    from that obtain data where d: "files path = Some data" by blast
    from load_all_blind [of env decode data decode' files path, OF assms d] show ?thesis
      by (cases rule: rel_sum.cases) (simp_all add: payload_blind)
  qed
  note eq = this
  show ?thesis
  proof (cases "resolve_config_path absolute (\<lambda>p. files p \<noteq> None) home flag_path")
    case (Inr rs)
    obtain res source where rs: "rs = (res, source)" by (cases rs)
    show ?thesis
    proof (cases "r_found res")
      case True
      with eq [OF resolve_config_path_found [OF Inr [unfolded rs]]] Inr rs show ?thesis
        by (simp only: cmd_config_def sum.case prod.case if_True)
      qed (simp only: cmd_config_def Inr [unfolded rs] sum.case prod.case if_False)
  qed (simp only: cmd_config_def sum.case)
qed


lemma report_hides_api_keys_witness:
  "let fc = \<lambda>k. new_file_config ''p'' ''http://r'' k [] [] True False False in
   cmd_config Some None (\<lambda>p. Some []) (\<lambda>data. Some (fc ''k1'')) (\<lambda>v. []) ''/c'' False =
   cmd_config Some None (\<lambda>p. Some []) (\<lambda>data. Some (fc ''k2'')) (\<lambda>v. []) ''/c'' False"
  unfolding Let_def
  by (rule report_hides_api_keys)
    (simp add: same_file_up_to_keys_def new_file_config_def Let_def)

section \<open>Which file, and how its load fails\<close>

lemma load_profile_Inr:
  assumes "load_profile absolute home files decode env flag_path wanted = Inr c"
  obtains path where "load_config files decode env path wanted = Inr c"
  using assms by (auto simp: load_profile_def split: sum.splits prod.splits if_splits)

section \<open>Init\<close>

lemma trim_right_suffix_free: "trim_right p s = [] \<or> \<not> p (last (trim_right p s))"
proof -
  have "dropWhile p (rev s) = [] \<or> \<not> p (hd (dropWhile p (rev s)))"
    using hd_dropWhile by blast
  then show ?thesis by (auto simp: trim_right_def last_rev)
qed

lemma read_api_key_InrD:
  assumes "read_api_key inp = Inr key"
  shows "key \<noteq> [] \<and> (\<exists>data. inp = Piped (Some data) \<and> key = trim_space (take max_api_key_bytes data))"
  using assms
  by (auto simp: read_api_key_def read_api_key_from_def Let_def split: key_input.splits option.splits if_splits)

lemma wanted_listeners_spec:
  "(fst (wanted_listeners sources) \<or> snd (wanted_listeners sources)) \<and>
   (fst (wanted_listeners sources) \<longleftrightarrow> (\<exists>d \<in> set sources. is_postgres_compatible (ds_type d)) \<or>
      (\<forall>d \<in> set sources. \<not> is_mysql_compatible (ds_type d))) \<and>
   (snd (wanted_listeners sources) \<longleftrightarrow> (\<exists>d \<in> set sources. is_mysql_compatible (ds_type d)) \<or>
      (\<forall>d \<in> set sources. \<not> is_postgres_compatible (ds_type d)))"
  by (auto simp: wanted_listeners_def filter_by_type_def Let_def filter_empty_conv)

text \<open>
  Property C40: \<open>init\<close> attempts a write only with a URL that passed the validation, a key from
  standard input that is not empty, a target that is not there, and a Redash that answered that very
  URL and key with the session and the list of data sources; what it writes is the configuration of
  the flags with a listener for each kind of source in the list, or both, and it reports success
  exactly when the write succeeded.
\<close>

theorem init_writes_only_validated:
  assumes "cmd_init valid_url absolute stat home replies write inp flags = (r, attempt)"
  shows "(attempt = None \<longrightarrow> (\<exists>code. r = Inl code)) \<and>
    (\<forall>path fc. attempt = Some (path, fc) \<longrightarrow>
       (\<exists>url key session sources pg my.
          valid_url url \<and> url = trim_right (\<lambda>c. c = CHR ''/'') (if_url flags) \<and>
          key \<noteq> [] \<and> read_api_key inp = Inr key \<and> stat path = Not_there \<and>
          replies url key = (Inr session, Inr sources) \<and>
          fc = new_file_config (if if_profile flags = [] then ''default'' else if_profile flags) url key
                 (if_username flags) (if_password flags) pg my (if_read_only flags) \<and>
          (pg \<or> my) \<and>
          (pg \<longleftrightarrow> (\<exists>d \<in> set sources. is_postgres_compatible (ds_type d)) \<or>
                 (\<forall>d \<in> set sources. \<not> is_mysql_compatible (ds_type d))) \<and>
          (my \<longleftrightarrow> (\<exists>d \<in> set sources. is_mysql_compatible (ds_type d)) \<or>
                 (\<forall>d \<in> set sources. \<not> is_postgres_compatible (ds_type d)))) \<and>
       ((\<exists>report. r = Inr report) \<longleftrightarrow> write path fc = None))"
proof (cases attempt)
  case None
  with assms show ?thesis
    by (auto simp: cmd_init_def Let_def split: if_splits sum.splits prod.splits option.splits write_error.splits)
next
  case (Some a)
  obtain path fc where a: "a = (path, fc)" by (cases a)
  from assms Some a obtain url key session sources where
    url: "init_url valid_url (if_url flags) = Inr url" and key: "read_api_key inp = Inr key"
    and target: "init_target absolute stat home (if_config flags) = Inr path"
    and conn: "validate_connection (fst (replies url key)) (snd (replies url key)) = Inr (session, sources)"
    and fc: "fc = new_file_config (if if_profile flags = [] then ''default'' else if_profile flags) url key
        (if_username flags) (if_password flags) (fst (wanted_listeners sources)) (snd (wanted_listeners sources))
        (if_read_only flags)"
    and r: "(\<exists>report. r = Inr report) \<longleftrightarrow> write path fc = None"
    by (auto simp: cmd_init_def Let_def case_prod_beta
        split: if_splits sum.splits prod.splits option.splits write_error.splits)
  have "valid_url url" "url = trim_right (\<lambda>c. c = CHR ''/'') (if_url flags)"
    using url by (auto simp: init_url_def Let_def split: if_splits)
  moreover have "stat path = Not_there"
    using target by (auto simp: init_target_def split: option.splits stat_answer.splits)
  moreover have "replies url key = (Inr session, Inr sources)"
    using conn by (cases "replies url key") (auto simp: validate_connection_def split: sum.splits)
  ultimately show ?thesis
    using key fc r read_api_key_InrD [OF key] wanted_listeners_spec [of sources] Some a by auto
qed

lemma init_success:
  assumes "case x of (Inr report, Some (path, fc)) \<Rightarrow> path = p \<and> P fc \<and> Q fc | _ \<Rightarrow> False"
  obtains r fc where "x = (r, Some (p, fc))" "P fc" "Q fc"
proof (cases "fst x")
  case (Inr report)
  then show ?thesis
    using assms that by (cases x; cases "snd x") auto
qed (use assms in \<open>cases x; simp\<close>)

lemma init_writes_only_validated_witness:
  "\<exists>fc report. cmd_init (\<lambda>u. True) Some (\<lambda>p. Not_there) (Some ''/h'')
      (\<lambda>u k. (Inr \<lparr>user_name = ''u'', user_email = [], redash_version = []\<rparr>,
              Inr [\<lparr>ds_id = 1, ds_name = ''m'', ds_type = ''mysql''\<rparr>]))
      (\<lambda>p fc. None) (Piped (Some (''k'' @ [newline])))
      \<lparr>if_config = [], if_profile = [], if_url = ''http://r/'', if_username = ''u'', if_password = ''p'',
       if_read_only = True\<rparr> = (Inr report, Some (''/h/.redash-wire/config.yaml'', fc)) \<and>
     fc_mysql_addr fc \<noteq> [] \<and> fc_postgres_addr fc = []"
proof -
  let ?cmd = "cmd_init (\<lambda>u. True) Some (\<lambda>p. Not_there) (Some ''/h'')
      (\<lambda>u k. (Inr \<lparr>user_name = ''u'', user_email = [], redash_version = []\<rparr>,
              Inr [\<lparr>ds_id = 1, ds_name = ''m'', ds_type = ''mysql''\<rparr>]))
      (\<lambda>p fc. None) (Piped (Some (''k'' @ [newline])))
      \<lparr>if_config = [], if_profile = [], if_url = ''http://r/'', if_username = ''u'', if_password = ''p'',
       if_read_only = True\<rparr>"
  have "(case ?cmd of (Inr report, Some (path, fc)) \<Rightarrow>
      path = ''/h/.redash-wire/config.yaml'' \<and> fc_mysql_addr fc \<noteq> [] \<and> fc_postgres_addr fc = [] | _ \<Rightarrow> False)"
    by code_simp
  then obtain r fc where c: "?cmd = (r, Some (''/h/.redash-wire/config.yaml'', fc))"
      "fc_mysql_addr fc \<noteq> []" "fc_postgres_addr fc = []"
    by (rule init_success)
  from init_writes_only_validated [OF c(1)] have "\<exists>report. r = Inr report" by blast
  with c show ?thesis by metis
qed

section \<open>The servers of a run\<close>

lemma started_servers_iff:
  "l \<in> set (started_servers c flag) \<longleftrightarrow>
     ln_addr l \<noteq> [] \<and> ln_username l = c_username c \<and> ln_password l = c_password c \<and>
     ln_read_only l = (is_read_only c \<or> flag) \<and>
     ln_addr l = (case ln_wire l of Postgres_wire \<Rightarrow> c_postgres_addr c | Mysql_wire \<Rightarrow> c_mysql_addr c)"
  by (cases l) (auto simp: started_servers_def effective_read_only_def Let_def split: wire.split if_splits)

text \<open>
  A run of a profile that loads starts at least one server, and each one with
  credentials that are not empty and in read-only mode exactly when the flag asks for it or the
  profile does, or the profile says nothing and the file does: the flag can only tighten.
\<close>

theorem servers_read_only_when_asked:
  assumes "load_config files decode env path wanted = Inr c"
  shows "started_servers c flag \<noteq> [] \<and>
    (\<exists>data fc p. files path = Some data \<and> decode data = Some fc \<and>
       map_of (fc_profiles fc) (if wanted = [] then fc_default_profile fc else wanted) = Some p \<and>
       (\<forall>l \<in> set (started_servers c flag).
          ln_username l \<noteq> [] \<and> ln_password l \<noteq> [] \<and>
          (ln_read_only l \<longleftrightarrow> flag \<or> c_read_only p = Some True \<or>
             c_read_only p = None \<and> fc_read_only fc = Some True)))"
proof -
  obtain data fc where fc: "files path = Some data" "decode data = Some fc"
      "resolve_profile env fc wanted = Inr c" "validate c = []"
    by (rule load_config_InrD [OF assms])
  obtain p where p: "map_of (fc_profiles fc) (c_profile c) = Some p" "c = profile_config env fc (c_profile c) p"
      "c_profile c = (if wanted = [] then fc_default_profile fc else wanted)"
    by (rule resolve_profile_InrD [OF fc(3)])
  have s: "servable c" using fc(4) by (simp add: validate_Nil_iff)
  then have "started_servers c flag \<noteq> []" by (auto simp: servable_def started_servers_def Let_def)
  moreover have "is_read_only c \<longleftrightarrow> c_read_only p = Some True \<or> c_read_only p = None \<and> fc_read_only fc = Some True"
    by (subst p(2)) (auto simp: is_read_only_def profile_config_def split: option.split)
  ultimately show ?thesis
    using fc(1,2) p(1,3) s unfolding servable_def by (auto simp: started_servers_iff)
qed

lemma servers_read_only_when_asked_witness:
  "\<exists>c. load_config (\<lambda>p. Some []) (\<lambda>data. Some sample_file) (\<lambda>v. []) ''c'' [] = Inr c \<and>
     started_servers c False \<noteq> []"
proof -
  have "(case load_config (\<lambda>p. Some []) (\<lambda>data. Some sample_file) (\<lambda>v. []) ''c'' [] of
      Inl e \<Rightarrow> False | Inr c \<Rightarrow> True)" by code_simp
  then obtain c where c: "load_config (\<lambda>p. Some []) (\<lambda>data. Some sample_file) (\<lambda>v. []) ''c'' [] = Inr c"
    by (auto split: sum.splits)
  with servers_read_only_when_asked [OF c, of False] show ?thesis by blast
qed

lemma default_addresses_loopback:
  "split_host_port default_postgres_addr = Some (''127.0.0.1'', ''15432'') \<and>
   split_host_port default_mysql_addr = Some (''127.0.0.1'', ''13306'')"
  by code_simp

lemma first_setup_not_warned:
  assumes "resolve_profile env (new_file_config name url key user pass pg my ro) [] = Inr c" and "name \<noteq> []"
  shows "warn_default_credentials c = []"
proof -
  have "c_postgres_addr c \<in> {[], default_postgres_addr}" "c_mysql_addr c \<in> {[], default_mysql_addr}"
    using assms(1) unfolding new_file_config_resolves [OF assms(2)] by auto
  then show ?thesis
    using default_addresses_loopback by (auto simp: warn_default_credentials_def is_loopback_host_def)
qed

end
