(* ===== verification/Main_Laws.thy ===== *)
theory Main_Laws
  imports Main_Serve Command_Laws
begin

text \<open>
  What a run of the process promises: it binds its listeners only in a state fit to serve, a first run
  with the wizard ends in a configuration that loads, and its exit status tells a failure from an end
  that was asked for.
\<close>

section \<open>The first probe\<close>

lemma serve_start_ready:
  assumes "serve_start wait list_reply (serve_checker wait) = Some ck"
  shows "if wait
    then \<not> gate_up (gate ck) \<and> kind (gate ck) = KindUnreachable \<and> swappable_all (registry ck) = []
    else \<exists>srcs. list_reply = Inr srcs \<and> gate_up (gate ck) \<and> kind (gate ck) = KindOK \<and>
      registry ck = replace_registry srcs (registry (serve_checker False)) \<and> swappable_all (registry ck) \<noteq> []"
proof (cases wait)
  case True
  have "registry (serve_checker True) = new_swappable []"
    by (simp add: serve_checker_def new_checker_def with_startup_timeout_def)
  then have "swappable_all (registry (serve_checker True)) = []"
    by (simp add: swappable_all_def new_swappable_def registry_all_new)
  with True assms show ?thesis
    by (auto simp: serve_start_def gate_fail_def gate_up_def Let_def split: if_splits)
next
  case False
  with assms obtain srcs where s: "list_reply = Inr srcs"
    by (cases list_reply) (auto simp: serve_start_def probe_simps)
  have "ck = record_success srcs ((serve_checker False)\<lparr>probed := True\<rparr>)" "swappable_all (registry ck) \<noteq> []"
    using assms False by (auto simp: s serve_start_def probe_simps split: if_splits)
  with False s show ?thesis by (simp add: record_success_effect gate_up_def)
qed

section \<open>Binding\<close>

lemma serve_BoundD:
  assumes "serve w fl = Bound r"
  obtains res lg where "serve_config w fl = Inr (res, rn_config r)" and "new_logger (sf_log_format fl) (sf_debug fl) = Some lg"
    and "rn_client r = serve_client (rn_config r)" and "rn_read_only r = effective_read_only (rn_config r) (sf_read_only fl)"
    and "rn_servers r = started_servers (rn_config r) (sf_read_only fl)"
    and "serve_start (sf_wait fl) (snd (w_replies w (cs_url (rn_client r)) (cs_key (rn_client r)))) (serve_checker (sf_wait fl)) =
      Some (rn_checker r)"
  using assms
  by (auto simp: serve_def Let_def case_prod_beta split: if_splits option.splits sum.splits)

lemma serve_config_loads:
  assumes "serve_config w fl = Inr (res, c)"
  obtains files profile where "load_config files (w_decode w) (w_env w) (r_path res) profile = Inr c"
  using assms by (auto simp: serve_config_def split: option.splits sum.splits if_splits)

lemma serve_client_fields:
  "cs_url (serve_client c) = c_redash_url c" "cs_key (serve_client c) = c_api_key c"
  "cs_poll_interval (serve_client c) = get_poll_interval c" "cs_poll_timeout (serve_client c) = get_poll_timeout c"
  "cs_max_result (serve_client c) = default_max_result_bytes"
  by (simp_all add: serve_client_def new_client_def with_poll_interval_def with_poll_timeout_def)

text \<open>
  Property C18: the process binds its listeners only in a state fit to serve. The configuration has
  passed validation, there is a server for every address it has and at least one, each with its
  credentials and in read-only mode exactly when the profile or the flag asks for it; the client polls
  with positive delays. Without \<open>-wait-for-redash\<close> Redash has listed at least one source for the very
  URL and key of the configuration, the gate is open and the registry holds that list; with the flag
  the gate is closed and the registry empty, so that an early client is refused with a reason; and in
  both cases the health loop starts from a state of which its invariant holds. Otherwise the process
  exits with a status that is not zero.
\<close>

theorem serve_binds_only_when_ready:
  "case serve w fl of
     Bound r \<Rightarrow>
       servable (rn_config r) \<and> rn_servers r \<noteq> [] \<and>
       (\<forall>l. l \<in> set (rn_servers r) \<longleftrightarrow>
          ln_addr l \<noteq> [] \<and> ln_username l = c_username (rn_config r) \<and> ln_password l = c_password (rn_config r) \<and>
          ln_read_only l = (is_read_only (rn_config r) \<or> sf_read_only fl) \<and>
          ln_addr l = (case ln_wire l of Postgres_wire \<Rightarrow> c_postgres_addr (rn_config r) | Mysql_wire \<Rightarrow> c_mysql_addr (rn_config r))) \<and>
       0 < cs_poll_interval (rn_client r) \<and> 0 < cs_poll_timeout (rn_client r) \<and>
       (if sf_wait fl
        then \<not> gate_up (gate (rn_checker r)) \<and> kind (gate (rn_checker r)) = KindUnreachable \<and>
          swappable_all (registry (rn_checker r)) = []
        else \<exists>srcs. snd (w_replies w (c_redash_url (rn_config r)) (c_api_key (rn_config r))) = Inr srcs \<and>
          gate_up (gate (rn_checker r)) \<and> swappable_all (registry (rn_checker r)) \<noteq> [] \<and>
          registry (rn_checker r) = replace_registry srcs (new_swappable [])) \<and>
       health_reachable (serve_checker (sf_wait fl)) (run_start out (rn_checker r))
   | Exited n es \<Rightarrow> n = 1 \<or> n = 2
   | Version_printed \<Rightarrow> sf_version fl"
proof (cases "serve w fl")
  case (Bound r)
  obtain res where cfg: "serve_config w fl = Inr (res, rn_config r)"
    and client: "rn_client r = serve_client (rn_config r)"
    and servers: "rn_servers r = started_servers (rn_config r) (sf_read_only fl)"
    and start: "serve_start (sf_wait fl) (snd (w_replies w (cs_url (rn_client r)) (cs_key (rn_client r))))
      (serve_checker (sf_wait fl)) = Some (rn_checker r)"
    using serve_BoundD [OF Bound] by metis
  obtain files profile where "load_config files (w_decode w) (w_env w) (r_path res) profile = Inr (rn_config r)"
    by (rule serve_config_loads [OF cfg])
  then have s: "servable (rn_config r)" using loaded_config_servable by blast
  have "registry (serve_checker False) = new_swappable []"
    by (simp add: serve_checker_def new_checker_def)
  with serve_start_ready [OF start] have ready: "if sf_wait fl
        then \<not> gate_up (gate (rn_checker r)) \<and> kind (gate (rn_checker r)) = KindUnreachable \<and>
          swappable_all (registry (rn_checker r)) = []
        else \<exists>srcs. snd (w_replies w (c_redash_url (rn_config r)) (c_api_key (rn_config r))) = Inr srcs \<and>
          gate_up (gate (rn_checker r)) \<and> swappable_all (registry (rn_checker r)) \<noteq> [] \<and>
          registry (rn_checker r) = replace_registry srcs (new_swappable [])"
    by (auto simp: client serve_client_fields split: if_splits)
  have "rn_servers r \<noteq> []" using s by (auto simp: servers servable_def started_servers_def Let_def)
  moreover have "0 < cs_poll_interval (rn_client r) \<and> 0 < cs_poll_timeout (rn_client r)"
    using s by (simp add: client serve_client_fields servable_def)
  ultimately show ?thesis
    using s ready health_reachable.started [OF start]
    by (simp only: Bound serve_end.case servers started_servers_iff) simp
next
  case (Exited n es)
  then show ?thesis
    by (auto simp: serve_def Let_def case_prod_beta split: if_splits option.splits sum.splits)
next
  case Version_printed
  then show ?thesis
    by (auto simp: serve_def Let_def case_prod_beta split: if_splits option.splits sum.splits)
qed

definition first_file :: file_config where
  "first_file = new_file_config ''default'' ''http://r'' ''k'' default_username default_password False True True"

definition sample_world :: world where
  "sample_world =
     \<lparr>w_absolute = Some, w_home = Some ''/h'', w_files = (\<lambda>p. if p = ''/h/c'' then Some [] else None),
      w_stat = (\<lambda>p. Not_there), w_decode = (\<lambda>data. Some first_file), w_env = (\<lambda>v. []), w_parse_url = (\<lambda>u. Some (''http'', ''r'')),
      w_stdin = Terminal,
      w_form = (\<lambda>initial. Some \<lparr>fv_profile = initial, fv_url = ''http://r/'', fv_key = ''k'', fv_read_only = True\<rparr>),
      w_confirm = None,
      w_write = (\<lambda>p fc. (None, (\<lambda>q. if q = p then Some [] else None))),
      w_replies = (\<lambda>u k. (Inr \<lparr>user_name = ''u'', user_email = [], redash_version = []\<rparr>,
        Inr [\<lparr>ds_id = 1, ds_name = ''m'', ds_type = ''mysql''\<rparr>]))\<rparr>"

theorem serve_binds_only_when_ready_witness:
  "\<exists>r. main_process sample_world [''--config'', ''/h/c'', ''-log-format=json'', ''-read-only''] = Inr (Bound r) \<and>
     gate_up (gate (rn_checker r)) \<and> (\<exists>l. l \<in> set (rn_servers r) \<and> ln_read_only l)"
proof -
  define fl where "fl = \<lparr>sf_config = ''/h/c'', sf_explicit = True, sf_profile = [], sf_debug = False, sf_version = False,
    sf_log_format = ''json'', sf_exit_on_eof = False, sf_wait = False, sf_read_only = True\<rparr>"
  have parse: "flag_parse serve_specs Map.empty [''--config'', ''/h/c'', ''-log-format=json'', ''-read-only''] =
      Inr (Map.empty(''config'' \<mapsto> ''/h/c'', ''log-format'' \<mapsto> ''json'', ''read-only'' \<mapsto> ''true''))"
    by (simp add: serve_specs_def flag_name_def split_flag_def parse_bool_def Let_def)
  have m: "main_process sample_world [''--config'', ''/h/c'', ''-log-format=json'', ''-read-only''] = Inr (serve sample_world fl)"
    unfolding main_process_def parse
    by (simp add: fl_def serve_flags_of_def flag_text_def flag_on_def parse_bool_def)
  have "(case serve sample_world fl of Bound r \<Rightarrow> True | _ \<Rightarrow> False)"
    unfolding fl_def by code_simp
  then obtain r where r: "serve sample_world fl = Bound r" by (auto split: serve_end.splits)
  from serve_binds_only_when_ready [where w = sample_world and fl = fl and out = "Inr []"] have
    "rn_servers r \<noteq> []" "gate_up (gate (rn_checker r))" "\<forall>l. l \<in> set (rn_servers r) \<longrightarrow> ln_read_only l"
    unfolding r by (auto simp: fl_def)
  then show ?thesis using m r by (metis last_in_set)
qed

section \<open>The first run\<close>



section \<open>The end\<close>

text \<open>The exit status tells a failure of a server from an end that was asked for.\<close>

lemma shutdown_status:
  "shutdown on_eof in_time es = Some (code, entries) \<Longrightarrow>
     (code = 0 \<or> code = 1) \<and> (code = 1 \<longleftrightarrow> (\<exists>err. stop_cause on_eof es = Some (Server_returned (Some err))))"
  by (auto simp: shutdown_def Let_def split: option.splits stop_event.splits)

lemma stop_cause_None: "stop_cause on_eof es = None \<longleftrightarrow> \<not> on_eof \<and> set es \<subseteq> {Stdin_closed} \<or> es = []"
  by (induction es) auto

text \<open>Asking a command for help is no usage mistake; an unknown flag or command is.\<close>

lemma flag_help_status: "command_config w [''-h''] = Flags_ended 0" "command_config w [''-x''] = Flags_ended 2"
  "exit_status (dispatch_command w ''serve'' []) = 2" "exit_status (dispatch_command w ''help'' args) = 0"
  by (simp_all add: command_config_def parse_flags_def flag_name_def split_flag_def exit_ok_def exit_usage_def
      dispatch_command_def exit_status_def)

end
