(* ===== verification/My_Lex.thy ===== *)
theory My_Lex
  imports Sqltext_Laws Redash_Types
begin

text \<open>
  The text tools of \<open>internal/mysqlwire/query.go\<close>: the tokens of a statement that is answered
  locally, the select list and its aliases, and the patterns of \<open>LIKE\<close>. Positions are byte offsets;
  the token functions read the text by index as the code does.
\<close>

section \<open>Words\<close>

definition my_normalize :: "string \<Rightarrow> string" where
  "my_normalize sql = to_lower (trim_space (redact MySQL sql))"

text \<open>\<open>isIdentByte\<close> of \<open>handler.go\<close>, which unlike the one of \<open>sqltext\<close> takes a dollar.\<close>

definition my_ident_byte :: "char \<Rightarrow> bool" where
  "my_ident_byte c \<longleftrightarrow> c = CHR ''_'' \<or> c = CHR ''$'' \<or> is_alpha c \<or> is_digit c"

definition my_has_keyword :: "string \<Rightarrow> string \<Rightarrow> bool" where
  "my_has_keyword lower kw \<longleftrightarrow>
     has_prefix lower kw \<and> (length lower = length kw \<or> \<not> my_ident_byte (lower ! length kw))"

definition token_at :: "string \<Rightarrow> nat \<Rightarrow> string \<Rightarrow> bool" where
  "token_at s i kw \<longleftrightarrow>
     has_prefix (drop i s) kw \<and>
     (i = 0 \<or> \<not> my_ident_byte (s ! (i - 1))) \<and>
     (i + length kw = length s \<or> \<not> my_ident_byte (s ! (i + length kw)))"

text \<open>The end of the run of bytes with \<open>p\<close> that starts at \<open>i\<close>.\<close>

definition run_end :: "string \<Rightarrow> (char \<Rightarrow> bool) \<Rightarrow> nat \<Rightarrow> nat" where
  "run_end s p i = i + length (takeWhile p (drop i s))"

lemma run_end_bounds: "i \<le> length s \<Longrightarrow> i \<le> run_end s p i \<and> run_end s p i \<le> length s"
  using length_takeWhile_le [of p "drop i s"] by (simp add: run_end_def)

lemma run_end_progress: "i < length s \<Longrightarrow> p (s ! i) \<Longrightarrow> i < run_end s p i"
  by (simp add: run_end_def Cons_nth_drop_Suc [symmetric])

section \<open>Quoted regions\<close>

text \<open>What a backslash and the byte after it stand for; \<open>LIKE\<close> needs the first two intact.\<close>

definition unescape :: "char \<Rightarrow> string" where
  "unescape c =
     (if c = CHR ''n'' then [CHR 0x0A]
      else if c = CHR ''r'' then [CHR 0x0D]
      else if c = CHR ''t'' then [CHR 0x09]
      else if c = CHR ''0'' then [CHR 0x00]
      else if c = CHR ''b'' then [CHR 0x08]
      else if c = CHR ''Z'' then [CHR 0x1A]
      else if c = CHR ''%'' \<or> c = CHR ''_'' then [CHR 0x5C, c]
      else [c])"

function quoted_from :: "string \<Rightarrow> char \<Rightarrow> bool \<Rightarrow> nat \<Rightarrow> string \<Rightarrow> string \<times> nat" where
  "quoted_from s q esc j b =
     (if length s \<le> j then (b, j)
      else if esc \<and> s ! j = CHR 0x5C \<and> j + 1 < length s
      then quoted_from s q esc (j + 2) (b @ unescape (s ! (j + 1)))
      else if s ! j = q then
        (if j + 1 < length s \<and> s ! (j + 1) = q then quoted_from s q esc (j + 2) (b @ [q])
         else (b, j + 1))
      else quoted_from s q esc (j + 1) (b @ [s ! j]))"
  by pat_completeness auto
termination
  by (relation "measure (\<lambda>(s, q, esc, j, b). length s - j)") auto

declare quoted_from.simps [simp del]

definition lex_quoted :: "string \<Rightarrow> nat \<Rightarrow> bool \<Rightarrow> string \<times> nat" where
  "lex_quoted s i esc = quoted_from s (s ! i) esc (i + 1) []"

lemma quoted_from_bounds:
  "j \<le> length s \<Longrightarrow> j \<le> snd (quoted_from s q esc j b) \<and> snd (quoted_from s q esc j b) \<le> length s"
proof (induction s q esc j b rule: quoted_from.induct)
  case (1 s q esc j b)
  show ?case
    unfolding quoted_from.simps [of s q esc j b] using 1 by (auto split: if_splits)
qed

lemma lex_quoted_bounds: "i < length s \<Longrightarrow> i < snd (lex_quoted s i esc) \<and> snd (lex_quoted s i esc) \<le> length s"
  using quoted_from_bounds [of "i + 1" s "s ! i" esc "[]"] by (simp add: lex_quoted_def)

section \<open>Tokens\<close>

datatype tok_kind = Tok_word | Tok_var | Tok_number | Tok_string | Tok_quoted | Tok_op

record token =
  t_kind :: tok_kind
  t_text :: string
  t_orig :: string
  t_pos :: nat

definition tok_is :: "token \<Rightarrow> tok_kind \<Rightarrow> string \<Rightarrow> bool" where
  "tok_is t k txt \<longleftrightarrow> t_kind t = k \<and> t_text t = txt"

definition alias_text :: "token \<Rightarrow> string" where
  "alias_text t = (if t_kind t = Tok_word then t_orig t else t_text t)"

definition var_end :: "string \<Rightarrow> nat \<Rightarrow> nat" where
  "var_end s i =
     (let j = (if i + 1 < length s \<and> s ! (i + 1) = CHR ''@'' then i + 2 else i + 1) in
      run_end s (\<lambda>c. my_ident_byte c \<or> c = CHR ''.'') j)"

definition op_end :: "string \<Rightarrow> nat \<Rightarrow> nat" where
  "op_end s i =
     (if i + 1 < length s \<and> s ! i \<in> set ''<>!'' \<and> s ! (i + 1) \<in> set ''<>='' then i + 2 else i + 1)"

text \<open>The token at a byte that starts one: it, and the index just past it.\<close>

definition next_token :: "string \<Rightarrow> nat \<Rightarrow> token \<times> nat" where
  "next_token s i =
     (let c = s ! i in
      if c = CHR 0x27 \<or> c = CHR 0x22 then
        let (txt, e) = lex_quoted s i True in
        (\<lparr>t_kind = Tok_string, t_text = txt, t_orig = substr s i e, t_pos = i\<rparr>, e)
      else if c = CHR 0x60 then
        let (txt, e) = lex_quoted s i False in
        (\<lparr>t_kind = Tok_quoted, t_text = txt, t_orig = substr s i e, t_pos = i\<rparr>, e)
      else if c = CHR ''@'' then
        let e = var_end s i in
        (\<lparr>t_kind = Tok_var, t_text = to_lower (substr s i e), t_orig = substr s i e, t_pos = i\<rparr>, e)
      else if is_digit c then
        let e = run_end s (\<lambda>c. my_ident_byte c \<or> c = CHR ''.'') i in
        (\<lparr>t_kind = Tok_number, t_text = substr s i e, t_orig = substr s i e, t_pos = i\<rparr>, e)
      else if my_ident_byte c then
        let e = run_end s my_ident_byte i in
        (\<lparr>t_kind = Tok_word, t_text = to_lower (substr s i e), t_orig = substr s i e, t_pos = i\<rparr>, e)
      else
        let e = op_end s i in
        (\<lparr>t_kind = Tok_op, t_text = substr s i e, t_orig = substr s i e, t_pos = i\<rparr>, e))"

text \<open>Where the scan goes on when no token starts at a byte: past a blank or a comment.\<close>

definition skip_end :: "string \<Rightarrow> nat \<Rightarrow> nat option" where
  "skip_end s i =
     (let c = s ! i in
      if blank4 c then Some (i + 1)
      else if c = CHR ''#'' \<or> (c = CHR ''-'' \<and> i + 1 < length s \<and> s ! (i + 1) = CHR ''-'')
      then Some (run_end s (\<lambda>c. c \<noteq> newline) i)
      else if c = CHR ''/'' \<and> i + 1 < length s \<and> s ! (i + 1) = CHR ''*''
      then (case index_of (drop (i + 2) s) ''*/'' of
              None \<Rightarrow> Some (length s)
            | Some e \<Rightarrow> Some (i + 2 + e + 2))
      else None)"

lemma skip_end_progress: "i < length s \<Longrightarrow> skip_end s i = Some j \<Longrightarrow> i < j \<and> j \<le> length s"
proof -
  assume i: "i < length s" and s: "skip_end s i = Some j"
  have run: "i < run_end s (\<lambda>c. c \<noteq> newline) i \<and> run_end s (\<lambda>c. c \<noteq> newline) i \<le> length s"
    if "s ! i \<noteq> newline"
    using run_end_progress [OF i] run_end_bounds [of i s] i that by auto
  show ?thesis
    using s i run index_of_SomeD [of "drop (i + 2) s" "''*/''"]
    by (auto simp: skip_end_def Let_def newline_def split: if_splits option.splits)
qed

lemma var_end_progress: "i < length s \<Longrightarrow> i < var_end s i \<and> var_end s i \<le> length s"
  using run_end_bounds [of "i + 1" s "\<lambda>c. my_ident_byte c \<or> c = CHR ''.''"]
    run_end_bounds [of "i + 2" s "\<lambda>c. my_ident_byte c \<or> c = CHR ''.''"]
  by (auto simp: var_end_def Let_def)

lemma next_token_progress: "i < length s \<Longrightarrow> i < snd (next_token s i) \<and> snd (next_token s i) \<le> length s"
proof -
  assume i: "i < length s"
  have word: "i < run_end s p i \<and> run_end s p i \<le> length s" if "p (s ! i)" for p
    using run_end_progress [of i s p] run_end_bounds [of i s p] i that by simp
  show ?thesis
    using lex_quoted_bounds [OF i, of True] lex_quoted_bounds [OF i, of False] var_end_progress [OF i]
      word [of "\<lambda>c. my_ident_byte c \<or> c = CHR ''.''"] word [of my_ident_byte] i
    by (auto simp: next_token_def Let_def case_prod_beta op_end_def my_ident_byte_def)
qed

function lex_from :: "string \<Rightarrow> nat \<Rightarrow> token list" where
  "lex_from s i =
     (if length s \<le> i then []
      else case skip_end s i of
        Some j \<Rightarrow> lex_from s j
      | None \<Rightarrow> (let (t, j) = next_token s i in t # lex_from s j))"
  by pat_completeness auto
termination
proof (relation "measure (\<lambda>(s, i). length s - i)")
  fix s :: string and i j
  assume "\<not> length s \<le> i" and "skip_end s i = Some j"
  then show "((s, j), s, i) \<in> measure (\<lambda>(s, i). length s - i)"
    using skip_end_progress [of i s j] by auto
next
  fix s :: string and i p t j
  assume "\<not> length s \<le> i" and "p = next_token s i" and "(t, j) = p"
  then have "j = snd (next_token s i)" and "i < length s" by (metis snd_conv, simp)
  then have "i < j" using next_token_progress by metis
  with \<open>i < length s\<close> show "((s, j), s, i) \<in> measure (\<lambda>(s, i). length s - i)" by simp
qed simp

declare lex_from.simps [simp del]

definition lex_tokens :: "string \<Rightarrow> token list" where
  "lex_tokens s = lex_from s 0"

section \<open>Select lists\<close>

definition my_blanks :: string where
  "my_blanks = [CHR 0x20, CHR 0x09, CHR 0x0D, CHR 0x0A]"

definition select_modifiers :: "string list" where
  "select_modifiers = [''all'', ''distinct'', ''distinctrow'', ''sql_no_cache'', ''sql_cache'', ''sql_calc_found_rows'']"

text \<open>The end of the select list: the scan over the lowered, redacted text with its depth.\<close>

function list_end_from :: "string \<Rightarrow> nat \<Rightarrow> int \<Rightarrow> nat" where
  "list_end_from red i depth =
     (if length red \<le> i then length red
      else if red ! i = CHR ''('' then list_end_from red (i + 1) (depth + 1)
      else if red ! i = CHR '')'' then list_end_from red (i + 1) (depth - 1)
      else if red ! i = CHR '';'' \<and> depth = 0 then i
      else if red ! i = CHR ''l'' \<and> depth = 0 \<and> token_at red i ''limit'' then i
      else if red ! i = CHR ''f'' \<and> depth = 0 \<and> token_at red i ''from'' then i
      else list_end_from red (i + 1) depth)"
  by pat_completeness auto
termination
  by (relation "measure (\<lambda>(red, i, depth). length red - i)") auto

declare list_end_from.simps [simp del]

text \<open>The first word of a text after its blanks, and what follows it.\<close>

definition cut_word :: "string \<Rightarrow> string \<times> string" where
  "cut_word s =
     (let trimmed = dropWhile blank4 s in
      (takeWhile (\<lambda>c. \<not> blank4 c) trimmed, dropWhile (\<lambda>c. \<not> blank4 c) trimmed))"

lemma cut_word_length: "fst (cut_word s) \<noteq> [] \<Longrightarrow> length (snd (cut_word s)) < length s"
proof -
  assume w: "fst (cut_word s) \<noteq> []"
  let ?t = "dropWhile blank4 s"
  have "length ?t = length (fst (cut_word s)) + length (snd (cut_word s))"
    unfolding cut_word_def Let_def fst_conv snd_conv by (metis length_append takeWhile_dropWhile_id)
  moreover have "length ?t \<le> length s" by (rule length_dropWhile)
  moreover have "0 < length (fst (cut_word s))" using w by simp
  ultimately show ?thesis by linarith
qed

function drop_modifiers :: "string \<Rightarrow> string" where
  "drop_modifiers s =
     (if to_lower (fst (cut_word s)) \<in> set select_modifiers then drop_modifiers (snd (cut_word s)) else s)"
  by pat_completeness auto
termination
proof (relation "measure length", goal_cases)
  case (2 s)
  then have "fst (cut_word s) \<noteq> []" by (auto simp: select_modifiers_def)
  then show ?case using cut_word_length by simp
qed simp

declare drop_modifiers.simps [simp del]

definition select_list :: "string \<Rightarrow> string" where
  "select_list sql =
     (let red = to_lower (redact MySQL sql) in
      case index_of red ''select'' of
        None \<Rightarrow> []
      | Some k \<Rightarrow>
          let start = k + length ''select'' in
          drop_modifiers (substr sql start (list_end_from red start 0)))"

section \<open>Aliases\<close>

definition not_an_alias :: "string list" where
  "not_an_alias = [''and'', ''as'', ''false'', ''in'', ''is'', ''like'', ''not'', ''null'', ''or'', ''true'']"

definition split_alias :: "string \<Rightarrow> string \<times> string" where
  "split_alias item =
     (let toks = lex_tokens item; n = length toks in
      if 3 \<le> n \<and> tok_is (toks ! (n - 2)) Tok_word ''as'' \<and>
         t_kind (toks ! (n - 1)) \<noteq> Tok_op \<and> t_kind (toks ! (n - 1)) \<noteq> Tok_var
      then (trim_space (take (t_pos (toks ! (n - 2))) item), alias_text (toks ! (n - 1)))
      else if 2 \<le> n \<and> (t_kind (toks ! (n - 1)) = Tok_word \<or> t_kind (toks ! (n - 1)) = Tok_quoted) \<and>
              t_text (toks ! (n - 1)) \<notin> set not_an_alias \<and>
              (t_kind (toks ! (n - 2)) \<noteq> Tok_op \<or> t_text (toks ! (n - 2)) = '')'')
      then (trim_space (take (t_pos (toks ! (n - 1))) item), alias_text (toks ! (n - 1)))
      else (trim_space item, []))"

section \<open>Patterns\<close>

text \<open>
  The regular expression \<open>likeMatcher\<close> compiles a pattern to, as the list of its parts, and its match
  of a whole text without regard to case; one \<open>char\<close> is one character of the text, as it is in ASCII.
\<close>

datatype like_item = Any_run | Any_one | Literal char

fun like_items :: "bool \<Rightarrow> string \<Rightarrow> like_item list" where
  "like_items escaped [] = (if escaped then [Literal (CHR 0x5C)] else [])"
| "like_items escaped (c # p) =
     (if escaped then Literal c # like_items False p
      else if c = CHR 0x5C then like_items True p
      else if c = CHR ''%'' then Any_run # like_items False p
      else if c = CHR ''_'' then Any_one # like_items False p
      else Literal c # like_items False p)"

fun items_match :: "like_item list \<Rightarrow> string \<Rightarrow> bool" where
  "items_match [] s = (s = [])"
| "items_match (Any_run # items) [] = items_match items []"
| "items_match (Any_run # items) (c # s) = (items_match items (c # s) \<or> items_match (Any_run # items) s)"
| "items_match (Any_one # items) [] = False"
| "items_match (Any_one # items) (c # s) = items_match items s"
| "items_match (Literal l # items) [] = False"
| "items_match (Literal l # items) (c # s) = (lower_byte c = lower_byte l \<and> items_match items s)"

definition like_matches :: "string \<Rightarrow> string \<Rightarrow> bool" where
  "like_matches pattern s = items_match (like_items False pattern) s"

end
