(* ===== verification/My_Lex_Laws.thy ===== *)
theory My_Lex_Laws
  imports My_Lex
begin

text \<open>
  Laws of the text tools: the tokens are the pieces of the text they say they are, in order; a value
  written as a string literal is read back; and a \<open>LIKE\<close> pattern matches what the pattern language
  says.
\<close>

section \<open>Tokens\<close>

lemma next_token_piece:
  "t_pos (fst (next_token s i)) = i \<and> t_orig (fst (next_token s i)) = substr s i (snd (next_token s i))"
  by (simp add: next_token_def Let_def case_prod_beta)

definition token_end :: "token \<Rightarrow> nat" where
  "token_end t = t_pos t + length (t_orig t)"

lemma next_token_end: "i < length s \<Longrightarrow> token_end (fst (next_token s i)) = snd (next_token s i)"
  using next_token_progress [of i s] next_token_piece [of s i] by (auto simp: token_end_def)

lemma lex_from_skip: "i < length s \<Longrightarrow> skip_end s i = Some j \<Longrightarrow> lex_from s i = lex_from s j"
  by (simp add: lex_from.simps [of s i])

lemma lex_from_token:
  "i < length s \<Longrightarrow> skip_end s i = None \<Longrightarrow>
     lex_from s i = fst (next_token s i) # lex_from s (snd (next_token s i))"
  by (simp add: lex_from.simps [of s i] case_prod_beta)

lemma lex_from_end: "length s \<le> i \<Longrightarrow> lex_from s i = []"
  by (simp add: lex_from.simps)

text \<open>The tokens from \<open>i\<close> on start at or after it, are pieces of the text and do not overlap.\<close>

lemma lex_from_ordered:
  "(\<forall>t \<in> set (lex_from s i). i \<le> t_pos t \<and> t_pos t < token_end t \<and> token_end t \<le> length s \<and>
      t_orig t = substr s (t_pos t) (token_end t)) \<and>
   sorted_wrt (\<lambda>t u. token_end t \<le> t_pos u) (lex_from s i)"
proof (induction s i rule: lex_from.induct)
  case (1 s i)
  show ?case
  proof (cases "i < length s")
    case True
    show ?thesis
    proof (cases "skip_end s i")
      case None
      let ?t = "fst (next_token s i)" and ?j = "snd (next_token s i)"
      have t: "t_pos ?t = i" "token_end ?t = ?j" "t_orig ?t = substr s i ?j" "i < ?j" "?j \<le> length s"
        using next_token_piece [of s i] next_token_end [OF True] next_token_progress [OF True] by auto
      have "\<not> length s \<le> i" using True by simp
      from 1(1) [OF this None refl prod.collapse] t show ?thesis
        by (auto simp: lex_from_token [OF True None])
    next
      case (Some j)
      have "\<not> length s \<le> i" using True by simp
      from 1(2) [OF this Some] skip_end_progress [OF True Some] show ?thesis
        by (auto simp: lex_from_skip [OF True Some])
    qed
  qed (simp add: lex_from_end)
qed

text \<open>
  The tokens of a statement are pieces of it: each lies in the text where its position
  says and is not empty, and they come in order without overlapping; so a cut at a token's position,
  as the separation of an alias makes it, is always inside the text and never inside a token.
\<close>

theorem tokens_are_pieces:
  "(\<forall>t \<in> set (lex_tokens s). t_pos t < token_end t \<and> token_end t \<le> length s \<and>
      t_orig t = substr s (t_pos t) (token_end t)) \<and>
   sorted_wrt (\<lambda>t u. token_end t \<le> t_pos u) (lex_tokens s)"
  using lex_from_ordered [of s 0] by (simp add: lex_tokens_def)

lemma tokens_are_pieces_witness:
  "let ts = lex_tokens ''a b'' in length ts = 2 \<and> (\<forall>t \<in> set ts. token_end t \<le> 3)"
proof -
  have "length (lex_tokens ''a b'') = 2" by code_simp
  with tokens_are_pieces [of "''a b''"] show ?thesis by (auto simp: Let_def)
qed

section \<open>String literals\<close>

text \<open>A value as a literal in quotes \<open>q\<close>: the quote doubled, the backslash escaped.\<close>

definition literal_byte :: "char \<Rightarrow> char \<Rightarrow> string" where
  "literal_byte q c = (if c = q then [q, q] else if c = CHR 0x5C then [CHR 0x5C, CHR 0x5C] else [c])"

definition literal_body :: "char \<Rightarrow> string \<Rightarrow> string" where
  "literal_body q v = concat (map (literal_byte q) v)"

definition string_literal :: "char \<Rightarrow> string \<Rightarrow> string" where
  "string_literal q v = [q] @ literal_body q v @ [q]"

lemma quoted_from_body:
  assumes "drop j s = literal_body q v @ [q] @ rest" and "q \<noteq> CHR 0x5C" and "rest = [] \<or> hd rest \<noteq> q"
  shows "quoted_from s q True j b = (b @ v, j + length (literal_body q v) + 1)"
  using assms(1)
proof (induction v arbitrary: j b)
  case Nil
  then have d: "drop j s = q # rest" by (simp add: literal_body_def)
  then have "j < length s" by (metis drop_all list.distinct(1) not_le)
  moreover have "s ! j = q" using d \<open>j < length s\<close> by (simp add: Cons_nth_drop_Suc [symmetric])
  moreover have "drop (j + 1) s = rest" using d by (metis Suc_eq_plus1 drop_Suc list.sel(3) tl_drop)
  then have "\<not> (j + 1 < length s \<and> s ! (j + 1) = q)"
    using assms(3) by (metis drop_eq_Nil hd_drop_conv_nth not_le)
  ultimately show ?case using assms(2)
    by (auto simp: quoted_from.simps [of s q True j b] literal_body_def)
next
  case (Cons c v)
  let ?w = "literal_byte q c"
  have d: "drop j s = ?w @ literal_body q v @ [q] @ rest" using Cons.prems by (simp add: literal_body_def)
  have w: "length ?w = 1 \<or> length ?w = 2" by (simp add: literal_byte_def)
  have n: "s ! (j + k) = (?w @ literal_body q v @ [q] @ rest) ! k \<and> j + k < length s" if "k < length ?w" for k
  proof -
    have k: "k < length (drop j s)" using that d by simp
    then have "s ! (j + k) = drop j s ! k" "j + k < length s" by simp_all
    then show ?thesis by (simp only: d simp_thms)
  qed
  have "drop (j + length ?w) s = literal_body q v @ [q] @ rest"
    using d by (metis add.commute append_eq_conv_conj drop_drop)
  note IH = Cons.IH [OF this]
  have step: "quoted_from s q True j b = quoted_from s q True (j + length ?w) (b @ [c])"
    using n [of 0] n [of 1] assms(2)
    by (subst quoted_from.simps) (auto simp: literal_byte_def unescape_def)
  show ?case unfolding step IH by (simp add: literal_body_def)
qed

text \<open>The literal that starts at \<open>j\<close> is the token there.\<close>

lemma lex_from_literal:
  assumes "drop j s = string_literal q v @ rest" and "q = CHR 0x27 \<or> q = CHR 0x22"
    and "rest = [] \<or> hd rest \<noteq> q"
  shows "lex_from s j =
    \<lparr>t_kind = Tok_string, t_text = v, t_orig = string_literal q v, t_pos = j\<rparr>
      # lex_from s (j + length (string_literal q v))"
proof -
  have j: "j < length s" using assms(1) by (metis drop_all list.distinct(1) append_is_Nil_conv not_le string_literal_def append_Cons)
  have c: "s ! j = q"
    using assms(1) j by (simp add: string_literal_def Cons_nth_drop_Suc [symmetric])
  have "drop (j + 1) s = literal_body q v @ [q] @ rest"
    using assms(1) by (metis Suc_eq_plus1 append_Cons append_assoc append_Nil drop_Suc list.sel(3) string_literal_def tl_drop)
  from quoted_from_body [OF this _ assms(3), of "[]"] assms(2)
  have q: "lex_quoted s j True = (v, j + length (string_literal q v))"
    by (auto simp: lex_quoted_def c string_literal_def)
  have "substr s j (j + length (string_literal q v)) = string_literal q v"
    by (simp add: substr_def assms(1))
  then have "next_token s j = (\<lparr>t_kind = Tok_string, t_text = v, t_orig = string_literal q v, t_pos = j\<rparr>,
      j + length (string_literal q v))"
    using assms(2) q by (auto simp: next_token_def c Let_def)
  moreover have "skip_end s j = None" using assms(2) by (auto simp: skip_end_def c blank4_def)
  ultimately show ?thesis by (simp add: lex_from_token [OF j])
qed

text \<open>
  A value written as a string literal, in either kind of quotes, with the quote doubled
  and the backslash escaped, is lexed back as that one value, whatever bytes it holds.
\<close>

theorem string_literal_roundtrip:
  assumes "q = CHR 0x27 \<or> q = CHR 0x22"
  shows "lex_tokens (string_literal q v) =
    [\<lparr>t_kind = Tok_string, t_text = v, t_orig = string_literal q v, t_pos = 0\<rparr>]"
  using lex_from_literal [of 0 "string_literal q v" q v "[]", OF _ assms] lex_from_end
  by (simp add: lex_tokens_def)

lemma string_literal_roundtrip_witness:
  "lex_tokens (string_literal (CHR 0x27) ''it%'') =
    [\<lparr>t_kind = Tok_string, t_text = ''it%'', t_orig = string_literal (CHR 0x27) ''it%'', t_pos = 0\<rparr>]"
  using string_literal_roundtrip [of "CHR 0x27" "''it%''"] by simp

text \<open>A word and a blank at \<open>j\<close>.\<close>

lemma lex_from_word:
  assumes "drop j s = w @ c # rest" and "w \<noteq> []" and "list_all my_ident_byte w" and "\<not> is_digit (hd w)"
    and "\<not> my_ident_byte c"
  shows "lex_from s j =
    \<lparr>t_kind = Tok_word, t_text = to_lower w, t_orig = w, t_pos = j\<rparr> # lex_from s (j + length w)"
proof -
  obtain d w' where w: "w = d # w'" using assms(2) by (cases w) auto
  have j: "j < length s" using assms(1,2) by (metis append_is_Nil_conv drop_all not_le)
  have d: "s ! j = d" using assms(1) j by (simp add: w Cons_nth_drop_Suc [symmetric])
  have i: "my_ident_byte d" "\<not> is_digit d" using assms(3,4) w by auto
  then have n: "d \<notin> {CHR 0x27, CHR 0x22, CHR 0x60, CHR ''@'', CHR ''#'', CHR ''-'', CHR ''/''}" "\<not> blank4 d"
    by (auto simp: my_ident_byte_def is_alpha_def is_digit_def byte_def blank4_def)
  have "takeWhile my_ident_byte (w @ c # rest) = w"
    using assms(3,5) by (auto simp: takeWhile_append list_all_iff)
  then have e: "run_end s my_ident_byte j = j + length w" by (simp add: run_end_def assms(1))
  have "substr s j (j + length w) = w" by (simp add: substr_def assms(1))
  with n i e d have "next_token s j = (\<lparr>t_kind = Tok_word, t_text = to_lower w, t_orig = w, t_pos = j\<rparr>, j + length w)"
    by (auto simp: next_token_def Let_def)
  moreover have "skip_end s j = None" using n d by (auto simp: skip_end_def Let_def)
  ultimately show ?thesis by (simp add: lex_from_token [OF j])
qed

lemma lex_from_blank:
  assumes "drop j s = c # rest" and "blank4 c"
  shows "lex_from s j = lex_from s (j + 1)"
proof -
  have j: "j < length s" using assms(1) by (metis drop_all list.distinct(1) not_le)
  moreover have "s ! j = c" using assms(1) j by (simp add: Cons_nth_drop_Suc [symmetric])
  ultimately show ?thesis using assms(2) by (intro lex_from_skip) (auto simp: skip_end_def)
qed

section \<open>Patterns\<close>

text \<open>
  The language of \<open>LIKE\<close>, on the pattern as it is written: a percent stands for any text, an
  underscore for one character, a backslash takes the next character as itself, and a lone one at
  the end stands for itself; case does not count.
\<close>

inductive like :: "string \<Rightarrow> string \<Rightarrow> bool" where
  like_end: "like [] []"
| like_any: "like p s \<Longrightarrow> like (CHR ''%'' # p) (r @ s)"
| like_one: "like p s \<Longrightarrow> like (CHR ''_'' # p) (c # s)"
| like_escaped: "lower_byte c = lower_byte d \<Longrightarrow> like p s \<Longrightarrow> like (CHR 0x5C # d # p) (c # s)"
| like_lone: "like [CHR 0x5C] [CHR 0x5C]"
| like_plain: "d \<notin> {CHR ''%'', CHR ''_'', CHR 0x5C} \<Longrightarrow> lower_byte c = lower_byte d \<Longrightarrow> like p s \<Longrightarrow>
    like (d # p) (c # s)"

inductive_simps like_simps:
  "like [] s" "like (CHR ''%'' # p) s" "like (CHR ''_'' # p) s" "like [CHR 0x5C] s"
  "like (CHR 0x5C # d # p) s"

inductive_cases like_consE: "like (d # p) s"

lemma items_match_run: "items_match (Any_run # items) s \<longleftrightarrow> (\<exists>r t. s = r @ t \<and> items_match items t)"
proof (induction s)
  case (Cons c s)
  have "(\<exists>r t. c # s = r @ t \<and> items_match items t) \<longleftrightarrow>
      items_match items (c # s) \<or> (\<exists>r t. s = r @ t \<and> items_match items t)"
    by (metis append_Cons append_Nil list.inject list.exhaust)
  with Cons show ?case by simp
qed simp

lemma items_match_one: "items_match (Any_one # items) s \<longleftrightarrow> (\<exists>c t. s = c # t \<and> items_match items t)"
  by (cases s) auto

lemma items_match_literal:
  "items_match (Literal d # items) s \<longleftrightarrow> (\<exists>c t. s = c # t \<and> lower_byte c = lower_byte d \<and> items_match items t)"
  by (cases s) auto

lemma like_plain_iff:
  "d \<notin> {CHR ''%'', CHR ''_'', CHR 0x5C} \<Longrightarrow>
     like (d # p) s \<longleftrightarrow> (\<exists>c t. s = c # t \<and> lower_byte c = lower_byte d \<and> like p t)"
  by (auto elim: like_consE intro: like_plain)

lemma items_match_like: "items_match (like_items False p) s \<longleftrightarrow> like p s"
proof (induction p arbitrary: s rule: length_induct)
  case (1 p)
  show ?case
  proof (cases p)
    case Nil
    then show ?thesis by (simp add: like_simps)
  next
    case (Cons d q)
    note IH = 1 [rule_format]
    show ?thesis
    proof (cases "d = CHR 0x5C")
      case True
      show ?thesis
      proof (cases q)
        case Nil
        have "lower_byte c = CHR 0x5C \<longleftrightarrow> c = CHR 0x5C" for c
        proof
          assume l: "lower_byte c = CHR 0x5C"
          show "c = CHR 0x5C"
          proof (cases "65 \<le> byte c \<and> byte c \<le> 90")
            case True
            then have "byte (lower_byte c) = byte c + 32" by (simp add: lower_byte_def byte_char_of)
            with l True show ?thesis by (simp add: byte_def)
          qed (use l in \<open>auto simp: lower_byte_def\<close>)
        qed (simp add: lower_byte_def byte_def)
        then show ?thesis
          using Cons True Nil by (auto simp: like_simps items_match_literal lower_byte_def byte_def)
      next
        case (Cons e r)
        with \<open>p = d # q\<close> True IH [of r] show ?thesis
          by (auto simp: like_simps items_match_literal)
      qed
    next
      case False
      with Cons IH [of q] show ?thesis
        by (auto simp: like_simps like_plain_iff items_match_run items_match_one items_match_literal)
    qed
  qed
qed

text \<open>
  Property C38: The compiled pattern of a \<open>LIKE\<close> accepts exactly the texts of the pattern language.
\<close>

theorem like_matches_iff: "like_matches p s \<longleftrightarrow> like p s"
  by (simp add: like_matches_def items_match_like)

end
