(* ===== verification/My_Values.thy ===== *)
theory My_Values
  imports My_Lex Pg_Result
begin

text \<open>
  The result sets of \<open>internal/mysqlwire/query.go\<close>: how a query result of Redash becomes rows of Go
  values, one representation per column, and what the server library is handed.

  The library's \<open>BuildSimpleResultset\<close> and the floating-point parser are arguments, the record
  \<open>my_lib\<close>: whether a table of values is accepted, and for the text of a number whether
  \<open>ParseFloat\<close> takes it and if the result is zero. A \<open>float64\<close> is kept as the literal it was parsed
  from.
\<close>

section \<open>Values and answers\<close>

datatype go_value =
    GNull
  | GInt int
  | GFloat string
  | GStr string
  | GBytes string

datatype er_code =
    ER_UNKNOWN_ERROR | ER_BAD_DB_ERROR | ER_NO_DB_ERROR | ER_OPTION_PREVENTS_STATEMENT
  | ER_QUERY_INTERRUPTED | ER_PARSE_ERROR | ER_NO_SUCH_THREAD | ER_NOT_SUPPORTED_YET
  | ER_UNKNOWN_COM_ERROR

text \<open>
  An error of the library's \<open>MyError\<close> with a text of the proxy, one with the library's text for its
  code, and the error of building a result set.
\<close>

datatype my_error =
    My_error er_code string
  | Default_error er_code string
  | Build_failed

text \<open>What is answered: no result, a count of rows, or a result set.\<close>

datatype my_result =
    No_result
  | Affected nat
  | Result_set "string list" "go_value list list"

record my_lib =
  lib_float :: "string \<Rightarrow> bool option"
  lib_build :: "string list \<Rightarrow> go_value list list \<Rightarrow> bool"

definition as_bytes :: "go_value \<Rightarrow> go_value" where
  "as_bytes v = (case v of GStr s \<Rightarrow> if s = [] then GBytes [] else v | _ \<Rightarrow> v)"

definition build_resultset :: "my_lib \<Rightarrow> string list \<Rightarrow> go_value list list \<Rightarrow> my_error + my_result" where
  "build_resultset lib names values =
     (let values' = map (map as_bytes) values in
      if lib_build lib names values' then Inr (Result_set names values') else Inl Build_failed)"

definition result_of :: "my_lib \<Rightarrow> string list \<Rightarrow> go_value list list \<Rightarrow> my_error + my_result" where
  "result_of lib names values = build_resultset lib names values"

definition single_result :: "my_lib \<Rightarrow> string \<Rightarrow> go_value \<Rightarrow> my_error + my_result" where
  "single_result lib name v = build_resultset lib [name] [[v]]"

section \<open>Numbers\<close>

text \<open>\<open>significantDigits\<close>: the digits before an exponent.\<close>

fun significant_digits :: "string \<Rightarrow> nat" where
  "significant_digits [] = 0"
| "significant_digits (c # s) =
     (if c = CHR ''e'' \<or> c = CHR ''E'' then 0
      else if is_digit c then Suc (significant_digits s) else significant_digits s)"

text \<open>Numbers of a decoded row are \<open>json.Number\<close>s: the decoder never makes a \<open>float64\<close>.\<close>

definition as_int64 :: "json \<Rightarrow> int option" where
  "as_int64 v = (case v of JNum n \<Rightarrow> parse_int n | _ \<Rightarrow> None)"

definition as_exact_float64 :: "my_lib \<Rightarrow> json \<Rightarrow> string option" where
  "as_exact_float64 lib v =
     (case v of
        JNum n \<Rightarrow>
          if significant_digits n > 15 then None
          else if lib_float lib n = None then None else Some n
      | _ \<Rightarrow> None)"

definition bool_to_01 :: "my_lib \<Rightarrow> json \<Rightarrow> int" where
  "bool_to_01 lib v =
     (case v of
        JBool b \<Rightarrow> if b then 1 else 0
      | JNum n \<Rightarrow>
          if (case parse_int n of Some i \<Rightarrow> i \<noteq> 0 | None \<Rightarrow> False) then 1
          else if lib_float lib n = Some False then 1 else 0
      | JStr s \<Rightarrow>
          let lower = to_lower s in
          if lower = ''true'' \<or> lower = ''1'' \<or> lower = ''t'' then 1 else 0
      | _ \<Rightarrow> 0)"

text \<open>\<open>strings.Replace(s, "T", " ", 1)\<close>.\<close>

definition replace_first_T :: "string \<Rightarrow> string" where
  "replace_first_T s =
     (case index_byte s (CHR ''T'') of
        None \<Rightarrow> s
      | Some k \<Rightarrow> take k s @ '' '' @ drop (Suc k) s)"

definition trim_suffix_Z :: "string \<Rightarrow> string" where
  "trim_suffix_Z s = (if has_suffix s ''Z'' then butlast s else s)"

definition stringify_value :: "json \<Rightarrow> string \<Rightarrow> string" where
  "stringify_value v ty =
     (case v of
        JNum n \<Rightarrow> n
      | _ \<Rightarrow> if ty = ''datetime'' then trim_suffix_Z (replace_first_T (sprint_value v)) else sprint_value v)"

section \<open>One representation per column\<close>

datatype col_kind = Kind_string | Kind_int | Kind_float | Kind_bool

text \<open>A missing member of a row and a null both read as \<open>nil\<close>.\<close>

definition column_kind :: "my_lib \<Rightarrow> column \<Rightarrow> (string \<rightharpoonup> json) list \<Rightarrow> col_kind" where
  "column_kind lib col rs =
     (let values = cell_values rs (col_name col) in
      if col_type col = ''boolean'' then
        (if list_ex is_complex values then Kind_string else Kind_bool)
      else if col_type col = ''integer'' then
        (if list_ex (\<lambda>v. as_int64 v = None) values then Kind_string else Kind_int)
      else if col_type col = ''float'' then
        (if list_ex (\<lambda>v. as_exact_float64 lib v = None) values then Kind_string else Kind_float)
      else Kind_string)"

definition convert_value :: "my_lib \<Rightarrow> json \<Rightarrow> string \<Rightarrow> col_kind \<Rightarrow> go_value" where
  "convert_value lib v ty k =
     (if is_complex v then GStr (json_marshal v)
      else case k of
        Kind_bool \<Rightarrow> GInt (bool_to_01 lib v)
      | Kind_int \<Rightarrow>
          (case as_int64 v of Some n \<Rightarrow> GInt n | None \<Rightarrow> GStr (stringify_value v ty))
      | Kind_float \<Rightarrow>
          (case as_exact_float64 lib v of Some f \<Rightarrow> GFloat f | None \<Rightarrow> GStr (stringify_value v ty))
      | Kind_string \<Rightarrow> GStr (stringify_value v ty))"

definition result_cell :: "my_lib \<Rightarrow> (string \<rightharpoonup> json) list \<Rightarrow> (string \<rightharpoonup> json) \<Rightarrow> column \<Rightarrow> go_value" where
  "result_cell lib rs row col =
     (case cell row (col_name col) of
        None \<Rightarrow> GNull
      | Some v \<Rightarrow> convert_value lib v (col_type col) (column_kind lib col rs))"

definition write_prefixes :: "string list" where
  "write_prefixes = [''insert'', ''update'', ''delete'', ''create'', ''drop'', ''alter'']"

definition build_result :: "my_lib \<Rightarrow> string \<Rightarrow> query_result \<Rightarrow> my_error + my_result" where
  "build_result lib sql result =
     (let lower = to_lower (trim_space sql) in
      if list_ex (has_prefix lower) write_prefixes then Inr (Affected (length (rows result)))
      else if columns result = [] then Inr (Affected 0)
      else build_resultset lib (map col_name (columns result))
             (map (\<lambda>row. map (result_cell lib (rows result) row) (columns result)) (rows result)))"

section \<open>Tables the library takes\<close>

text \<open>
  What \<open>BuildSimpleResultset\<close> documents: a column has one type, found from its first value that is
  not null, and every other value of it must map to the same one; text and bytes are one type.
\<close>

datatype value_class = Integer_class | Double_class | Text_class

definition class_of :: "go_value \<Rightarrow> value_class option" where
  "class_of v =
     (case v of GNull \<Rightarrow> None | GInt i \<Rightarrow> Some Integer_class | GFloat f \<Rightarrow> Some Double_class
      | GStr s \<Rightarrow> Some Text_class | GBytes s \<Rightarrow> Some Text_class)"

definition uniform_values :: "go_value list \<Rightarrow> bool" where
  "uniform_values vs \<longleftrightarrow> (\<exists>k. \<forall>v \<in> set vs. class_of v = None \<or> class_of v = Some k)"

definition uniform_table :: "string list \<Rightarrow> go_value list list \<Rightarrow> bool" where
  "uniform_table names tab \<longleftrightarrow>
     (\<forall>row \<in> set tab. length row = length names) \<and>
     (\<forall>j < length names. uniform_values (map (\<lambda>row. row ! j) tab))"

definition accepts_uniform :: "my_lib \<Rightarrow> bool" where
  "accepts_uniform lib \<longleftrightarrow> (\<forall>names tab. uniform_table names tab \<longrightarrow> lib_build lib names tab)"

lemma class_of_as_bytes [simp]: "class_of (as_bytes v) = class_of v"
  by (simp add: as_bytes_def class_of_def split: go_value.split)

lemma uniform_valuesI: "(\<And>v. v \<in> set vs \<Longrightarrow> class_of v = None \<or> class_of v = Some k) \<Longrightarrow> uniform_values vs"
  unfolding uniform_values_def by blast

lemma uniform_values_as_bytes [simp]: "uniform_values (map as_bytes vs) = uniform_values vs"
  by (simp add: uniform_values_def)

lemma uniform_table_as_bytes: "uniform_table names tab \<Longrightarrow> uniform_table names (map (map as_bytes) tab)"
  unfolding uniform_table_def uniform_values_def by (auto simp: nth_map)

lemma build_resultset_uniform:
  "accepts_uniform lib \<Longrightarrow> uniform_table names tab \<Longrightarrow>
     build_resultset lib names tab = Inr (Result_set names (map (map as_bytes) tab))"
  using uniform_table_as_bytes [of names tab]
  by (simp add: build_resultset_def accepts_uniform_def Let_def)

lemma uniform_table_columns:
  assumes "\<And>row. row \<in> set tab \<Longrightarrow> length row = length names"
    and "\<And>j row. j < length names \<Longrightarrow> row \<in> set tab \<Longrightarrow>
      class_of (row ! j) = None \<or> class_of (row ! j) = Some (k j)"
  shows "uniform_table names tab"
  unfolding uniform_table_def
proof (intro conjI allI impI ballI)
  fix j
  assume j: "j < length names"
  show "uniform_values (map (\<lambda>row. row ! j) tab)"
  proof (rule uniform_valuesI)
    fix v
    assume "v \<in> set (map (\<lambda>row. row ! j) tab)"
    then obtain row where "row \<in> set tab" "v = row ! j" by auto
    with assms(2) [OF j] show "class_of v = None \<or> class_of v = Some (k j)" by metis
  qed
qed (rule assms(1))

section \<open>What becomes of a value\<close>

lemma cell_not_JNull: "cell row name = Some v \<Longrightarrow> v \<noteq> JNull"
  by (auto simp: cell_def split: option.splits json.splits)

lemma cell_in_values: "row \<in> set rs \<Longrightarrow> cell row name = Some v \<Longrightarrow> v \<in> set (cell_values rs name)"
  by (auto simp: cell_values_def List.map_filter_def intro!: image_eqI [of _ _ row])

definition kind_class :: "col_kind \<Rightarrow> value_class" where
  "kind_class k =
     (case k of Kind_string \<Rightarrow> Text_class | Kind_int \<Rightarrow> Integer_class | Kind_float \<Rightarrow> Double_class
      | Kind_bool \<Rightarrow> Integer_class)"

lemma convert_value_class:
  assumes "row \<in> set rs" and "cell row (col_name col) = Some v"
  shows "class_of (convert_value lib v (col_type col) (column_kind lib col rs)) =
    Some (kind_class (column_kind lib col rs))"
proof -
  note v = cell_in_values [OF assms]
  have num: "\<not> is_complex v" if "as_int64 v \<noteq> None \<or> as_exact_float64 lib v \<noteq> None"
    using that by (cases v) (auto simp: as_int64_def as_exact_float64_def)
  show ?thesis
    using v num
    by (auto simp: column_kind_def convert_value_def kind_class_def class_of_def Let_def list_ex_iff
        split: option.splits if_splits)
qed

lemma result_cell_class:
  "row \<in> set rs \<Longrightarrow> class_of (result_cell lib rs row col) = None \<or>
     class_of (result_cell lib rs row col) = Some (kind_class (column_kind lib col rs))"
  using convert_value_class [of row rs col _ lib]
  by (auto simp: result_cell_def class_of_def [of GNull] split: option.split)

text \<open>
  Property C15: Rendering never fails on the values: every column of a query result, whatever mixture
  Redash sent, is given values of one class, so a library that takes such tables takes every result
  and none is lost to one odd value.
\<close>

theorem every_result_renders:
  assumes "accepts_uniform lib"
  shows "build_result lib sql result =
    (if list_ex (has_prefix (to_lower (trim_space sql))) write_prefixes then Inr (Affected (length (rows result)))
     else if columns result = [] then Inr (Affected 0)
     else Inr (Result_set (map col_name (columns result))
       (map (\<lambda>row. map (\<lambda>col. as_bytes (result_cell lib (rows result) row col)) (columns result)) (rows result))))"
proof -
  let ?tab = "map (\<lambda>row. map (result_cell lib (rows result) row) (columns result)) (rows result)"
  have "uniform_table (map col_name (columns result)) ?tab"
  proof (rule uniform_table_columns [where k = "\<lambda>j. kind_class (column_kind lib (columns result ! j) (rows result))"])
    fix j row
    assume j: "j < length (map col_name (columns result))" and "row \<in> set ?tab"
    then obtain r where "r \<in> set (rows result)" "row = map (result_cell lib (rows result) r) (columns result)" by auto
    with j show "class_of (row ! j) = None \<or>
        class_of (row ! j) = Some (kind_class (column_kind lib (columns result ! j) (rows result)))"
      using result_cell_class [of r "rows result" lib "columns result ! j"] by simp
  qed auto
  from build_resultset_uniform [OF assms this] show ?thesis
    by (simp add: build_result_def Let_def comp_def)
qed

lemma every_result_renders_witness:
  "build_result \<lparr>lib_float = \<lambda>s. None, lib_build = uniform_table\<rparr> ''select 1''
     \<lparr>columns = [\<lparr>col_name = ''a'', friendly_name = [], col_type = ''integer''\<rparr>],
      rows = [[''a'' \<mapsto> JNum ''1''], [''a'' \<mapsto> JStr ''x'']]\<rparr> =
   Inr (Result_set [''a''] [[GStr ''1''], [GStr ''x'']])"
proof -
  let ?lib = "\<lparr>lib_float = \<lambda>s. None, lib_build = uniform_table\<rparr>"
  have "accepts_uniform ?lib" by (simp add: accepts_uniform_def)
  from every_result_renders [OF this] show ?thesis
    by (simp add: trim_space_def trim_left_def trim_right_def to_lower_def lower_byte_def byte_def is_space_def
        blank4_def write_prefixes_def result_cell_def cell_def column_kind_def convert_value_def as_int64_def
        parse_int_def is_digit_def as_bytes_def stringify_value_def Let_def)
qed



end
