(* ===== verification/My_Local.thy ===== *)
theory My_Local
  imports My_Lex_Laws My_Values Redash_Registry "HOL-Library.Word"
begin

text \<open>
  The statements \<open>internal/mysqlwire/query.go\<close> answers without Redash: session settings, the
  \<open>SHOW\<close> statements, selects without a table, and \<open>information_schema\<close>. A statement is compiled to
  data, the tests of a \<open>WHERE\<close> clause among it, and the data is run over the schema at hand.
\<close>

section \<open>The session a statement sees\<close>

definition server_version :: string where
  "server_version = ''8.0.0-redash-wire''"

definition local_user :: string where
  "local_user = ''redash@localhost''"

record my_session =
  ml_db_name :: string
  ml_conn_id :: "32 word"
  ml_sources :: "data_source list"
  ml_schema :: "schema_table list"
  ml_read_only :: bool

section \<open>Classification\<close>

definition local_functions :: "string list" where
  "local_functions =
     [''version'', ''database'', ''schema'', ''current_user'', ''user'', ''session_user'', ''system_user'',
      ''connection_id'']"

definition has_any_prefix :: "string \<Rightarrow> string list \<Rightarrow> bool" where
  "has_any_prefix s ps = list_ex (has_prefix s) ps"

definition session_prefixes :: "string list" where
  "session_prefixes = [''set '', ''begin'', ''start transaction'', ''commit'', ''rollback'']"

definition databases_prefixes :: "string list" where
  "databases_prefixes = [''show databases'', ''show schemas'']"

definition tables_prefixes :: "string list" where
  "tables_prefixes = [''show tables'', ''show full tables'']"

definition variables_prefixes :: "string list" where
  "variables_prefixes = [''show variables'', ''show session variables'', ''show global variables'']"

definition status_prefixes :: "string list" where
  "status_prefixes = [''show session status'', ''show status'']"

definition is_my_local_query :: "string \<Rightarrow> bool" where
  "is_my_local_query sql =
     (let lower = my_normalize sql in
      has_any_prefix lower session_prefixes \<or> has_any_prefix lower databases_prefixes \<or>
      has_any_prefix lower tables_prefixes \<or> has_any_prefix lower variables_prefixes \<or>
      has_any_prefix lower status_prefixes \<or>
      contains_token lower ''information_schema.'' \<or>
      my_has_keyword lower ''select'' \<and> \<not> contains_token lower ''from'' \<and>
        (contains_str lower ''@@'' \<or> list_ex (\<lambda>fn. contains_token lower (fn @ ''('')) local_functions))"

section \<open>Variables\<close>

definition session_variables :: "(string \<times> go_value) list" where
  "session_variables =
     [(''auto_increment_increment'', GInt 1),
      (''autocommit'', GInt 1),
      (''character_set_client'', GStr ''utf8mb4''),
      (''character_set_connection'', GStr ''utf8mb4''),
      (''character_set_database'', GStr ''utf8mb4''),
      (''character_set_results'', GStr ''utf8mb4''),
      (''character_set_server'', GStr ''utf8mb4''),
      (''collation_connection'', GStr ''utf8mb4_general_ci''),
      (''collation_database'', GStr ''utf8mb4_general_ci''),
      (''collation_server'', GStr ''utf8mb4_general_ci''),
      (''init_connect'', GStr []),
      (''interactive_timeout'', GInt 28800),
      (''license'', GStr ''GPL''),
      (''lower_case_table_names'', GInt 0),
      (''max_allowed_packet'', GInt 67108864),
      (''net_read_timeout'', GInt 30),
      (''net_write_timeout'', GInt 60),
      (''performance_schema'', GInt 0),
      (''read_only'', GInt 0),
      (''sql_mode'', GStr ''ONLY_FULL_GROUP_BY,STRICT_TRANS_TABLES,NO_ZERO_IN_DATE,NO_ZERO_DATE,ERROR_FOR_DIVISION_BY_ZERO,NO_ENGINE_SUBSTITUTION''),
      (''super_read_only'', GInt 0),
      (''system_time_zone'', GStr ''UTC''),
      (''time_zone'', GStr ''SYSTEM''),
      (''transaction_isolation'', GStr ''REPEATABLE-READ''),
      (''transaction_read_only'', GInt 0),
      (''tx_isolation'', GStr ''REPEATABLE-READ''),
      (''tx_read_only'', GInt 0),
      (''version'', GStr server_version),
      (''version_comment'', GStr ''redash-wire MySQL proxy''),
      (''wait_timeout'', GInt 28800)]"

definition read_only_variables :: "string list" where
  "read_only_variables = [''read_only'', ''super_read_only'', ''transaction_read_only'', ''tx_read_only'']"

definition variable_value :: "string \<Rightarrow> go_value \<Rightarrow> bool \<Rightarrow> go_value" where
  "variable_value name v ro = (if ro \<and> name \<in> set read_only_variables then GInt 1 else v)"

definition trim_prefix :: "string \<Rightarrow> string \<Rightarrow> string" where
  "trim_prefix p s = (if has_prefix s p then drop (length p) s else s)"

text \<open>The value, or \<open>GNull\<close> for a name that is not known.\<close>

definition lookup_variable :: "string \<Rightarrow> bool \<Rightarrow> go_value" where
  "lookup_variable ref ro =
     (let lower = to_lower ref in
      if \<not> has_prefix lower ''@@'' then GNull
      else
        let name = fold trim_prefix [''session.'', ''local.'', ''global.''] (drop 2 lower) in
        (case map_of session_variables name of
           None \<Rightarrow> GNull
         | Some v \<Rightarrow> variable_value name v ro))"

text \<open>\<open>fmt.Sprint\<close>.\<close>

definition go_sprint :: "go_value \<Rightarrow> string" where
  "go_sprint v =
     (case v of GNull \<Rightarrow> ''<nil>'' | GInt i \<Rightarrow> int_to_string i | GFloat f \<Rightarrow> f | GStr s \<Rightarrow> s | GBytes s \<Rightarrow> s)"

section \<open>Selects without a table\<close>

definition call_local_function :: "string \<Rightarrow> my_session \<Rightarrow> go_value" where
  "call_local_function name sess =
     (if name = ''version'' then GStr server_version
      else if name = ''database'' \<or> name = ''schema'' then
        (if ml_db_name sess = [] then GNull else GStr (ml_db_name sess))
      else if name = ''user'' \<or> name = ''current_user'' \<or> name = ''session_user'' \<or> name = ''system_user''
      then GStr local_user
      else if name = ''connection_id'' then GInt (uint (ml_conn_id sess))
      else GNull)"

definition eval_number :: "my_lib \<Rightarrow> string \<Rightarrow> go_value option" where
  "eval_number lib txt =
     (case parse_int txt of
        Some n \<Rightarrow> Some (GInt n)
      | None \<Rightarrow> if lib_float lib txt \<noteq> None then Some (GFloat txt) else None)"

definition eval_local_expr :: "my_lib \<Rightarrow> string \<Rightarrow> my_session \<Rightarrow> go_value" where
  "eval_local_expr lib expr sess =
     (case lex_tokens expr of
        [t] \<Rightarrow>
          (case t_kind t of
             Tok_var \<Rightarrow> lookup_variable (t_text t) (ml_read_only sess)
           | Tok_number \<Rightarrow> (case eval_number lib (t_text t) of Some v \<Rightarrow> v | None \<Rightarrow> GStr (t_text t))
           | Tok_string \<Rightarrow> GStr (t_text t)
           | Tok_word \<Rightarrow>
               if t_text t = ''null'' then GNull
               else if t_text t = ''true'' then GInt 1
               else if t_text t = ''false'' then GInt 0
               else if t_text t = ''current_user'' then GStr local_user
               else GNull
           | _ \<Rightarrow> GNull)
      | [t, u, v] \<Rightarrow>
          if t_kind t = Tok_word \<and> tok_is u Tok_op ''('' \<and> tok_is v Tok_op '')''
          then call_local_function (t_text t) sess else GNull
      | _ \<Rightarrow> GNull)"

text \<open>The items of a select list that are not blank, with the name each gives its column.\<close>

definition named_item :: "string \<Rightarrow> string \<times> string" where
  "named_item item = (case split_alias item of (expr, al) \<Rightarrow> (if al = [] then expr else al, expr))"

definition list_items :: "string \<Rightarrow> string list" where
  "list_items sql = filter (\<lambda>i. i \<noteq> []) (map trim_space (split_top_level_commas MySQL (select_list sql)))"

definition handle_local_select :: "my_lib \<Rightarrow> string \<Rightarrow> my_session \<Rightarrow> my_error + my_result" where
  "handle_local_select lib sql sess =
     (let items = map named_item (list_items sql) in
      if items = [] then single_result lib ''result'' (GStr [])
      else build_resultset lib (map fst items) [map (\<lambda>(n, e). eval_local_expr lib e sess) items])"

section \<open>Show databases, tables and variables\<close>

definition handle_show_databases :: "my_lib \<Rightarrow> data_source list \<Rightarrow> my_error + my_result" where
  "handle_show_databases lib srcs = build_resultset lib [''Database''] (map (\<lambda>ds. [GStr (ds_name ds)]) srcs)"

definition show_tokens :: "string \<Rightarrow> token list" where
  "show_tokens sql = lex_tokens (trim_right (\<lambda>c. c = CHR '';'') (trim_space sql))"

definition is_name_token :: "token \<Rightarrow> bool" where
  "is_name_token t \<longleftrightarrow> t_kind t = Tok_word \<or> t_kind t = Tok_quoted"

text \<open>A test on a text: the four comparisons, without regard to case.\<close>

datatype text_test =
    Test_equal string
  | Test_differs string
  | Test_like string
  | Test_not_like string
  | Test_in "string list"

fun run_test :: "text_test \<Rightarrow> string \<Rightarrow> bool" where
  "run_test (Test_equal v) s = equal_fold s v"
| "run_test (Test_differs v) s = (\<not> equal_fold s v)"
| "run_test (Test_like p) s = like_matches p s"
| "run_test (Test_not_like p) s = (\<not> like_matches p s)"
| "run_test (Test_in vs) s = list_ex (equal_fold s) vs"

text \<open>A condition of \<open>SHOW TABLES WHERE\<close>: on the name (\<open>True\<close>) or the type of the table.\<close>

definition show_tables_condition :: "token list \<Rightarrow> string \<Rightarrow> (bool \<times> text_test) option" where
  "show_tables_condition cond db =
     (if length cond < 3 \<or> \<not> is_name_token (cond ! 0) then None
      else
        let col = alias_text (cond ! 0);
            negated = (tok_is (cond ! 1) Tok_word ''not'' \<and> tok_is (cond ! 2) Tok_word ''like'');
            oper = (if negated then ''not like'' else t_text (cond ! 1));
            rest = (if negated then drop 3 cond else drop 2 cond);
            field = (if equal_fold col (''tables_in_'' @ db) then Some True
                     else if equal_fold col ''table_type'' then Some False else None) in
        (case (field, rest) of
           (Some on_name, [v]) \<Rightarrow>
             if t_kind v \<noteq> Tok_string then None
             else if oper = ''='' then Some (on_name, Test_equal (t_text v))
             else if oper = ''!='' \<or> oper = ''<>'' then Some (on_name, Test_differs (t_text v))
             else if oper = ''like'' then Some (on_name, Test_like (t_text v))
             else if oper = ''not like'' then Some (on_name, Test_not_like (t_text v))
             else None
         | _ \<Rightarrow> None))"

fun split_and :: "token list \<Rightarrow> token list list" where
  "split_and [] = [[]]"
| "split_and (t # ts) =
     (if tok_is t Tok_word ''and'' then [] # split_and ts
      else case split_and ts of [] \<Rightarrow> [[t]] | c # cs \<Rightarrow> (t # c) # cs)"

definition show_tables_syntax_error :: my_error where
  "show_tables_syntax_error =
     My_error ER_PARSE_ERROR
       (''You have an error in your SQL syntax; expected SHOW [FULL] TABLES [{FROM | IN} db] [LIKE ''
        @ [CHR 0x27] @ ''pattern'' @ [CHR 0x27] @ '' | WHERE expr]'')"

definition where_unsupported :: "string \<Rightarrow> my_error" where
  "where_unsupported db =
     Default_error ER_NOT_SUPPORTED_YET
       (''SHOW TABLES WHERE beyond Tables_in_'' @ db @ '' or Table_type compared with =, !=, <> or LIKE, joined by AND'')"

definition show_tables_where :: "token list \<Rightarrow> string \<Rightarrow> my_error + (bool \<times> text_test) list" where
  "show_tables_where toks db =
     (if toks = [] then Inl show_tables_syntax_error
      else case those (map (\<lambda>c. show_tables_condition c db) (split_and toks)) of
        None \<Rightarrow> Inl (where_unsupported db)
      | Some conds \<Rightarrow> Inr conds)"

definition table_admitted :: "(bool \<times> text_test) list \<Rightarrow> string \<Rightarrow> string \<Rightarrow> bool" where
  "table_admitted conds name ty = list_all (\<lambda>(on_name, t). run_test t (if on_name then name else ty)) conds"

text \<open>The optional \<open>FROM db\<close>: the index after it, or the refusal.\<close>

definition show_tables_from :: "token list \<Rightarrow> nat \<Rightarrow> my_session \<Rightarrow> my_error + nat" where
  "show_tables_from toks i sess =
     (if i < length toks \<and> (tok_is (toks ! i) Tok_word ''from'' \<or> tok_is (toks ! i) Tok_word ''in'') then
        (if length toks \<le> i + 1 \<or> \<not> is_name_token (toks ! (i + 1)) then Inl show_tables_syntax_error
         else
           let named = alias_text (toks ! (i + 1)) in
           if equal_fold named (ml_db_name sess) then Inr (i + 2)
           else case find (\<lambda>ds. equal_fold (ds_name ds) named) (ml_sources sess) of
             Some ds \<Rightarrow> Inl (Default_error ER_NOT_SUPPORTED_YET
               (''SHOW TABLES FROM a database other than the current one; USE `'' @ ds_name ds @ ''` first''))
           | None \<Rightarrow> Inl (Default_error ER_BAD_DB_ERROR named))
      else Inr i)"

text \<open>The rest of the statement: what is appended to the column's name, and the conditions.\<close>

definition show_tables_filter :: "token list \<Rightarrow> nat \<Rightarrow> string \<Rightarrow> my_error + string \<times> (bool \<times> text_test) list"
  where
  "show_tables_filter toks i db =
     (if length toks \<le> i then Inr ([], [])
      else if tok_is (toks ! i) Tok_word ''like'' \<and> i + 2 = length toks \<and> t_kind (toks ! (i + 1)) = Tok_string
      then Inr ('' ('' @ t_text (toks ! (i + 1)) @ '')'', [(True, Test_like (t_text (toks ! (i + 1))))])
      else if tok_is (toks ! i) Tok_word ''where'' then
        (case show_tables_where (drop (i + 1) toks) db of Inl e \<Rightarrow> Inl e | Inr conds \<Rightarrow> Inr ([], conds))
      else Inl show_tables_syntax_error)"

definition base_table :: string where
  "base_table = ''BASE TABLE''"

definition handle_show_tables :: "my_lib \<Rightarrow> string \<Rightarrow> my_session \<Rightarrow> my_error + my_result" where
  "handle_show_tables lib sql sess =
     (let toks = show_tokens sql;
          full = (1 < length toks \<and> tok_is (toks ! 1) Tok_word ''full'');
          i = (if full then 3 else 2);
          col = (if ml_db_name sess = [] then ''Tables'' else ''Tables_in_'' @ ml_db_name sess) in
      case show_tables_from toks i sess of
        Inl e \<Rightarrow> Inl e
      | Inr j \<Rightarrow>
          (case show_tables_filter toks j (ml_db_name sess) of
             Inl e \<Rightarrow> Inl e
           | Inr (pattern_note, conds) \<Rightarrow>
               let tables = filter (\<lambda>t. table_admitted conds (st_name t) base_table) (ml_schema sess) in
               build_resultset lib ((col @ pattern_note) # (if full then [''Table_type''] else []))
                 (map (\<lambda>t. GStr (st_name t) # (if full then [GStr base_table] else [])) tables)))"

text \<open>The names a \<open>WHERE\<close> of \<open>SHOW VARIABLES\<close> compares \<open>Variable_name\<close> with.\<close>

definition in_list_end :: "token list \<Rightarrow> nat \<Rightarrow> nat" where
  "in_list_end toks k = k + length (takeWhile (\<lambda>t. \<not> tok_is t Tok_op '')'') (drop k toks))"

definition in_list_texts :: "token list \<Rightarrow> nat \<Rightarrow> string list" where
  "in_list_texts toks k =
     map t_text (filter (\<lambda>t. t_kind t = Tok_string) (takeWhile (\<lambda>t. \<not> tok_is t Tok_op '')'') (drop k toks)))"

definition variable_names_at :: "token list \<Rightarrow> nat \<Rightarrow> string list" where
  "variable_names_at toks j =
     (if \<not> equal_fold (t_text (toks ! j)) ''variable_name'' \<or> \<not> is_name_token (toks ! j) then []
      else if tok_is (toks ! (j + 1)) Tok_op ''='' \<and> t_kind (toks ! (j + 2)) = Tok_string
      then [to_lower (t_text (toks ! (j + 2)))]
      else if tok_is (toks ! (j + 1)) Tok_word ''in'' \<and> tok_is (toks ! (j + 2)) Tok_op ''(''
      then map to_lower (in_list_texts toks (j + 3))
      else [])"

definition variable_names_in :: "token list \<Rightarrow> string list" where
  "variable_names_in toks = concat (map (variable_names_at toks) [0..<length toks - 2])"

datatype variable_filter = All_variables | Like_variables string | In_variables "string list"

fun variable_admitted :: "variable_filter \<Rightarrow> string \<Rightarrow> bool" where
  "variable_admitted All_variables name = True"
| "variable_admitted (Like_variables p) name = like_matches p name"
| "variable_admitted (In_variables names) name = (name \<in> set names)"

definition next_variable_filter :: "token list \<Rightarrow> nat \<Rightarrow> variable_filter \<Rightarrow> variable_filter" where
  "next_variable_filter toks i f =
     (if tok_is (toks ! i) Tok_word ''like'' \<and> i + 1 < length toks \<and> t_kind (toks ! (i + 1)) = Tok_string
      then Like_variables (t_text (toks ! (i + 1)))
      else if tok_is (toks ! i) Tok_word ''where'' then
        (let names = variable_names_in (drop (i + 1) toks) in if names \<noteq> [] then In_variables names else f)
      else f)"

definition variable_filter_of :: "token list \<Rightarrow> variable_filter" where
  "variable_filter_of toks = fold (next_variable_filter toks) [0..<length toks] All_variables"

definition handle_show_variables :: "my_lib \<Rightarrow> string \<Rightarrow> bool \<Rightarrow> my_error + my_result" where
  "handle_show_variables lib sql ro =
     (let f = variable_filter_of (show_tokens sql) in
      result_of lib [''Variable_name'', ''Value'']
        (map (\<lambda>(name, v). [GStr name, GStr (go_sprint (variable_value name v ro))])
          (filter (\<lambda>(name, v). variable_admitted f name) session_variables)))"

definition handle_show_status :: "my_lib \<Rightarrow> string \<Rightarrow> my_error + my_result" where
  "handle_show_status lib lower =
     build_resultset lib [''Variable_name'', ''Value'']
       (if contains_str lower ''ssl_version'' then [[GStr ''Ssl_version'', GStr []]] else [])"

section \<open>The information schema\<close>

definition info_schema_columns_star :: "string list" where
  "info_schema_columns_star =
     [''TABLE_CATALOG'', ''TABLE_SCHEMA'', ''TABLE_NAME'', ''COLUMN_NAME'',
      ''ORDINAL_POSITION'', ''COLUMN_DEFAULT'', ''IS_NULLABLE'', ''DATA_TYPE'',
      ''CHARACTER_MAXIMUM_LENGTH'', ''CHARACTER_OCTET_LENGTH'', ''NUMERIC_PRECISION'',
      ''NUMERIC_SCALE'', ''DATETIME_PRECISION'', ''CHARACTER_SET_NAME'', ''COLLATION_NAME'',
      ''COLUMN_TYPE'', ''COLUMN_KEY'', ''EXTRA'', ''PRIVILEGES'', ''COLUMN_COMMENT'',
      ''GENERATION_EXPRESSION'', ''SRS_ID'']"

definition info_schema_statistics_star :: "string list" where
  "info_schema_statistics_star =
     [''TABLE_CATALOG'', ''TABLE_SCHEMA'', ''TABLE_NAME'', ''NON_UNIQUE'', ''INDEX_SCHEMA'',
      ''INDEX_NAME'', ''SEQ_IN_INDEX'', ''COLUMN_NAME'', ''COLLATION'', ''CARDINALITY'',
      ''SUB_PART'', ''PACKED'', ''NULLABLE'', ''INDEX_TYPE'', ''COMMENT'', ''INDEX_COMMENT'',
      ''IS_VISIBLE'', ''EXPRESSION'']"

definition info_schema_column_value ::
    "string \<Rightarrow> string \<Rightarrow> string \<Rightarrow> nat \<Rightarrow> schema_column \<Rightarrow> go_value" where
  "info_schema_column_value field db table ordinal col =
     (if field = ''table_catalog'' then GStr ''def''
      else if field = ''table_schema'' then GStr db
      else if field = ''table_name'' then GStr table
      else if field = ''column_name'' then GStr (sc_name col)
      else if field = ''ordinal_position'' then GInt (int ordinal)
      else if field = ''data_type'' \<or> field = ''column_type'' then
        (if sc_type col = [] then GNull else GStr (sc_type col))
      else if field = ''column_comment'' then GStr (sc_comment col)
      else GNull)"

text \<open>The items of the select list over a catalog table, as pairs of a name and an expression.\<close>

definition expand_item :: "string list \<Rightarrow> string \<Rightarrow> (string \<times> string) list" where
  "expand_item star item =
     (if item = ''*'' \<or> has_suffix item ''.*'' then map (\<lambda>s. (s, s)) star else [named_item item])"

definition select_items :: "string \<Rightarrow> string list \<Rightarrow> (string \<times> string) list" where
  "select_items sql star =
     (let items = concat (map (expand_item star) (list_items sql)) in
      if items = [] then map (\<lambda>s. (s, s)) star else items)"

definition item_names :: "(string \<times> string) list \<Rightarrow> string list" where
  "item_names items = map fst items"

definition eval_item :: "my_lib \<Rightarrow> string \<Rightarrow> (string \<Rightarrow> go_value) \<Rightarrow> go_value" where
  "eval_item lib expr get =
     (case lex_tokens expr of
        [t] \<Rightarrow>
          if is_name_token t then get (to_lower (t_text t))
          else if t_kind t = Tok_string then GStr (t_text t)
          else if t_kind t = Tok_number then
            (case eval_number lib (t_text t) of Some v \<Rightarrow> v | None \<Rightarrow> GNull)
          else GNull
      | [t, u, v] \<Rightarrow>
          if is_name_token t \<and> tok_is u Tok_op ''.'' \<and> is_name_token v then get (to_lower (t_text v))
          else GNull
      | _ \<Rightarrow> GNull)"

text \<open>The index just past a \<open>WHERE\<close> outside parentheses, in the lowered, redacted text.\<close>

function where_from :: "string \<Rightarrow> nat \<Rightarrow> int \<Rightarrow> nat option" where
  "where_from red i depth =
     (if length red \<le> i then None
      else if red ! i = CHR ''('' then where_from red (i + 1) (depth + 1)
      else if red ! i = CHR '')'' then where_from red (i + 1) (depth - 1)
      else if red ! i = CHR ''w'' \<and> depth = 0 \<and> token_at red i ''where'' then Some (i + length ''where'')
      else where_from red (i + 1) depth)"
  by pat_completeness auto
termination
  by (relation "measure (\<lambda>(red, i, depth). length red - i)") auto

declare where_from.simps [simp del]

text \<open>A field with its qualifier, if any: the field and the index after it.\<close>

definition field_at :: "token list \<Rightarrow> nat \<Rightarrow> string \<times> nat" where
  "field_at toks i =
     (if i + 2 < length toks \<and> tok_is (toks ! (i + 1)) Tok_op ''.'' \<and> is_name_token (toks ! (i + 2))
      then (to_lower (t_text (toks ! (i + 2))), i + 3)
      else (to_lower (t_text (toks ! i)), i + 1))"

text \<open>The comparison at an index: its test and the index of its last token.\<close>

definition comparison_at :: "token list \<Rightarrow> nat \<Rightarrow> (text_test \<times> nat) option" where
  "comparison_at toks j =
     (if tok_is (toks ! j) Tok_op ''='' \<and> j + 1 < length toks \<and> t_kind (toks ! (j + 1)) = Tok_string
      then Some (Test_equal (t_text (toks ! (j + 1))), j + 1)
      else if tok_is (toks ! j) Tok_word ''like'' \<and> j + 1 < length toks \<and> t_kind (toks ! (j + 1)) = Tok_string
      then Some (Test_like (t_text (toks ! (j + 1))), j + 1)
      else if tok_is (toks ! j) Tok_word ''in'' \<and> j + 1 < length toks \<and> tok_is (toks ! (j + 1)) Tok_op ''(''
      then Some (Test_in (in_list_texts toks (j + 2)), in_list_end toks (j + 2))
      else None)"

lemma field_at_progress: "i < snd (field_at toks i)"
  by (simp add: field_at_def)

lemma comparison_at_progress: "comparison_at toks j = Some (t, k) \<Longrightarrow> j < k"
  by (auto simp: comparison_at_def in_list_end_def split: if_splits)

text \<open>The conditions from a token on; \<open>None\<close> for a clause with an \<open>OR\<close>, which admits everything.\<close>

function filter_conds :: "string list \<Rightarrow> token list \<Rightarrow> nat \<Rightarrow> (string \<times> text_test) list option" where
  "filter_conds cols toks i =
     (if length toks \<le> i then Some []
      else if tok_is (toks ! i) Tok_word ''or'' then None
      else if \<not> is_name_token (toks ! i) then filter_conds cols toks (i + 1)
      else
        let field = fst (field_at toks i); j = snd (field_at toks i) in
        if length toks \<le> j then Some []
        else if \<not> list_ex (\<lambda>c. equal_fold c field) cols then filter_conds cols toks (i + 1)
        else case comparison_at toks j of
          None \<Rightarrow> filter_conds cols toks (i + 1)
        | Some (test, k) \<Rightarrow> map_option (\<lambda>cs. (field, test) # cs) (filter_conds cols toks (k + 1)))"
  by pat_completeness auto
termination
proof (relation "measure (\<lambda>(cols, toks, i). length toks - i)", goal_cases)
  case (5 cols toks i field j x test k)
  then show ?case
    using field_at_progress [of i toks] comparison_at_progress [of toks j test k] by auto
qed auto

declare filter_conds.simps [simp del]

definition info_schema_conds :: "string \<Rightarrow> string list \<Rightarrow> (string \<times> text_test) list" where
  "info_schema_conds sql cols =
     (case where_from (to_lower (redact MySQL sql)) 0 0 of
        None \<Rightarrow> []
      | Some a \<Rightarrow> (case filter_conds cols (lex_tokens (drop a sql)) 0 of None \<Rightarrow> [] | Some cs \<Rightarrow> cs))"

text \<open>\<open>infoSchemaFilter\<close>: whether a row is admitted; a null satisfies no condition.\<close>

definition info_schema_filter :: "string \<Rightarrow> string list \<Rightarrow> (string \<Rightarrow> go_value) \<Rightarrow> bool" where
  "info_schema_filter sql cols get =
     list_all (\<lambda>(field, t). get field \<noteq> GNull \<and> run_test t (go_sprint (get field))) (info_schema_conds sql cols)"

definition handle_info_schema_columns :: "my_lib \<Rightarrow> string \<Rightarrow> my_session \<Rightarrow> my_error + my_result" where
  "handle_info_schema_columns lib sql sess =
     (let items = select_items sql info_schema_columns_star;
          getters = concat (map (\<lambda>t. map (\<lambda>(i, col) f.
              info_schema_column_value f (ml_db_name sess) (st_name t) (i + 1) col)
            (enumerate 0 (st_columns t))) (ml_schema sess));
          admitted = filter (info_schema_filter sql info_schema_columns_star) getters in
      result_of lib (item_names items) (map (\<lambda>get. map (\<lambda>(n, e). eval_item lib e get) items) admitted))"

definition handle_info_schema_tables :: "my_lib \<Rightarrow> string \<Rightarrow> schema_table list \<Rightarrow> my_error + my_result" where
  "handle_info_schema_tables lib lower tables =
     (if contains_str lower ''data_length'' \<or> contains_str lower ''total_size'' then
        build_resultset lib [''name'', ''comment'', ''data_size'', ''index_size'', ''total_size'']
          (map (\<lambda>t. [GStr (st_name t), GNull, GNull, GNull, GNull]) tables)
      else
        build_resultset lib [''table_name'', ''table_type''] (map (\<lambda>t. [GStr (st_name t), GStr base_table]) tables))"

definition handle_info_schema_table_details :: "my_lib \<Rightarrow> schema_table list \<Rightarrow> my_error + my_result" where
  "handle_info_schema_table_details lib tables =
     build_resultset lib [''charset'', ''collation'', ''engine'', ''name'', ''estimated_row'']
       (map (\<lambda>t. [GStr ''utf8mb4'', GStr ''utf8mb4_general_ci'', GStr ''InnoDB'', GStr (st_name t), GInt (-1)]) tables)"

definition handle_information_schema :: "my_lib \<Rightarrow> string \<Rightarrow> my_session \<Rightarrow> my_error + my_result" where
  "handle_information_schema lib sql sess =
     (let lower = my_normalize sql in
      if contains_str lower ''information_schema.routines'' then
        build_resultset lib [''function_schema'', ''function_name'', ''create_statement'', ''function_type''] []
      else if contains_str lower ''information_schema.tables'' then
        handle_info_schema_tables lib lower (ml_schema sess)
      else if contains_str lower ''information_schema.collation_character_set_applicability'' then
        handle_info_schema_table_details lib (ml_schema sess)
      else if contains_str lower ''information_schema.columns'' then handle_info_schema_columns lib sql sess
      else
        let star = (if contains_str lower ''information_schema.statistics'' then info_schema_statistics_star
                    else [''name'']) in
        result_of lib (item_names (select_items sql star)) [])"

section \<open>The local answer\<close>

definition handle_my_local_query :: "my_lib \<Rightarrow> string \<Rightarrow> my_session \<Rightarrow> my_error + my_result" where
  "handle_my_local_query lib sql sess =
     (let lower = my_normalize sql in
      if has_any_prefix lower session_prefixes then Inr No_result
      else if has_any_prefix lower databases_prefixes then handle_show_databases lib (ml_sources sess)
      else if has_any_prefix lower tables_prefixes then handle_show_tables lib sql sess
      else if has_any_prefix lower variables_prefixes then handle_show_variables lib sql (ml_read_only sess)
      else if has_any_prefix lower status_prefixes then handle_show_status lib lower
      else if contains_str lower ''information_schema.'' then handle_information_schema lib sql sess
      else handle_local_select lib sql sess)"

end
