(* ===== verification/My_Local_Laws.thy ===== *)
theory My_Local_Laws
  imports My_Local
begin

text \<open>
  What the local answers promise: every one of them is a table the library takes, the variables a
  client probes tell it of read-only mode in every form, and a pattern selects the tables it means.
\<close>

section \<open>Every local answer renders\<close>

lemma class_of_simps [simp]:
  "class_of GNull = None" "class_of (GInt i) = Some Integer_class" "class_of (GFloat f) = Some Double_class"
  "class_of (GStr s) = Some Text_class" "class_of (GBytes s) = Some Text_class"
  by (simp_all add: class_of_def)

definition renders :: "my_error + my_result \<Rightarrow> bool" where
  "renders r \<longleftrightarrow> r \<noteq> Inl Build_failed"

lemma renders_simps [simp]:
  "renders (Inr x)" "renders (Inl (My_error c m))" "renders (Inl (Default_error c m))"
  by (simp_all add: renders_def)

lemma renders_uniform:
  "accepts_uniform lib \<Longrightarrow> uniform_table names tab \<Longrightarrow> renders (build_resultset lib names tab)"
  by (simp add: build_resultset_uniform)

lemma uniform_no_rows [simp]: "uniform_table names []"
  by (simp add: uniform_table_def uniform_values_def)

lemma uniform_one_row: "length row = length names \<Longrightarrow> uniform_table names [row]"
  unfolding uniform_table_def uniform_values_def by simp (metis option.exhaust)

lemma uniform_columns:
  assumes "\<And>row. row \<in> set tab \<Longrightarrow> map class_of row = map Some ks"
    and "length ks = length names"
  shows "uniform_table names tab"
proof (rule uniform_table_columns [where k = "\<lambda>j. ks ! j"])
  fix row assume "row \<in> set tab"
  then show "length row = length names" using assms by (metis length_map)
next
  fix j row assume j: "j < length names" and r: "row \<in> set tab"
  then have "map class_of row ! j = map Some ks ! j" using assms(1) by simp
  moreover have "length row = length names" using assms r by (metis length_map)
  ultimately show "class_of (row ! j) = None \<or> class_of (row ! j) = Some (ks ! j)" using j assms(2) by simp
qed

lemma uniform_optional_columns:
  assumes "\<And>row. row \<in> set tab \<Longrightarrow> list_all2 (\<lambda>v k. class_of v = None \<or> class_of v = Some k) row ks"
    and "length ks = length names"
  shows "uniform_table names tab"
  using assms by (intro uniform_table_columns [where k = "\<lambda>j. ks ! j"])
    (auto simp: list_all2_conv_all_nth)

definition field_class :: "string \<Rightarrow> value_class" where
  "field_class field = (if field = ''ordinal_position'' then Integer_class else Text_class)"

lemma info_schema_column_value_class:
  "class_of (info_schema_column_value field db table n col) = None \<or>
   class_of (info_schema_column_value field db table n col) = Some (field_class field)"
  by (simp add: info_schema_column_value_def field_class_def)

definition item_class :: "my_lib \<Rightarrow> string \<Rightarrow> value_class" where
  "item_class lib expr =
     (case lex_tokens expr of
        [t] \<Rightarrow>
          if is_name_token t then field_class (to_lower (t_text t))
          else if t_kind t = Tok_number \<and> parse_int (t_text t) \<noteq> None then Integer_class
          else if t_kind t = Tok_number then Double_class
          else Text_class
      | [t, u, v] \<Rightarrow> field_class (to_lower (t_text v))
      | _ \<Rightarrow> Text_class)"

lemma eval_item_class:
  assumes "\<And>field. class_of (get field) = None \<or> class_of (get field) = Some (field_class field)"
  shows "class_of (eval_item lib expr get) = None \<or> class_of (eval_item lib expr get) = Some (item_class lib expr)"
proof -
  consider (none) "lex_tokens expr = []" | (one) t where "lex_tokens expr = [t]"
    | (two) t u where "lex_tokens expr = [t, u]" | (three) t u v where "lex_tokens expr = [t, u, v]"
    | (more) t u v w ts where "lex_tokens expr = t # u # v # w # ts"
    by (metis list.exhaust)
  then show ?thesis
  proof cases
    case (one t)
    then show ?thesis
      using assms [of "to_lower (t_text t)"]
      by (auto simp: eval_item_def item_class_def eval_number_def is_name_token_def split: option.splits)
  next
    case (three t u v)
    then show ?thesis using assms [of "to_lower (t_text v)"] by (auto simp: eval_item_def item_class_def)
  qed (simp_all add: eval_item_def)
qed

lemma info_schema_columns_render:
  assumes "accepts_uniform lib"
  shows "renders (handle_info_schema_columns lib sql sess)"
  unfolding handle_info_schema_columns_def Let_def result_of_def
proof (rule renders_uniform [OF assms], rule uniform_optional_columns)
  let ?items = "select_items sql info_schema_columns_star"
  let ?getters = "concat (map (\<lambda>t. map (\<lambda>(i, col) f.
      info_schema_column_value f (ml_db_name sess) (st_name t) (i + 1) col)
    (enumerate 0 (st_columns t))) (ml_schema sess))"
  fix row
  assume "row \<in> set (map (\<lambda>get. map (\<lambda>(n, e). eval_item lib e get) ?items)
    (filter (info_schema_filter sql info_schema_columns_star) ?getters))"
  then obtain get where row: "row = map (\<lambda>(n, e). eval_item lib e get) ?items" and "get \<in> set ?getters"
    unfolding set_map set_filter by blast
  then obtain t :: schema_table and i col where
    "get = (\<lambda>f. info_schema_column_value f (ml_db_name sess) (st_name t) (i + 1) col)"
    by auto
  with row have "row = map (\<lambda>(n, e). eval_item lib e
      (\<lambda>f. info_schema_column_value f (ml_db_name sess) (st_name t) (i + 1) col)) ?items" by simp
  then show "list_all2 (\<lambda>v k. class_of v = None \<or> class_of v = Some k) row (map (\<lambda>(n, e). item_class lib e) ?items)"
    using eval_item_class [OF info_schema_column_value_class]
    by (simp add: list_all2_conv_all_nth case_prod_beta)
qed (simp add: item_names_def)

lemma show_tables_renders:
  assumes "accepts_uniform lib"
  shows "renders (handle_show_tables lib sql sess)"
proof -
  have t: "renders (build_resultset lib ((a @ b) # (if full then [c] else []))
      (map (\<lambda>t. GStr (st_name t) # (if full then [GStr base_table] else [])) tables))" for a b c full and tables :: "schema_table list"
    by (rule renders_uniform [OF assms], rule uniform_columns [where ks = "Text_class # (if full then [Text_class] else [])"])
      auto
  have "show_tables_from toks i sess \<noteq> Inl Build_failed" for toks i
    by (simp add: show_tables_from_def show_tables_syntax_error_def Let_def split: option.split)
  then have fr: "renders (Inl e)" if "show_tables_from toks i sess = Inl e" for toks i and e :: my_error
    using that by (metis renders_def sum.inject(1))
  have "show_tables_filter toks i db \<noteq> Inl Build_failed" for toks i db
    by (auto simp: show_tables_filter_def show_tables_where_def show_tables_syntax_error_def where_unsupported_def
        split: option.split sum.split)
  then have filt: "renders (Inl e)" if "show_tables_filter toks i db = Inl e" for toks i db and e :: my_error
    using that by (metis renders_def sum.inject(1))
  have "renders (case show_tables_from toks i sess of Inl e \<Rightarrow> Inl e
      | Inr j \<Rightarrow> (case show_tables_filter toks j db of Inl e \<Rightarrow> Inl e
         | Inr (p, conds) \<Rightarrow> build_resultset lib ((col @ p) # (if full then [''Table_type''] else []))
             (map (\<lambda>t. GStr (st_name t) # (if full then [GStr base_table] else [])) (tables conds))))"
    for toks i db col full and tables :: "(bool \<times> text_test) list \<Rightarrow> schema_table list"
    using fr filt t [of _ _ full] by (cases full) (simp_all split: sum.split prod.split)
  then show ?thesis unfolding handle_show_tables_def Let_def .
qed

lemma local_select_renders: "accepts_uniform lib \<Longrightarrow> renders (handle_local_select lib sql sess)"
  by (auto simp: handle_local_select_def single_result_def Let_def intro!: renders_uniform uniform_one_row)

text \<open>A table made row by row, each with values of the classes \<open>ks\<close>.\<close>

lemma renders_rows:
  assumes "accepts_uniform lib" and "\<And>x. list_all2 (\<lambda>v k. class_of v = None \<or> class_of v = Some k) (f x) ks"
    and "length ks = length names"
  shows "renders (build_resultset lib names (map f xs))"
  by (rule renders_uniform [OF assms(1)], rule uniform_optional_columns [OF _ assms(3)]) (use assms(2) in auto)

lemma fixed_answers_render:
  assumes "accepts_uniform lib"
  shows "renders (handle_show_databases lib srcs)" "renders (handle_show_variables lib sql ro)"
    "renders (handle_show_status lib lower)" "renders (handle_info_schema_tables lib lower tables)"
    "renders (handle_info_schema_table_details lib tables)"
proof -
  note rows = renders_rows [OF assms]
  note none_rows = renders_uniform [OF assms uniform_no_rows]
  show "renders (handle_show_databases lib srcs)"
    unfolding handle_show_databases_def by (rule rows [where ks = "[Text_class]"]) simp_all
  show "renders (handle_show_variables lib sql ro)"
    unfolding handle_show_variables_def result_of_def Let_def
    by (rule rows [where ks = "[Text_class, Text_class]"]) (simp_all add: case_prod_unfold)
  show "renders (handle_show_status lib lower)"
    unfolding handle_show_status_def
    by (simp add: none_rows renders_uniform [OF assms uniform_one_row])
  show "renders (handle_info_schema_tables lib lower tables)"
    unfolding handle_info_schema_tables_def
    by (simp add: rows [where ks = "[Text_class, Text_class]"] rows [where ks = "replicate 5 Text_class"] numeral_eq_Suc)
  show "renders (handle_info_schema_table_details lib tables)"
    unfolding handle_info_schema_table_details_def
    by (rule rows [where ks = "replicate 4 Text_class @ [Integer_class]"]) (simp_all add: numeral_eq_Suc)
qed

lemma information_schema_renders:
  assumes "accepts_uniform lib"
  shows "renders (handle_information_schema lib sql sess)"
  unfolding handle_information_schema_def result_of_def Let_def
  using fixed_answers_render(4,5) [OF assms] info_schema_columns_render [OF assms] renders_uniform [OF assms]
  by simp

lemma local_query_renders:
  assumes "accepts_uniform lib"
  shows "renders (handle_my_local_query lib sql sess)"
  unfolding handle_my_local_query_def Let_def
  using fixed_answers_render [OF assms] show_tables_renders [OF assms] information_schema_renders [OF assms]
    local_select_renders [OF assms]
  by simp

text \<open>
  Property C16: Every statement answered locally renders: whatever the select list, the conditions and
  the schema, the answer is a result, or a refusal with its reason, and never a failure to build the
  table, since each column gets values of one class and each row a value per column.
\<close>

theorem local_answers_render:
  assumes "accepts_uniform lib"
  shows "handle_my_local_query lib sql sess \<noteq> Inl Build_failed"
  using local_query_renders [OF assms] by (simp add: renders_def)

lemma local_answers_render_witness:
  "handle_my_local_query \<lparr>lib_float = \<lambda>s. None, lib_build = uniform_table\<rparr> ''SELECT @@version, 1''
     \<lparr>ml_db_name = [], ml_conn_id = 1, ml_sources = [], ml_schema = [], ml_read_only = True\<rparr> \<noteq> Inl Build_failed"
  by (rule local_answers_render) (simp add: accepts_uniform_def)

section \<open>The variables\<close>

definition variable_scopes :: "string list" where
  "variable_scopes = [''session.'', ''local.'', ''global.'']"

lemma variable_names_plain:
  "list_all (\<lambda>n. to_lower n = n \<and> list_all (\<lambda>p. trim_prefix p n = n) variable_scopes)
     (map fst session_variables)"
  by (simp add: session_variables_def variable_scopes_def to_lower_def lower_byte_def byte_def trim_prefix_def)

lemma variable_names_distinct: "distinct (map fst session_variables)"
  by (simp add: session_variables_def)

lemma trim_scopes:
  assumes "list_all (\<lambda>p. trim_prefix p n = n) variable_scopes" and "scope \<in> {[], ''session.'', ''local.'', ''global.''}"
  shows "fold trim_prefix [''session.'', ''local.'', ''global.''] (scope @ n) = n"
  using assms by (auto simp: variable_scopes_def trim_prefix_def [of _ "_ # _"])

lemma lookup_session_variable:
  assumes "(name, v) \<in> set session_variables" and "scope \<in> {[], ''session.'', ''local.'', ''global.''}"
    and "to_lower ref = ''@@'' @ scope @ name"
  shows "lookup_variable ref ro = variable_value name v ro"
proof -
  have "list_all (\<lambda>p. trim_prefix p name = name) variable_scopes"
    using variable_names_plain assms(1) by (auto simp: list_all_iff)
  moreover have "map_of session_variables name = Some v"
    using assms(1) variable_names_distinct by simp
  ultimately show ?thesis
    using trim_scopes [OF _ assms(2)] by (simp add: lookup_variable_def assms(3))
qed

lemma read_only_variables_stock: "name \<in> set read_only_variables \<Longrightarrow> (name, GInt 0) \<in> set session_variables"
  by (auto simp: read_only_variables_def session_variables_def)

lemma variable_name_lower: "(name, v) \<in> set session_variables \<Longrightarrow> to_lower name = name \<and> name \<noteq> []"
  using variable_names_plain by (auto simp: list_all_iff session_variables_def)

text \<open>
  Read-only mode is told the same way everywhere: each of the four variables that mean it
  is 1 exactly in that mode, in any scope and any case; and every row of \<open>SHOW VARIABLES\<close>, whatever
  its filter, has the value \<open>SELECT @@name\<close> gives.
\<close>

theorem read_only_told_everywhere:
  "(\<forall>name \<in> set read_only_variables. \<forall>scope \<in> {[], ''session.'', ''local.'', ''global.''}. \<forall>ref.
      to_lower ref = ''@@'' @ scope @ name \<longrightarrow> lookup_variable ref ro = GInt (if ro then 1 else 0)) \<and>
   (\<forall>names tab. handle_show_variables lib sql ro = Inr (Result_set names tab) \<longrightarrow>
      (\<forall>row \<in> set tab. \<exists>name. row = [GStr name, as_bytes (GStr (go_sprint (lookup_variable (''@@'' @ name) ro)))]))"
proof (intro conjI ballI allI impI)
  fix name scope ref
  assume "name \<in> set read_only_variables" "scope \<in> {[], ''session.'', ''local.'', ''global.''}"
    and ref: "to_lower ref = ''@@'' @ scope @ name"
  then show "lookup_variable ref ro = GInt (if ro then 1 else 0)"
    using lookup_session_variable [OF read_only_variables_stock, of name scope ref ro]
    by (simp add: variable_value_def)
next
  fix names tab row
  assume "handle_show_variables lib sql ro = Inr (Result_set names tab)" and "row \<in> set tab"
  then obtain name v where nv: "(name, v) \<in> set session_variables"
      "row = map as_bytes [GStr name, GStr (go_sprint (variable_value name v ro))]"
    by (auto simp: handle_show_variables_def result_of_def build_resultset_def Let_def split: if_splits)
  moreover have "to_lower (''@@'' @ name) = ''@@'' @ [] @ name"
    using variable_name_lower [OF nv(1)] by (simp add: to_lower_def lower_byte_def byte_def)
  ultimately show "\<exists>name. row = [GStr name, as_bytes (GStr (go_sprint (lookup_variable (''@@'' @ name) ro)))]"
    using lookup_session_variable [OF nv(1), of "[]" "''@@'' @ name" ro] variable_name_lower [OF nv(1)]
    by (auto simp: as_bytes_def)
qed

lemma read_only_told_everywhere_witness:
  "lookup_variable ''@@GLOBAL.Read_Only'' True = GInt 1"
proof -
  have "''read_only'' \<in> set read_only_variables" by (simp add: read_only_variables_def)
  moreover have "''global.'' \<in> {[], ''session.'', ''local.'', ''global.''}" by simp
  moreover have "to_lower ''@@GLOBAL.Read_Only'' = ''@@'' @ ''global.'' @ ''read_only''" by code_simp
  ultimately have "lookup_variable ''@@GLOBAL.Read_Only'' True = GInt (if True then 1 else 0)"
    using read_only_told_everywhere [of True undefined undefined] by blast
  then show ?thesis by simp
qed

section \<open>Showing the tables of a pattern\<close>

lemma trim_right_id: "s \<noteq> [] \<Longrightarrow> \<not> p (last s) \<Longrightarrow> trim_right p s = s"
  by (simp add: trim_right_def hd_rev dropWhile_eq_self_iff [THEN iffD2])

lemma trim_space_id: "s \<noteq> [] \<Longrightarrow> \<not> is_space (hd s) \<Longrightarrow> \<not> is_space (last s) \<Longrightarrow> trim_space s = s"
  by (simp add: trim_space_def trim_left_def trim_right_id dropWhile_eq_self_iff [THEN iffD2])

definition like_statement :: "char \<Rightarrow> string \<Rightarrow> string" where
  "like_statement q p = ''SHOW TABLES LIKE '' @ string_literal q p"

lemma like_statement_tokens:
  assumes "q = CHR 0x27 \<or> q = CHR 0x22"
  shows "show_tokens (like_statement q p) =
    [\<lparr>t_kind = Tok_word, t_text = ''show'', t_orig = ''SHOW'', t_pos = 0\<rparr>,
     \<lparr>t_kind = Tok_word, t_text = ''tables'', t_orig = ''TABLES'', t_pos = 5\<rparr>,
     \<lparr>t_kind = Tok_word, t_text = ''like'', t_orig = ''LIKE'', t_pos = 12\<rparr>,
     \<lparr>t_kind = Tok_string, t_text = p, t_orig = string_literal q p, t_pos = 17\<rparr>]"
proof -
  let ?s = "like_statement q p"
  have l: "last ?s = q" "?s \<noteq> []" "hd ?s = CHR ''S''" by (simp_all add: like_statement_def string_literal_def)
  then have "trim_space ?s = ?s" "trim_right (\<lambda>c. c = CHR '';'') ?s = ?s"
    using assms by (auto intro!: trim_space_id trim_right_id simp: is_space_def blank4_def)
  then have t: "show_tokens ?s = lex_from ?s 0" by (simp add: show_tokens_def lex_tokens_def)
  have 17: "lex_from ?s 17 = [\<lparr>t_kind = Tok_string, t_text = p, t_orig = string_literal q p, t_pos = 17\<rparr>]"
    using lex_from_literal [of 17 ?s q p "[]", OF _ assms] lex_from_end [of ?s "17 + length (string_literal q p)"]
    by (simp add: like_statement_def)
  have word: "lex_from ?s j = \<lparr>t_kind = Tok_word, t_text = to_lower w, t_orig = w, t_pos = j\<rparr> # lex_from ?s (j + length w + 1)"
    if "drop j ?s = w @ CHR '' '' # r" "w \<noteq> []" "list_all my_ident_byte w" "\<not> is_digit (hd w)" for j w r
  proof -
    have "drop (j + length w) ?s = CHR '' '' # r" using that(1) by (metis add.commute append_eq_conv_conj drop_drop)
    from lex_from_blank [OF this] lex_from_word [OF that] show ?thesis
      by (simp add: my_ident_byte_def is_alpha_def is_digit_def byte_def blank4_def)
  qed
  have idents: "list_all my_ident_byte ''SHOW''" "list_all my_ident_byte ''TABLES''" "list_all my_ident_byte ''LIKE''"
    by (simp_all add: my_ident_byte_def is_alpha_def is_digit_def byte_def)
  have low: "to_lower ''SHOW'' = ''show''" "to_lower ''TABLES'' = ''tables''" "to_lower ''LIKE'' = ''like''"
    by code_simp+
  have d: "drop 0 ?s = ''SHOW'' @ CHR '' '' # drop 5 ?s" "drop 5 ?s = ''TABLES'' @ CHR '' '' # drop 12 ?s"
      "drop 12 ?s = ''LIKE'' @ CHR '' '' # drop 17 ?s"
    by (simp_all add: like_statement_def)
  show ?thesis
    unfolding t using word [OF d(1)] word [OF d(2)] word [OF d(3)] idents low 17
    by (simp add: is_digit_def byte_def eval_nat_numeral)
qed

text \<open>
  \<open>SHOW TABLES LIKE\<close> lists exactly the tables of the cached schema whose names the pattern
  accepts, in their order, whatever bytes the pattern holds and in whichever quotes it is written,
  under a column named for the database and the pattern.
\<close>

theorem show_tables_like:
  assumes "q = CHR 0x27 \<or> q = CHR 0x22" and "accepts_uniform lib"
  shows "handle_show_tables lib (like_statement q p) sess =
    Inr (Result_set
      [(if ml_db_name sess = [] then ''Tables'' else ''Tables_in_'' @ ml_db_name sess) @ '' ('' @ p @ '')'']
      (map (\<lambda>t. [as_bytes (GStr (st_name t))]) (filter (\<lambda>t. like p (st_name t)) (ml_schema sess))))"
proof -
  let ?rows = "map (\<lambda>t. [GStr (st_name t)]) (filter (\<lambda>t. like p (st_name t)) (ml_schema sess))"
  have u: "uniform_table [c] ?rows" for c
    by (rule uniform_columns [where ks = "[Text_class]"]) auto
  show ?thesis
    unfolding handle_show_tables_def Let_def like_statement_tokens [OF assms(1)]
    using build_resultset_uniform [OF assms(2) u]
    by (simp add: tok_is_def show_tables_from_def show_tables_filter_def table_admitted_def
        like_matches_def items_match_like comp_def)
qed

lemma show_tables_like_witness:
  "handle_show_tables \<lparr>lib_float = \<lambda>s. None, lib_build = uniform_table\<rparr> (like_statement (CHR 0x27) ''u%'')
     \<lparr>ml_db_name = ''d'', ml_conn_id = 1, ml_sources = [],
      ml_schema = [\<lparr>st_name = ''Users'', st_columns = []\<rparr>], ml_read_only = False\<rparr> =
   Inr (Result_set [''Tables_in_d (u%)''] [[GStr ''Users'']])"
proof -
  have "items_match (like_items False ''u%'') ''Users''" by code_simp
  then have "like ''u%'' ''Users''" by (simp only: items_match_like)
  then show ?thesis
    using show_tables_like [of "CHR 0x27" "\<lparr>lib_float = \<lambda>s. None, lib_build = uniform_table\<rparr>" "''u%''"]
    by (simp add: accepts_uniform_def as_bytes_def)
qed

end
