(* ===== verification/My_Strip.thy ===== *)
theory My_Strip
  imports My_Lex
begin

text \<open>
  \<open>stripDBQualifier\<close> of \<open>internal/mysqlwire/handler.go\<close>: the qualifier of the current database is taken
  off table references before a statement goes to Redash. Keywords are found in the lowered, redacted
  text, names are read from the original; both share positions. The laws say that the function only
  deletes, that it leaves a statement without the name alone, and what it does to a plain reference.
\<close>

section \<open>Definitions\<close>

definition table_ref_keywords :: "string list" where
  "table_ref_keywords =
     [''from'', ''join'', ''into'', ''table'', ''update'', ''describe'', ''desc'', ''explain'', ''in'']"

text \<open>Which of the keywords counts at a position of the statement.\<close>

definition keyword_counts :: "nat \<Rightarrow> nat \<Rightarrow> bool \<Rightarrow> string \<Rightarrow> bool" where
  "keyword_counts i first is_show kw =
     (if kw \<in> {''update'', ''describe'', ''desc'', ''explain''} then i = first
      else if kw = ''in'' then is_show else True)"

definition table_ref_keyword_at :: "string \<Rightarrow> nat \<Rightarrow> nat \<Rightarrow> bool \<Rightarrow> string" where
  "table_ref_keyword_at red i first is_show =
     (case find (\<lambda>kw. token_at red i kw \<and> keyword_counts i first is_show kw) table_ref_keywords of
        Some kw \<Rightarrow> kw | None \<Rightarrow> [])"

text \<open>The name at an index and the index past it.\<close>

definition identifier_at :: "string \<Rightarrow> nat \<Rightarrow> string \<times> nat" where
  "identifier_at s i =
     (if length s \<le> i then ([], i)
      else if s ! i = CHR 0x60 \<or> s ! i = CHR 0x22 then
        (case index_byte (drop (i + 1) s) (s ! i) of
           Some close \<Rightarrow> (substr s (i + 1) (i + 1 + close), i + 1 + close + 1)
         | None \<Rightarrow> ([], i))
      else (substr s i (run_end s my_ident_byte i), run_end s my_ident_byte i))"

fun names_table_first :: "string list \<Rightarrow> bool" where
  "names_table_first [] = False"
| "names_table_first (w # ws) =
     (if w \<in> {''full'', ''extended''} then names_table_first ws
      else w \<in> {''columns'', ''fields'', ''index'', ''indexes'', ''keys''})"

definition show_names_table_first :: "string \<Rightarrow> nat \<Rightarrow> bool" where
  "show_names_table_first red i = names_table_first (text_fields (drop i red))"

text \<open>The end of the output before a dropped \<open>FROM db\<close>: back over the blanks, not past \<open>copied\<close>.\<close>

fun cut_back :: "string \<Rightarrow> nat \<Rightarrow> nat \<Rightarrow> nat" where
  "cut_back s copied 0 = 0"
| "cut_back s copied (Suc k) =
     (if copied < Suc k \<and> blank4 (s ! k) then cut_back s copied k else Suc k)"

lemma cut_back_le: "cut_back s copied k \<le> k"
  by (induction s copied k rule: cut_back.induct) auto

lemma cut_back_bounds: "copied \<le> k \<Longrightarrow> copied \<le> cut_back s copied k"
  by (induction s copied k rule: cut_back.induct) auto

lemma identifier_at_bounds: "i \<le> length s \<Longrightarrow> i \<le> snd (identifier_at s i) \<and> snd (identifier_at s i) \<le> length s"
  using run_end_bounds [of i s my_ident_byte]
  by (auto simp: identifier_at_def dest!: index_byte_SomeD split: option.splits)

lemma identifier_at_ge: "i \<le> snd (identifier_at s i)"
  using identifier_at_bounds [of i s] by (cases "i \<le> length s") (auto simp: identifier_at_def)

lemma skip_blanks_ge: "i \<le> skip_blanks s i"
proof (induction s i rule: skip_blanks.induct)
  case (1 s i)
  then show ?case by (auto simp: skip_blanks.simps [of s i])
qed

text \<open>
  One turn of the loop at \<open>i\<close>, when \<open>seen\<close> of the keywords \<open>FROM\<close> and \<open>IN\<close> are behind it and the text
  has been copied up to \<open>copied\<close>: what it writes, and the three of them after it.
\<close>

definition strip_turn ::
  "string \<Rightarrow> string \<Rightarrow> string \<Rightarrow> nat \<Rightarrow> bool \<Rightarrow> bool \<Rightarrow> nat \<times> nat \<times> nat \<Rightarrow> string \<times> nat \<times> nat \<times> nat" where
  "strip_turn db q red first is_show table_first st =
     (let (i, seen, copied) = st; kw = table_ref_keyword_at red i first is_show in
      if kw = [] then ([], i + 1, seen, copied)
      else
        let is_from = (kw = ''from'' \<or> kw = ''in'');
            seen' = (if is_from then seen + 1 else seen);
            names_db = (is_from \<and> is_show \<and> (\<not> table_first \<or> seen' \<noteq> 1));
            start = skip_blanks q (i + length kw);
            name = fst (identifier_at q start);
            stop = snd (identifier_at q start) in
        if \<not> equal_fold name db then ([], i + length kw, seen', copied)
        else if stop < length q \<and> q ! stop = CHR ''.'' then
          (substr q copied start, stop + 1, seen', stop + 1)
        else if names_db then (substr q copied (cut_back q copied i), stop, seen', stop)
        else ([], i + length kw, seen', copied))"

lemma strip_turn_shape:
  assumes "strip_turn db q red first is_show table_first (i, seen, copied) = (w, i', seen', copied')"
  shows "i < i' \<and> (w = [] \<and> copied' = copied \<or>
    (\<exists>k. w = substr q copied k \<and> (copied \<le> i \<longrightarrow> copied \<le> k) \<and> k \<le> copied' \<and> copied' = i' \<and> i \<le> copied'))"
proof -
  let ?kw = "table_ref_keyword_at red i first is_show"
  let ?start = "skip_blanks q (i + length ?kw)"
  have "i + length ?kw \<le> ?start" "?start \<le> snd (identifier_at q ?start)"
    by (rule skip_blanks_ge, rule identifier_at_ge)
  then show ?thesis
    using assms cut_back_bounds [of copied i q] cut_back_le [of q copied i]
    by (auto simp: strip_turn_def Let_def split: if_splits)
qed

function strip_from :: "string \<Rightarrow> string \<Rightarrow> string \<Rightarrow> nat \<Rightarrow> bool \<Rightarrow> bool \<Rightarrow> nat \<times> nat \<times> nat \<Rightarrow> string" where
  "strip_from db q red first is_show table_first (i, seen, copied) =
     (if length red \<le> i then drop copied q
      else
        let (w, st') = strip_turn db q red first is_show table_first (i, seen, copied) in
        w @ strip_from db q red first is_show table_first st')"
  by pat_completeness auto
termination
proof (relation "measure (\<lambda>(db, q, red, first, is_show, table_first, i, seen, copied). length red - i)", goal_cases)
  case (2 db q red first is_show table_first i seen copied p w st')
  obtain i' seen' copied' where st': "st' = (i', seen', copied')" by (cases st')
  from 2 have "strip_turn db q red first is_show table_first (i, seen, copied) = (w, i', seen', copied')"
    by (simp add: st')
  from strip_turn_shape [OF this] 2 show ?case by (auto simp: st')
qed simp

declare strip_from.simps [simp del]

definition strip_db_qualifier :: "string \<Rightarrow> string \<Rightarrow> string" where
  "strip_db_qualifier db q =
     (if db = [] then q
      else
        let red = to_lower (redact MySQL q);
            first = length red - length (trim_left blank4 red);
            is_show = token_at red first ''show'';
            table_first = (is_show \<and> show_names_table_first red (first + length ''show'')) in
        strip_from db q red first is_show table_first (0, 0, 0))"


section \<open>Only deletions\<close>

lemma substr_drop: "a \<le> b \<Longrightarrow> drop a s = substr s a b @ drop b s"
proof -
  assume "a \<le> b"
  then have "drop b s = drop (b - a) (drop a s)" by simp
  then show ?thesis by (simp only: substr_def append_take_drop_id)
qed

lemma subseq_skip: "a \<le> b \<Longrightarrow> subseq xs (drop b s) \<Longrightarrow> subseq xs (drop a s)"
  by (metis substr_drop subseq_drop_many)

lemma subseq_kept: "a \<le> b \<Longrightarrow> b \<le> c \<Longrightarrow> subseq xs (drop c s) \<Longrightarrow> subseq (substr s a b @ xs) (drop a s)"
  by (metis substr_drop subseq_skip list_emb_append_mono subseq_order.order_refl)

lemma strip_from_subseq:
  "copied \<le> i \<Longrightarrow> subseq (strip_from db q red first is_show table_first (i, seen, copied)) (drop copied q)"
proof (induction db q red first is_show table_first "(i, seen, copied)" arbitrary: i seen copied rule: strip_from.induct)
  case (1 db q red first is_show table_first i seen copied)
  obtain w i' seen' copied' where turn:
    "strip_turn db q red first is_show table_first (i, seen, copied) = (w, i', seen', copied')"
    by (metis prod.exhaust)
  note shape = strip_turn_shape [OF turn]
  show ?case
  proof (cases "length red \<le> i")
    case False
    from shape "1.prems" have "copied' \<le> i'" by auto
    with "1.hyps" [OF False turn [symmetric] refl]
    have "subseq (strip_from db q red first is_show table_first (i', seen', copied')) (drop copied' q)" by simp
    then show ?thesis
      using False turn shape "1.prems" by (auto simp: strip_from.simps [of _ _ _ _ _ _ i] intro: subseq_kept)
  qed (simp add: strip_from.simps)
qed

lemma strip_db_qualifier_subseq: "subseq (strip_db_qualifier db q) q"
  using strip_from_subseq [of 0 0 db q] by (simp add: strip_db_qualifier_def Let_def)

section \<open>Other names\<close>

lemma substr_piece: "\<exists>x z. s = x @ substr s a b @ z"
  by (metis append_take_drop_id substr_def)

lemma identifier_at_piece: "\<exists>x z. s = x @ fst (identifier_at s i) @ z"
  using substr_piece [of s] by (force simp: identifier_at_def split: option.splits)

lemma identifier_contained: "equal_fold (fst (identifier_at q i)) db \<Longrightarrow> contains_str (to_lower q) (to_lower db)"
  using identifier_at_piece [of q i]
  by (metis contains_str_iff equal_fold_def map_append to_lower_def)

lemma strip_from_unchanged:
  assumes "\<not> contains_str (to_lower q) (to_lower db)"
  shows "strip_from db q red first is_show table_first (i, seen, copied) = drop copied q"
  using assms
proof (induction db q red first is_show table_first "(i, seen, copied)" arbitrary: i seen copied
    rule: strip_from.induct)
  case (1 db q red first is_show table_first i seen copied)
  have "\<not> equal_fold (fst (identifier_at q j)) db" for j
    using identifier_contained "1.prems" by blast
  then have "\<exists>i' seen'. strip_turn db q red first is_show table_first (i, seen, copied) = ([], i', seen', copied)"
    by (simp add: strip_turn_def Let_def)
  then obtain i' seen' where turn:
    "strip_turn db q red first is_show table_first (i, seen, copied) = ([], i', seen', copied)" by blast
  from "1.hyps" [OF _ turn [symmetric] refl] "1.prems" show ?case
    by (auto simp: strip_from.simps [of _ _ _ _ _ _ i] turn)
qed

text \<open>
  Taking the database's qualifier off only deletes: what is sent to Redash is what is left of the
  statement after some of its bytes are dropped, in their order, so nothing is ever added to a client's
  statement; and a statement in which the database's name does not occur, in any case, is sent as it is,
  as is every statement of a session without a database.
\<close>

theorem strip_only_deletes:
  "subseq (strip_db_qualifier db q) q \<and> strip_db_qualifier [] q = q \<and>
   (\<not> contains_str (to_lower q) (to_lower db) \<longrightarrow> strip_db_qualifier db q = q)"
  using strip_db_qualifier_subseq strip_from_unchanged [of q db]
  by (auto simp: strip_db_qualifier_def Let_def)

lemma sample_strip:
  "strip_db_qualifier ''shop'' ''SELECT a FROM Shop.users JOIN `shop`.t'' = ''SELECT a FROM users JOIN t''"
  "strip_db_qualifier ''shop'' ''SHOW COLUMNS FROM users FROM shop'' = ''SHOW COLUMNS FROM users''"
  "strip_db_qualifier ''orders'' ''SELECT orders.id FROM orders'' = ''SELECT orders.id FROM orders''"
  by code_simp+

theorem strip_only_deletes_witness:
  "strip_db_qualifier ''shop'' ''SELECT id FROM stock.users'' = ''SELECT id FROM stock.users''"
proof -
  have "\<not> contains_str (to_lower ''SELECT id FROM stock.users'') (to_lower ''shop'')" by code_simp
  then show ?thesis using strip_only_deletes [of "''shop''" "''SELECT id FROM stock.users''"] by blast
qed

end
