(* ===== verification/My_Handler.thy ===== *)
theory My_Handler
  imports My_Local_Laws My_Strip Write_Verb Redash_Api Health_Checker
begin

text \<open>
  \<open>internal/mysqlwire/handler.go\<close> and \<open>auth.go\<close>: one MySQL session, from the credential its password is
  checked against to the answer to each command. The gate and the registry belong to the server and
  change between commands. A query is handled in two steps, as \<open>HandleQuery\<close> is around its call to
  Redash: \<open>dispatch\<close> answers or decides what to do, \<open>finish_query\<close> answers for what Redash said; between
  them other sessions run, and a \<open>KILL\<close> of theirs can arrive.
\<close>

section \<open>The session\<close>

record my_handler =
  h_gate :: gate
  h_registry :: swappable_registry
  h_read_only :: bool
  h_ds_id :: int
  h_db_name :: string
  h_authenticated :: bool
  h_pending_db :: string
  h_conn_id :: "32 word"
  h_cache :: "schema_table list schema_cache"

definition new_my_handler :: "gate \<Rightarrow> swappable_registry \<Rightarrow> bool \<Rightarrow> my_handler" where
  "new_my_handler g sources_at ro =
     \<lparr>h_gate = g, h_registry = sources_at, h_read_only = ro, h_ds_id = 0, h_db_name = [],
      h_authenticated = False, h_pending_db = [], h_conn_id = 0, h_cache = new_schema_cache\<rparr>"

definition read_only_message :: string where
  "read_only_message = ''The MySQL server is running with the --read-only option so it cannot execute this statement (redash-wire is in read-only mode for this profile; only reads reach Redash. Set read_only: false in the config to allow writes.)''"

definition gate_closed_error :: "my_handler \<Rightarrow> my_error" where
  "gate_closed_error h = My_error ER_UNKNOWN_ERROR (client_message (h_gate h))"

section \<open>Choosing a database\<close>

text \<open>\<open>UseDB\<close>: \<open>None\<close> is success, which before authentication says nothing.\<close>

definition use_db :: "string \<Rightarrow> my_handler \<Rightarrow> my_error option \<times> my_handler" where
  "use_db name h =
     (if \<not> h_authenticated h then (None, h\<lparr>h_pending_db := name\<rparr>)
      else if \<not> gate_up (h_gate h) then (Some (gate_closed_error h), h)
      else case swappable_lookup (h_registry h) name of
        None \<Rightarrow> (Some (My_error ER_BAD_DB_ERROR (''Unknown database '' @ [CHR 0x27] @ name @ [CHR 0x27])), h)
      | Some ds \<Rightarrow>
          if \<not> is_mysql_compatible (ds_type ds) then
            (Some (My_error ER_BAD_DB_ERROR
               (''database '' @ [CHR 0x27] @ name @ [CHR 0x27] @ '' is not a MySQL-compatible data source'')), h)
          else (None, h\<lparr>h_ds_id := ds_id ds, h_db_name := ds_name ds, h_cache := cache_reset (h_cache h)\<rparr>))"

definition login :: "32 word \<Rightarrow> my_handler \<Rightarrow> my_error option \<times> my_handler" where
  "login conn h =
     (let h1 = h\<lparr>h_authenticated := True, h_conn_id := conn\<rparr> in
      if \<not> gate_up (h_gate h1) then (Some (gate_closed_error h1), h1)
      else if h_pending_db h1 = [] then (None, h1)
      else use_db (h_pending_db h1) (h1\<lparr>h_pending_db := []\<rparr>))"

text \<open>
  \<open>GetCredential\<close>, which knows every user, and the handshake around it as go-mysql runs it: the
  database named in it is given to \<open>UseDB\<close> first, then the client's scramble is checked against the
  password, and \<open>login\<close> runs only if it fits. The check is the library's.
\<close>

definition get_credential :: "string \<Rightarrow> string \<Rightarrow> string \<Rightarrow> string \<Rightarrow> string" where
  "get_credential user pass decoy asked = (if asked = user then pass else decoy)"

datatype handshake_result = Access_denied | Refused my_error | Admitted

definition my_handshake ::
  "(string \<Rightarrow> string \<Rightarrow> bool) \<Rightarrow> string \<Rightarrow> string \<Rightarrow> string \<Rightarrow> 32 word \<Rightarrow> string \<Rightarrow> string \<Rightarrow> string \<Rightarrow>
   my_handler \<Rightarrow> handshake_result \<times> my_handler" where
  "my_handshake fits user pass decoy conn asked db scramble h =
     (let h1 = (if db = [] then h else snd (use_db db h)) in
      if \<not> fits (get_credential user pass decoy asked) scramble then (Access_denied, h1)
      else case login conn h1 of
        (None, h2) \<Rightarrow> (Admitted, h2)
      | (Some e, h2) \<Rightarrow> (Refused e, h2))"

section \<open>Statements that are not sent\<close>

definition trim_suffix :: "string \<Rightarrow> string \<Rightarrow> string" where
  "trim_suffix p s = (if has_suffix s p then take (length s - length p) s else s)"

text \<open>\<open>parseKill\<close>: \<open>None\<close> for a statement that is no \<open>KILL\<close>.\<close>

definition parse_uint32 :: "string \<Rightarrow> 32 word option" where
  "parse_uint32 s =
     (if s = [] then None
      else case digits_value 0 s of
        None \<Rightarrow> None
      | Some n \<Rightarrow> if n < 2 ^ 32 then Some (word_of_int n) else None)"

definition kill_syntax :: "string \<Rightarrow> my_error" where
  "kill_syntax msg = My_error ER_PARSE_ERROR (''You have an error in your SQL syntax; '' @ msg)"

definition parse_kill :: "string \<Rightarrow> (my_error + 32 word \<times> bool) option" where
  "parse_kill query =
     (case text_fields (trim_suffix '';'' (my_normalize query)) of
        [] \<Rightarrow> None
      | w # args \<Rightarrow>
          if w \<noteq> ''kill'' then None
          else
            let named = (args \<noteq> [] \<and> (hd args = ''query'' \<or> hd args = ''connection''));
                query_only = (named \<and> hd args = ''query'');
                ids = (if named then tl args else args) in
            (case ids of
               [x] \<Rightarrow>
                 (case parse_uint32 x of
                    Some n \<Rightarrow> Some (Inr (n, query_only))
                  | None \<Rightarrow> Some (Inl (kill_syntax
                      (''KILL expects a connection id, got '' @ [CHR 0x27] @ x @ [CHR 0x27]))))
             | _ \<Rightarrow> Some (Inl (kill_syntax ''expected KILL [CONNECTION | QUERY] <id>''))))"

definition handler_schema :: "redash_api \<Rightarrow> my_handler \<Rightarrow> schema_table list \<times> api_call list \<times> my_handler" where
  "handler_schema api h =
     (if h_ds_id h = 0 then ([], [], h)
      else if \<not> gate_up (h_gate h) then ([], [], h)
      else
        case cache_get (\<lambda>calls. (api_schema api (h_ds_id h), calls @ [Get_schema (h_ds_id h)])) (h_cache h, []) of
          (Inl err, c, calls) \<Rightarrow> ([], calls, h\<lparr>h_cache := c\<rparr>)
        | (Inr tables, c, calls) \<Rightarrow> (tables, calls, h\<lparr>h_cache := c\<rparr>))"

definition my_view :: "my_handler \<Rightarrow> schema_table list \<Rightarrow> my_session" where
  "my_view h tables =
     \<lparr>ml_db_name = h_db_name h, ml_conn_id = h_conn_id h,
      ml_sources = filter_by_type (swappable_all (h_registry h)) is_mysql_compatible,
      ml_schema = tables, ml_read_only = h_read_only h\<rparr>"

definition use_argument :: "string \<Rightarrow> string" where
  "use_argument query =
     (let cut = (\<lambda>c. c \<in> {CHR 0x60, CHR '';'', CHR 0x22, CHR 0x27}) in
      trim_right cut (trim_left cut (trim_space (drop 4 query))))"

section \<open>Queries\<close>

text \<open>What a query comes to: an answer, a \<open>KILL\<close> of a session, or a statement for Redash.\<close>

datatype my_action =
    Reply "my_error + my_result"
  | Kill_session "32 word" bool
  | Send_query string

definition dispatch ::
  "my_lib \<Rightarrow> redash_api \<Rightarrow> string \<Rightarrow> my_handler \<Rightarrow> my_action \<times> api_call list \<times> my_handler" where
  "dispatch lib api query0 h =
     (let query = trim_space query0 in
      if query = [] then (Reply (Inr No_result), [], h)
      else if is_multi_statement MySQL query then
        (Reply (Inl (My_error ER_UNKNOWN_ERROR ''multi-statement queries are not supported; send one statement per request'')), [], h)
      else case parse_kill query of
        Some (Inl e) \<Rightarrow> (Reply (Inl e), [], h)
      | Some (Inr (target, query_only)) \<Rightarrow> (Kill_session target query_only, [], h)
      | None \<Rightarrow>
          if \<not> gate_up (h_gate h) then (Reply (Inl (gate_closed_error h)), [], h)
          else if has_prefix (to_lower query) ''use '' then
            (case use_db (use_argument query) h of
               (Some e, h1) \<Rightarrow> (Reply (Inl e), [], h1)
             | (None, h1) \<Rightarrow> (Reply (Inr No_result), [], h1))
          else if is_my_local_query query then
            (case handler_schema api h of (tables, calls, h1) \<Rightarrow>
               (Reply (handle_my_local_query lib query (my_view h1 tables)), calls, h1))
          else if h_ds_id h = 0 then
            (Reply (Inl (My_error ER_NO_DB_ERROR
               ''No database selected; use USE <database> (SHOW DATABASES to list available data sources)'')), [], h)
          else if h_read_only h \<and> write_verb MySQL query \<noteq> [] then
            (Reply (Inl (My_error ER_OPTION_PREVENTS_STATEMENT read_only_message)), [], h)
          else
            let sent = strip_db_qualifier (h_db_name h) query in
            (Send_query sent, [Execute_query sent (h_ds_id h)], h))"

text \<open>
  \<open>executeRemote\<close>: an error is the interruption when the query's context has ended and the session's
  has not, which only a \<open>KILL\<close> brings about.
\<close>

datatype remote_error = Interrupted | Remote go_error

definition execute_remote :: "bool \<Rightarrow> bool \<Rightarrow> go_error + query_result \<Rightarrow> remote_error + query_result" where
  "execute_remote killed session_over res =
     (case res of
        Inl err \<Rightarrow> if (killed \<or> session_over) \<and> \<not> session_over then Inl Interrupted else Inl (Remote err)
      | Inr r \<Rightarrow> Inr r)"

definition query_failed :: string where
  "query_failed = ''query execution failed (see proxy logs for details)''"

definition finish_query ::
  "my_lib \<Rightarrow> string \<Rightarrow> bool \<Rightarrow> bool \<Rightarrow> go_error + query_result \<Rightarrow> my_handler \<Rightarrow> (my_error + my_result) \<times> my_handler"
  where
  "finish_query lib query killed session_over res h =
     (case execute_remote killed session_over res of
        Inl Interrupted \<Rightarrow> (Inl (Default_error ER_QUERY_INTERRUPTED []), h)
      | Inl (Remote err) \<Rightarrow>
          let h1 = (if suspicious (Some err) then h\<lparr>h_gate := gate_suspect (h_gate h)\<rparr> else h);
              msg = (case as_query_error err of Some m \<Rightarrow> m | None \<Rightarrow> query_failed) in
          (Inl (My_error ER_UNKNOWN_ERROR msg), h1)
      | Inr r \<Rightarrow> (build_result lib query r, h))"

section \<open>Commands that are refused\<close>

definition handle_field_list :: my_error where
  "handle_field_list = My_error ER_UNKNOWN_ERROR ''COM_FIELD_LIST is not supported''"

definition handle_stmt_prepare :: my_error where
  "handle_stmt_prepare = My_error ER_UNKNOWN_ERROR ''prepared statements are not supported''"

definition handle_stmt_execute :: my_error where
  "handle_stmt_execute = My_error ER_UNKNOWN_ERROR ''prepared statements are not supported''"

definition handle_other_command :: "8 word \<Rightarrow> my_error" where
  "handle_other_command cmd =
     My_error ER_UNKNOWN_COM_ERROR (''unsupported command: '' @ nat_to_string (unat cmd))"

end
