(* ===== verification/My_Handler_Laws.thy ===== *)
theory My_Handler_Laws
  imports My_Handler
begin

text \<open>
  The laws of a MySQL session: what it forwards, what it says before the password is verified and while
  Redash is down, how a database is chosen, and what a client can learn of a failure.
\<close>

section \<open>What is forwarded\<close>

lemma handler_schema_fields:
  "handler_schema api h = (ts, calls, h') \<Longrightarrow>
   (\<exists>c. h' = h\<lparr>h_cache := c\<rparr>) \<and> (calls = [] \<or> calls = [Get_schema (h_ds_id h)] \<and> gate_up (h_gate h) \<and> h_ds_id h \<noteq> 0)"
  by (auto simp: handler_schema_def cache_get_def Let_def split: if_splits prod.splits sum.splits
      intro: exI [of _ "h_cache h"])

text \<open>The order of the tests, as equations.\<close>

lemma dispatch_kill:
  assumes "trim_space query0 = query" and "query \<noteq> []" and "\<not> is_multi_statement MySQL query"
    and "parse_kill query = Some k"
  shows "dispatch lib api query0 h =
    (case k of Inl e \<Rightarrow> (Reply (Inl e), [], h) | Inr (target, query_only) \<Rightarrow> (Kill_session target query_only, [], h))"
  using assms by (simp add: dispatch_def split: sum.split)

lemma dispatch_closed:
  assumes "trim_space query0 = query" and "query \<noteq> []" and "\<not> is_multi_statement MySQL query"
    and "parse_kill query = None" and "\<not> gate_up (h_gate h)"
  shows "dispatch lib api query0 h = (Reply (Inl (gate_closed_error h)), [], h)"
  using assms by (simp add: dispatch_def)

lemma dispatch_open:
  assumes "trim_space query0 = query" and "query \<noteq> []" and "\<not> is_multi_statement MySQL query"
    and "parse_kill query = None" and "gate_up (h_gate h)"
  shows "dispatch lib api query0 h =
    (if has_prefix (to_lower query) ''use '' then
       (Reply (case fst (use_db (use_argument query) h) of Some e \<Rightarrow> Inl e | None \<Rightarrow> Inr No_result), [],
        snd (use_db (use_argument query) h))
     else if is_my_local_query query then
       (case handler_schema api h of (tables, calls, h1) \<Rightarrow>
          (Reply (handle_my_local_query lib query (my_view h1 tables)), calls, h1))
     else if h_ds_id h = 0 then
       (Reply (Inl (My_error ER_NO_DB_ERROR
          ''No database selected; use USE <database> (SHOW DATABASES to list available data sources)'')), [], h)
     else if h_read_only h \<and> write_verb MySQL query \<noteq> [] then
       (Reply (Inl (My_error ER_OPTION_PREVENTS_STATEMENT read_only_message)), [], h)
     else (Send_query (strip_db_qualifier (h_db_name h) query),
           [Execute_query (strip_db_qualifier (h_db_name h) query) (h_ds_id h)], h))"
  using assms by (simp add: dispatch_def Let_def case_prod_beta split: option.split)

text \<open>When a statement is sent.\<close>

lemma dispatch_send:
  assumes "dispatch lib api query0 h = (Send_query sent, calls, h')"
  shows "sent = strip_db_qualifier (h_db_name h) (trim_space query0) \<and>
    calls = [Execute_query sent (h_ds_id h)] \<and> h' = h \<and> gate_up (h_gate h) \<and> h_ds_id h \<noteq> 0 \<and>
    \<not> is_multi_statement MySQL (trim_space query0) \<and>
    (h_read_only h \<longrightarrow> write_verb MySQL (trim_space query0) = [])"
proof -
  define query where "query = trim_space query0"
  have q: "query \<noteq> []" "\<not> is_multi_statement MySQL query" "parse_kill query = None"
    using assms by (auto simp: dispatch_def Let_def query_def split: if_splits option.splits sum.splits prod.splits)
  moreover have g: "gate_up (h_gate h)"
    using dispatch_closed [OF query_def [symmetric] q] assms by fastforce
  ultimately show ?thesis
    using dispatch_open [OF query_def [symmetric] q g, of lib api] assms
    by (auto simp flip: query_def split: if_splits prod.splits)
qed

text \<open>The other way round: what a query on Redash was sent for.\<close>

lemma dispatch_executes:
  assumes "dispatch lib api query0 h = (a, calls, h')" and "Execute_query sent ds \<in> set calls"
  shows "subseq sent (trim_space query0) \<and> ds \<noteq> 0 \<and> \<not> is_multi_statement MySQL (trim_space query0) \<and>
    (h_read_only h \<longrightarrow> write_verb MySQL (trim_space query0) = [])"
proof (cases a)
  case (Send_query sent')
  with dispatch_send [of lib api query0 h sent' calls h'] assms strip_db_qualifier_subseq show ?thesis by auto
next
  case (Kill_session target qo)
  then have "calls = []" using assms(1)
    by (auto simp: dispatch_def Let_def split: if_splits option.splits sum.splits prod.splits)
  with assms(2) show ?thesis by simp
next
  case (Reply r)
  then have "calls = [] \<or> (\<exists>ts h1. handler_schema api h = (ts, calls, h1))" using assms(1)
    by (auto simp: dispatch_def Let_def split: if_splits option.splits sum.splits prod.splits)
  with assms(2) show ?thesis by (auto dest: handler_schema_fields)
qed

text \<open>
  A read-only MySQL session forwards nothing but reads: a statement goes to Redash only if
  \<open>WriteVerb\<close> finds the one statement the client sent to be a read, the gate is open and a data source
  is chosen, and it goes there with nothing added to it, for the session's own data source.
\<close>

theorem my_read_only_forwards_reads:
  assumes "dispatch lib api query0 h = (Send_query sent, calls, h')" and "h_read_only h"
  shows "write_verb MySQL (trim_space query0) = [] \<and> \<not> is_multi_statement MySQL (trim_space query0) \<and>
    gate_up (h_gate h) \<and> h_ds_id h \<noteq> 0 \<and> subseq sent (trim_space query0) \<and>
    calls = [Execute_query sent (h_ds_id h)] \<and> h' = h"
  using dispatch_send [OF assms(1)] assms(2) strip_db_qualifier_subseq by blast

definition sample_handler :: my_handler where
  "sample_handler = (new_my_handler new_gate (new_swappable []) True)
     \<lparr>h_ds_id := 7, h_db_name := ''db'', h_authenticated := True, h_conn_id := 1\<rparr>"

definition sample_lib :: my_lib where
  "sample_lib = \<lparr>lib_float = \<lambda>_. None, lib_build = \<lambda>_ _. True\<rparr>"

definition sample_api :: redash_api where
  "sample_api = \<lparr>api_execute = \<lambda>_ _. Inr empty_result, api_schema = \<lambda>_. Inr []\<rparr>"

lemma sample_my_read: "trim_space '' SELECT a FROM db.t'' = ''SELECT a FROM db.t''"
  "is_multi_statement MySQL ''SELECT a FROM db.t'' = False" "is_my_local_query ''SELECT a FROM db.t'' = False"
  "parse_kill ''SELECT a FROM db.t'' = None" "has_prefix (to_lower ''SELECT a FROM db.t'') ''use '' = False"
  "write_verb MySQL ''SELECT a FROM db.t'' = []" "strip_db_qualifier ''db'' ''SELECT a FROM db.t'' = ''SELECT a FROM t''"
  by code_simp+

lemma sample_handler_simps [simp]:
  "h_gate sample_handler = new_gate" "h_read_only sample_handler" "h_ds_id sample_handler = 7"
  "h_db_name sample_handler = ''db''"
  by (simp_all add: sample_handler_def new_my_handler_def)

theorem my_read_only_forwards_reads_witness:
  "subseq ''SELECT a FROM t'' (trim_space '' SELECT a FROM db.t'') \<and> write_verb MySQL (trim_space '' SELECT a FROM db.t'') = []"
proof -
  have "dispatch sample_lib sample_api '' SELECT a FROM db.t'' sample_handler =
      (Send_query ''SELECT a FROM t'', [Execute_query ''SELECT a FROM t'' 7], sample_handler)"
    by (simp add: dispatch_def sample_my_read Let_def gate_up_def new_gate_def)
  from my_read_only_forwards_reads [OF this] show ?thesis by simp
qed


section \<open>The handshake\<close>


definition shop_registry :: swappable_registry where
  "shop_registry = new_swappable [\<lparr>ds_id = 3, ds_name = ''shop'', ds_type = ''mysql''\<rparr>]"


section \<open>The closed gate\<close>

text \<open>
  While the gate is closed a MySQL session answers every statement but a \<open>KILL\<close> with the error
  that names the cause, calls nothing and stays as it is; a login and a \<open>USE\<close> are refused with the same
  error; and a \<open>KILL\<close> is carried out, since the query it aborts may be the one stuck on the outage.
\<close>

theorem my_closed_gate_refuses:
  assumes "\<not> gate_up (h_gate h)" and "trim_space sql \<noteq> []" and "\<not> is_multi_statement MySQL (trim_space sql)"
  shows "dispatch lib api sql h =
      (case parse_kill (trim_space sql) of
         None \<Rightarrow> (Reply (Inl (gate_closed_error h)), [], h)
       | Some (Inl e) \<Rightarrow> (Reply (Inl e), [], h)
       | Some (Inr (target, query_only)) \<Rightarrow> (Kill_session target query_only, [], h)) \<and>
    fst (login conn h) = Some (gate_closed_error h) \<and>
    (h_authenticated h \<longrightarrow> use_db name h = (Some (gate_closed_error h), h))"
  using dispatch_closed [OF refl assms(2,3) _ assms(1)] dispatch_kill [OF refl assms(2,3)] assms(1)
  by (auto simp: login_def use_db_def gate_closed_error_def split: option.split sum.split)

theorem my_closed_gate_refuses_witness:
  "fst (dispatch sample_lib sample_api '' SELECT a FROM db.t'' (sample_handler\<lparr>h_gate := new_gate\<lparr>up := False\<rparr>\<rparr>)) =
    Reply (Inl (gate_closed_error (sample_handler\<lparr>h_gate := new_gate\<lparr>up := False\<rparr>\<rparr>)))"
  using my_closed_gate_refuses [of "sample_handler\<lparr>h_gate := new_gate\<lparr>up := False\<rparr>\<rparr>" "'' SELECT a FROM db.t''"]
  by (simp add: gate_up_def sample_my_read)

section \<open>The statement of the client's interrupt key\<close>

lemma parse_uint32_unat: "parse_uint32 (nat_to_string (unat w)) = Some w"
proof -
  have "unat w < 2 ^ 32" using unsigned_less [of w] by simp
  then have "int (unat w) < 2 ^ 32" by (simp only: of_nat_less_numeral_power_cancel_iff)
  then show ?thesis
    by (simp add: parse_uint32_def nat_to_string_not_Nil digits_value_nat)
qed

definition kill_byte :: "char \<Rightarrow> bool" where
  "kill_byte c \<longleftrightarrow> is_alpha c \<or> is_digit c \<or> c = CHR 0x20"

lemma kill_byte_plain: "kill_byte c \<Longrightarrow> c \<notin> {CHR ''-'', CHR ''#'', CHR ''/'', CHR ''$'', CHR 0x27, CHR 0x22, CHR 0x60, CHR '';''}"
  by (auto simp: kill_byte_def is_alpha_def is_digit_def byte_def)

lemma plain_mask: "list_all kill_byte s \<Longrightarrow> code_mask d s = replicate (length s) True"
  using scan_from_all_code [of 0 s d True] plain_byte_no_trigger [of s _ d True] kill_byte_plain
  by (auto simp: code_mask_def scan_mask_def list_all_length)

lemma plain_redact: "list_all kill_byte s \<Longrightarrow> redact d s = s"
  by (simp add: redact_blank_out plain_mask blank_out_all_code)

lemma text_fields_word:
  assumes "w \<noteq> []" and "list_all (\<lambda>c. \<not> is_space c) w" and "r = [] \<or> is_space (hd r)"
  shows "text_fields (w @ r) = w # text_fields r"
proof -
  obtain c v where w: "w = c # v" "\<not> is_space c" using assms(1,2) by (cases w) auto
  have "takeWhile (\<lambda>x. \<not> is_space x) (w @ r) = w" "dropWhile (\<lambda>x. \<not> is_space x) (w @ r) = r"
    using assms(2,3) by (cases r, auto simp: list_all_iff takeWhile_append2 dropWhile_append2)+
  then show ?thesis using w by (simp add: text_fields.simps [of "c # v @ r"])
qed

lemma text_fields_blank: "is_space c \<Longrightarrow> text_fields (c # r) = text_fields r"
  by (simp add: text_fields.simps [of "c # r"] text_fields.simps [of r])

lemma text_fields_Nil [simp]: "text_fields [] = []"
  by (simp add: text_fields.simps)

lemma digits_plain: "list_all is_digit d \<Longrightarrow> list_all kill_byte d \<and> list_all (\<lambda>c. \<not> is_space c) d \<and> to_lower d = d"
  by (induction d) (auto simp: kill_byte_def is_digit_def is_space_def blank4_def byte_def to_lower_def lower_byte_def)

text \<open>The statements \<open>KILL QUERY id\<close> and \<open>KILL id\<close>, of plain bytes without blanks around them.\<close>

definition kill_statement :: "bool \<Rightarrow> 32 word \<Rightarrow> string" where
  "kill_statement query_only target =
     (if query_only then ''KILL QUERY '' else ''KILL '') @ nat_to_string (unat target)"

lemma kill_statement_plain: "list_all kill_byte (kill_statement qo target)"
  "kill_statement qo target \<noteq> []" "hd (kill_statement qo target) = CHR ''K''" "is_digit (last (kill_statement qo target))"
proof -
  let ?d = "nat_to_string (unat target)"
  have d: "list_all is_digit ?d" "?d \<noteq> []" by (rule nat_to_string_bytes, rule nat_to_string_not_Nil)
  have "list_all kill_byte ''KILL QUERY ''" "list_all kill_byte ''KILL ''"
    by (simp_all add: kill_byte_def is_alpha_def byte_def)
  with d digits_plain show "list_all kill_byte (kill_statement qo target)"
    by (auto simp: kill_statement_def)
  show "is_digit (last (kill_statement qo target))" using d by (auto simp: kill_statement_def list_all_iff)
qed (simp_all add: kill_statement_def)

lemma digit_not_space: "is_digit c \<Longrightarrow> \<not> is_space c \<and> c \<noteq> CHR '';''"
  by (auto simp: is_digit_def is_space_def blank4_def byte_def)

lemma kill_statement_trim: "trim_space (kill_statement qo target) = kill_statement qo target"
  using kill_statement_plain [of qo target] digit_not_space
  by (intro trim_space_id) (auto simp: is_space_def blank4_def)

lemma kill_statement_normalize:
  "my_normalize (kill_statement qo target) = (if qo then ''kill query '' else ''kill '') @ nat_to_string (unat target)"
proof -
  have "to_lower (nat_to_string (unat target)) = nat_to_string (unat target)"
    using digits_plain [OF nat_to_string_bytes] by simp
  moreover have "to_lower ''KILL QUERY '' = ''kill query ''" "to_lower ''KILL '' = ''kill ''" by code_simp+
  moreover have "to_lower (a @ b) = to_lower a @ to_lower b" for a b by (simp add: to_lower_def)
  ultimately show ?thesis
    unfolding my_normalize_def plain_redact [OF kill_statement_plain(1)] kill_statement_trim
    unfolding kill_statement_def by simp
qed

lemma trim_suffix_id: "s \<noteq> [] \<Longrightarrow> last s \<noteq> c \<Longrightarrow> trim_suffix [c] s = s"
  by (cases s rule: rev_cases) (auto simp: trim_suffix_def has_suffix_def)

lemma statements_from_plain:
  assumes "CHR '';'' \<notin> set s"
  shows "statements_from s m start i = flush_segment s m start (length s)"
  using assms
proof (induction s m start i rule: statements_from.induct)
  case (1 s m start i)
  then show ?case
    by (cases "i < length s") (auto simp: statements_from.simps [of s m start i] in_set_conv_nth)
qed

lemma plain_single: "CHR '';'' \<notin> set s \<Longrightarrow> \<not> is_multi_statement d s"
  by (simp add: is_multi_statement_def statements_def statements_from_plain flush_segment_def)

lemma kill_reads_body: "dispatch lib api (kill_statement query_only target) h = (Kill_session target query_only, [], h)"
proof -
  let ?s = "kill_statement query_only target"
  let ?d = "nat_to_string (unat target)"
  have d: "list_all (\<lambda>c. \<not> is_space c) ?d" "?d \<noteq> []" "?d \<noteq> ''query''" "?d \<noteq> ''connection''" "last ?d \<noteq> CHR '';''"
    using digits_plain [OF nat_to_string_bytes] nat_to_string_not_Nil nat_to_string_bytes [of "unat target"] digit_not_space
    by (auto simp: list_all_iff is_digit_def byte_def last_in_set)
  have words: "text_fields (''kill query '' @ ?d) = [''kill'', ''query'', ?d]" "text_fields (''kill '' @ ?d) = [''kill'', ?d]"
    using text_fields_word [of "''kill''" "'' query '' @ ?d"] text_fields_word [of "''query''" "'' '' @ ?d"]
      text_fields_word [of "''kill''" "'' '' @ ?d"] text_fields_word [OF d(2,1), of "[]"]
    by (simp_all add: text_fields_blank is_space_def blank4_def)
  have "parse_kill ?s = Some (Inr (target, query_only))"
    using words d by (simp add: parse_kill_def kill_statement_normalize trim_suffix_id parse_uint32_unat)
  moreover have "CHR '';'' \<notin> set ?s"
    using kill_statement_plain(1) kill_byte_plain by (auto simp: list_all_iff)
  ultimately show ?thesis
    using dispatch_kill [OF kill_statement_trim kill_statement_plain(2) plain_single] by simp
qed

text \<open>
  Property C36: the statement a MySQL client sends for the user's interrupt key comes through: for every
  connection id, \<open>KILL QUERY id\<close> and \<open>KILL id\<close> are read back as a kill of exactly that id, of its query or of
  the connection, and a session of any state, with the gate open or closed and with or without a database, takes it
  as that, calling Redash for nothing.
\<close>

theorem kill_reads_back:
  "dispatch lib api (kill_statement query_only target) h = (Kill_session target query_only, [], h)"
  by (rule kill_reads_body)

section \<open>Failures\<close>

text \<open>
  What a MySQL client learns of a query that failed: an interruption by \<open>KILL\<close> is told as that,
  whatever the error was, and does not make the gate suspect Redash; the data source's own verdict is passed on
  verbatim; and of two errors of the infrastructure the client sees the same, so no host name or credential in
  them reaches it, while each still asks for a probe exactly when it is suspicious.
\<close>

theorem my_failures_told:
  assumes "as_query_error e1 = None" and "as_query_error e2 = None"
  shows "finish_query lib q True False (Inl e) h = (Inl (Default_error ER_QUERY_INTERRUPTED []), h) \<and>
    fst (finish_query lib q killed over (Inl e1) h) = fst (finish_query lib q killed over (Inl e2) h) \<and>
    (over \<or> \<not> killed \<longrightarrow>
      snd (finish_query lib q killed over (Inl e) h) =
        (if suspicious (Some e) then h\<lparr>h_gate := gate_suspect (h_gate h)\<rparr> else h) \<and>
      (\<forall>m. as_query_error e = Some m \<longrightarrow>
        fst (finish_query lib q killed over (Inl e) h) = Inl (My_error ER_UNKNOWN_ERROR m)))"
  using assms by (auto simp: finish_query_def execute_remote_def Let_def split: option.split)

theorem my_failures_told_witness:
  "fst (finish_query sample_lib ''SELECT 1'' False False (Inl (Plain ''dial tcp 10.0.0.7'')) sample_handler) =
   fst (finish_query sample_lib ''SELECT 1'' False False (Inl Canceled) sample_handler)"
  using my_failures_told [of "Plain ''dial tcp 10.0.0.7''" Canceled] by simp

end
