(* ===== verification/My_Server.thy ===== *)
theory My_Server
  imports My_Handler_Laws
begin

text \<open>
  \<open>internal/mysqlwire/server.go\<close>: the MySQL server as the interleaving of its sessions. A session is known by its
  number, its \<open>session_id\<close>, which stands for the handler pointer; the table of connections maps the ids the
  library gives to sessions. The goroutines are steps: a connection is accepted, shakes hands, is listed, takes
  commands, and ends, while the checker moves the gate and the registry and \<open>KILL\<close>s reach into other sessions.
\<close>

section \<open>The table of connections\<close>

type_synonym conn_table = "32 word \<rightharpoonup> nat"

definition new_conn_table :: conn_table where
  "new_conn_table = Map.empty"

definition table_add :: "32 word \<Rightarrow> nat \<Rightarrow> conn_table \<Rightarrow> conn_table" where
  "table_add conn n t = t(conn \<mapsto> n)"

definition table_remove :: "32 word \<Rightarrow> conn_table \<Rightarrow> conn_table" where
  "table_remove conn t = t(conn := None)"

definition table_lookup :: "32 word \<Rightarrow> conn_table \<Rightarrow> nat option" where
  "table_lookup conn t = t conn"

text \<open>
  What the server relies on, for a directory of any shape: an id names the session added last under it,
  until one is removed. From the laws: what a run of additions and removals leaves.
\<close>

locale directory =
  fixes enter :: "'k \<Rightarrow> 'v \<Rightarrow> 'd \<Rightarrow> 'd"
    and leave :: "'k \<Rightarrow> 'd \<Rightarrow> 'd"
    and look :: "'k \<Rightarrow> 'd \<Rightarrow> 'v option"
    and blank :: 'd
  assumes look_blank: "look k blank = None"
    and look_enter: "look k (enter k' v d) = (if k = k' then Some v else look k d)"
    and look_leave: "look k (leave k' d) = (if k = k' then None else look k d)"
begin

definition names_all :: "('v \<Rightarrow> 'k \<Rightarrow> bool) \<Rightarrow> 'd \<Rightarrow> bool" where
  "names_all P d \<longleftrightarrow> (\<forall>k v. look k d = Some v \<longrightarrow> P v k)"

lemma names_all_blank: "names_all P blank"
  by (simp add: names_all_def look_blank)

lemma names_all_enter: "names_all P d \<Longrightarrow> P v k \<Longrightarrow> names_all P (enter k v d)"
  by (simp add: names_all_def look_enter)

text \<open>After a removal under \<open>k\<close> only what holds for other ids is needed.\<close>

lemma names_all_leave:
  assumes "names_all P d" and "\<And>k' v. look k' d = Some v \<Longrightarrow> P v k' \<Longrightarrow> k' \<noteq> k \<Longrightarrow> Q v k'"
  shows "names_all Q (leave k d)"
  using assms by (auto simp: names_all_def look_leave split: if_splits)

lemma names_allD: "names_all P d \<Longrightarrow> look k d = Some v \<Longrightarrow> P v k"
  by (simp add: names_all_def)

lemma names_all_mono: "names_all P d \<Longrightarrow> (\<And>v k. P v k \<Longrightarrow> Q v k) \<Longrightarrow> names_all Q d"
  by (auto simp: names_all_def)

end

interpretation conns: directory table_add table_remove table_lookup new_conn_table
  by unfold_locales (simp_all add: table_add_def table_remove_def table_lookup_def new_conn_table_def)

section \<open>Sessions and the server\<close>

text \<open>What a session is doing: a query on Redash with whether it was killed, or the steps of a \<open>KILL\<close>.\<close>

datatype doing =
    Idle
  | Awaiting string bool
  | Killing "32 word" bool
  | Interrupting nat bool
  | Disconnecting nat

datatype stage = Handshaking | Logged_in | Serving | Closing

record my_conn =
  c_handler :: my_handler
  c_stage :: stage
  c_doing :: doing
  c_over :: bool

record my_server =
  sv_lib :: my_lib
  sv_user :: string
  sv_pass :: string
  sv_read_only :: bool
  sv_gate :: gate
  sv_registry :: swappable_registry
  sv_seq :: nat
  sv_table :: conn_table
  sv_conns :: "nat \<rightharpoonup> my_conn"

definition new_my_server :: "my_lib \<Rightarrow> string \<Rightarrow> string \<Rightarrow> bool \<Rightarrow> gate \<Rightarrow> swappable_registry \<Rightarrow> my_server" where
  "new_my_server lib user pass ro g sources_at =
     \<lparr>sv_lib = lib, sv_user = user, sv_pass = pass, sv_read_only = ro, sv_gate = g, sv_registry = sources_at,
      sv_seq = 0, sv_table = new_conn_table, sv_conns = Map.empty\<rparr>"

definition my_max_conns :: nat where
  "my_max_conns = 200"

text \<open>A handler sees the gate and the registry of the server.\<close>

definition seen_by :: "my_server \<Rightarrow> my_conn \<Rightarrow> my_handler" where
  "seen_by s c = (c_handler c)\<lparr>h_gate := sv_gate s, h_registry := sv_registry s\<rparr>"

definition put_conn :: "nat \<Rightarrow> my_conn \<Rightarrow> my_server \<Rightarrow> my_server" where
  "put_conn n c s = s\<lparr>sv_conns := (sv_conns s)(n \<mapsto> c)\<rparr>"

text \<open>A handler after one of its methods: what it did to the gate is the server's.\<close>

definition after_method :: "nat \<Rightarrow> my_conn \<Rightarrow> my_handler \<Rightarrow> doing \<Rightarrow> my_server \<Rightarrow> my_server" where
  "after_method n c h d s = put_conn n (c\<lparr>c_handler := h, c_doing := d\<rparr>) (s\<lparr>sv_gate := h_gate h\<rparr>)"

text \<open>The start of \<open>handleConn\<close>.\<close>

definition accept_conn :: "my_server \<Rightarrow> my_server" where
  "accept_conn s =
     (let n = sv_seq s + 1 in
      put_conn n \<lparr>c_handler = new_my_handler (sv_gate s) (sv_registry s) (sv_read_only s), c_stage = Handshaking,
                  c_doing = Idle, c_over = False\<rparr> (s\<lparr>sv_seq := n\<rparr>))"

definition list_conn :: "nat \<Rightarrow> my_conn \<Rightarrow> my_server \<Rightarrow> my_server" where
  "list_conn n c s =
     put_conn n (c\<lparr>c_stage := Serving\<rparr>) (s\<lparr>sv_table := table_add (h_conn_id (c_handler c)) n (sv_table s)\<rparr>)"

text \<open>The end of \<open>handleConn\<close>: the removal is deferred once the session is listed.\<close>

definition end_conn :: "nat \<Rightarrow> my_conn \<Rightarrow> my_server \<Rightarrow> my_server" where
  "end_conn n c s =
     (let s1 = (if c_stage c = Serving
                then s\<lparr>sv_table := table_remove (h_conn_id (c_handler c)) (sv_table s)\<rparr> else s) in
      s1\<lparr>sv_conns := (sv_conns s1)(n := None)\<rparr>)"

text \<open>\<open>interrupt\<close> of a handler: whether it had a query, and the session after it.\<close>

definition interrupt :: "my_conn \<Rightarrow> bool \<times> my_conn" where
  "interrupt c =
     (case c_doing c of Awaiting sent k \<Rightarrow> (True, c\<lparr>c_doing := Awaiting sent True\<rparr>) | _ \<Rightarrow> (False, c))"

text \<open>\<open>handleKill\<close> in its three steps: the lookup, the interruption and, unless only a query is meant, the end.\<close>

definition kill_lookup :: "nat \<Rightarrow> my_conn \<Rightarrow> 32 word \<Rightarrow> bool \<Rightarrow> my_server \<Rightarrow> my_error option \<times> my_server" where
  "kill_lookup n c target query_only s =
     (case table_lookup target (sv_table s) of
        None \<Rightarrow> (Some (Default_error ER_NO_SUCH_THREAD (nat_to_string (unat target))), put_conn n (c\<lparr>c_doing := Idle\<rparr>) s)
      | Some m \<Rightarrow> (None, put_conn n (c\<lparr>c_doing := Interrupting m query_only\<rparr>) s))"

definition kill_interrupt :: "nat \<Rightarrow> my_conn \<Rightarrow> nat \<Rightarrow> bool \<Rightarrow> my_server \<Rightarrow> my_server" where
  "kill_interrupt n c m query_only s =
     (let s1 = (case sv_conns s m of None \<Rightarrow> s | Some cm \<Rightarrow> put_conn m (snd (interrupt cm)) s) in
      put_conn n (c\<lparr>c_doing := (if query_only then Idle else Disconnecting m)\<rparr>) s1)"

definition disconnect_conn :: "nat \<Rightarrow> my_server \<Rightarrow> my_server" where
  "disconnect_conn m s = (case sv_conns s m of None \<Rightarrow> s | Some cm \<Rightarrow> put_conn m (cm\<lparr>c_over := True\<rparr>) s)"

definition kill_disconnect :: "nat \<Rightarrow> nat \<Rightarrow> my_server \<Rightarrow> my_server" where
  "kill_disconnect n m s =
     (let s1 = disconnect_conn m s in
      case sv_conns s1 n of None \<Rightarrow> s1 | Some c \<Rightarrow> put_conn n (c\<lparr>c_doing := Idle\<rparr>) s1)"

section \<open>Steps\<close>

datatype my_event =
    Accepted nat
  | Shaken nat "32 word" handshake_result
  | Entered nat "32 word"
  | Asked nat string my_action "api_call list"
  | Looked_up nat "32 word" "my_error option"
  | Interrupted_by nat nat
  | Disconnected_by nat nat
  | Answered nat "my_error + my_result"
  | Ended nat
  | Checker_moved
  | Shut_down

fun doing_of :: "my_action \<Rightarrow> doing" where
  "doing_of (Reply r) = Idle"
| "doing_of (Kill_session target query_only) = Killing target query_only"
| "doing_of (Send_query sent) = Awaiting sent False"

definition stage_of :: "handshake_result \<Rightarrow> stage" where
  "stage_of r = (if r = Admitted then Logged_in else Closing)"

inductive my_step :: "my_server \<Rightarrow> my_event \<Rightarrow> my_server \<Rightarrow> bool" where
  conn_accepted:
    "card (dom (sv_conns s)) < my_max_conns \<Longrightarrow> my_step s (Accepted (sv_seq s + 1)) (accept_conn s)"
| conn_shaken:
    "sv_conns s n = Some c \<Longrightarrow> c_stage c = Handshaking \<Longrightarrow>
     my_handshake fits (sv_user s) (sv_pass s) decoy conn asked db scramble (seen_by s c) = (r, h) \<Longrightarrow>
     my_step s (Shaken n conn r) (after_method n (c\<lparr>c_stage := stage_of r\<rparr>) h Idle s)"
| conn_listed:
    "sv_conns s n = Some c \<Longrightarrow> c_stage c = Logged_in \<Longrightarrow>
     my_step s (Entered n (h_conn_id (c_handler c))) (list_conn n c s)"
| query_asked:
    "sv_conns s n = Some c \<Longrightarrow> c_stage c = Serving \<Longrightarrow> c_doing c = Idle \<Longrightarrow>
     dispatch (sv_lib s) api q (seen_by s c) = (a, calls, h) \<Longrightarrow>
     my_step s (Asked n q a calls) (after_method n c h (doing_of a) s)"
| kill_looks:
    "sv_conns s n = Some c \<Longrightarrow> c_doing c = Killing target query_only \<Longrightarrow>
     kill_lookup n c target query_only s = (e, s') \<Longrightarrow> my_step s (Looked_up n target e) s'"
| kill_interrupts:
    "sv_conns s n = Some c \<Longrightarrow> c_doing c = Interrupting m query_only \<Longrightarrow>
     my_step s (Interrupted_by n m) (kill_interrupt n c m query_only s)"
| kill_disconnects:
    "sv_conns s n = Some c \<Longrightarrow> c_doing c = Disconnecting m \<Longrightarrow>
     my_step s (Disconnected_by n m) (kill_disconnect n m s)"
| query_answered:
    "sv_conns s n = Some c \<Longrightarrow> c_doing c = Awaiting sent killed \<Longrightarrow>
     finish_query (sv_lib s) sent killed (c_over c) res (seen_by s c) = (r, h) \<Longrightarrow>
     my_step s (Answered n r) (after_method n c h Idle s)"
| conn_ended:
    "sv_conns s n = Some c \<Longrightarrow> c_stage c \<in> {Serving, Closing} \<Longrightarrow> my_step s (Ended n) (end_conn n c s)"
| checker_moves: "my_step s Checker_moved (s\<lparr>sv_gate := g, sv_registry := sources_at\<rparr>)"
| server_shut: "my_step s Shut_down (s\<lparr>sv_conns := map_option (\<lambda>c. c\<lparr>c_over := True\<rparr>) \<circ> sv_conns s\<rparr>)"

text \<open>The runs, with what happened in them, last event first.\<close>

inductive my_run :: "my_server \<Rightarrow> my_event list \<Rightarrow> my_server \<Rightarrow> bool" for s0 where
  run_start: "my_run s0 [] s0"
| run_step: "my_run s0 es s \<Longrightarrow> my_step s e s' \<Longrightarrow> my_run s0 (e # es) s'"

inductive_cases my_run_ConsE: "my_run s0 (e # es) s"

inductive_cases answered_stepE: "my_step s (Answered n r) s'"

end
