(* ===== verification/My_Server_Laws.thy ===== *)
theory My_Server_Laws
  imports My_Server
begin

text \<open>
  The laws of the MySQL server over all its interleavings: the invariant of its sessions and its table of
  connections, what reaches Redash, whom a \<open>KILL\<close> can touch, and that it takes effect.
\<close>

section \<open>What the methods of a handler keep\<close>

lemma use_db_keeps:
  "use_db name h = (e, h') \<Longrightarrow> h_read_only h' = h_read_only h \<and> h_authenticated h' = h_authenticated h \<and>
   h_conn_id h' = h_conn_id h \<and> h_gate h' = h_gate h \<and> (\<not> h_authenticated h \<longrightarrow> h_ds_id h' = h_ds_id h)"
  by (auto simp: use_db_def split: if_splits option.splits)

lemma login_keeps:
  "login conn h = (e, h') \<Longrightarrow> h_read_only h' = h_read_only h \<and> h_authenticated h' \<and> h_conn_id h' = conn \<and> h_gate h' = h_gate h"
  using use_db_keeps [of "h_pending_db h" "h\<lparr>h_authenticated := True, h_conn_id := conn, h_pending_db := []\<rparr>"]
  by (auto simp: login_def Let_def split: if_splits)

lemma handshake_keeps:
  assumes "my_handshake fits user pass decoy conn asked db scramble h = (r, h')"
  shows "h_read_only h' = h_read_only h \<and> h_gate h' = h_gate h \<and> (r = Admitted \<longrightarrow> h_authenticated h' \<and> h_conn_id h' = conn) \<and>
    (h_authenticated h \<longrightarrow> h_authenticated h') \<and> (\<not> h_authenticated h' \<longrightarrow> h_ds_id h' = h_ds_id h)"
proof -
  define h1 where "h1 = (if db = [] then h else snd (use_db db h))"
  have h1: "h_read_only h1 = h_read_only h" "h_gate h1 = h_gate h" "h_authenticated h1 = h_authenticated h"
    "\<not> h_authenticated h1 \<Longrightarrow> h_ds_id h1 = h_ds_id h"
    using use_db_keeps [of db h "fst (use_db db h)" "snd (use_db db h)"] by (simp_all add: h1_def split: if_splits)
  obtain e h2 where l: "login conn h1 = (e, h2)" by force
  have "h' = h1 \<and> r = Access_denied \<or> h' = h2"
    using assms unfolding my_handshake_def Let_def h1_def [symmetric] l
    by (cases e) (simp_all split: if_splits)
  then show ?thesis using h1 login_keeps [OF l] by auto
qed

lemma dispatch_keeps:
  assumes "dispatch lib api q h = (a, calls, h')"
  shows "h_read_only h' = h_read_only h \<and> h_authenticated h' = h_authenticated h \<and> h_conn_id h' = h_conn_id h \<and> h_gate h' = h_gate h"
proof -
  define query where "query = trim_space q"
  show ?thesis
  proof (cases "query = [] \<or> is_multi_statement MySQL query \<or> parse_kill query \<noteq> None \<or> \<not> gate_up (h_gate h)")
    case True
    have "dispatch lib api q h = (fst (dispatch lib api q h), [], h)"
    proof (cases "query = [] \<or> is_multi_statement MySQL query")
      case True
      then show ?thesis by (auto simp: dispatch_def Let_def simp flip: query_def)
    next
      case single: False
      then show ?thesis
        using True dispatch_kill [OF query_def [symmetric]] dispatch_closed [OF query_def [symmetric]]
        by (cases "parse_kill query") (auto split: sum.split prod.split)
    qed
    with assms have "h' = h" by (metis prod.inject)
    then show ?thesis by simp
  next
    case False
    then have d: "dispatch lib api q h = (a, calls, h')" "query \<noteq> []" "\<not> is_multi_statement MySQL query"
        "parse_kill query = None" "gate_up (h_gate h)" using assms by auto
    from d(1) show ?thesis
      unfolding dispatch_open [OF query_def [symmetric] d(2-5)]
      using use_db_keeps [of "use_argument query" h]
      by (cases "use_db (use_argument query) h") (auto split: if_splits prod.splits dest: handler_schema_fields)
  qed
qed

lemma finish_keeps:
  "finish_query lib q k over res h = (r, h') \<Longrightarrow> \<exists>g. h' = h\<lparr>h_gate := g\<rparr>"
  by (auto simp: finish_query_def Let_def split: sum.splits remote_error.splits if_splits
      intro: exI [of _ "h_gate h"])

text \<open>An interruption is told only to a query that was killed.\<close>

lemma build_result_error: "build_result lib q r = Inl e \<Longrightarrow> e = Build_failed"
  by (auto simp: build_result_def result_of_def build_resultset_def Let_def split: if_splits)

lemma interrupted_was_killed:
  "finish_query lib q k over res h = (Inl (Default_error ER_QUERY_INTERRUPTED []), h') \<Longrightarrow> k \<and> \<not> over"
  by (auto simp: finish_query_def execute_remote_def Let_def dest: build_result_error
      split: sum.splits if_splits)

lemma finish_killed:
  "finish_query lib q True False res h = (r, h') \<Longrightarrow>
   r = Inl (Default_error ER_QUERY_INTERRUPTED []) \<or> (\<exists>x. r = build_result lib q x)"
  by (auto simp: finish_query_def execute_remote_def split: sum.splits)

section \<open>The invariant\<close>

definition conn_ok :: "bool \<Rightarrow> my_conn \<Rightarrow> bool" where
  "conn_ok ro c \<longleftrightarrow>
     h_read_only (c_handler c) = ro \<and>
     (c_stage c = Logged_in \<or> c_stage c = Serving \<longrightarrow> h_authenticated (c_handler c)) \<and>
     (\<not> h_authenticated (c_handler c) \<longrightarrow> h_ds_id (c_handler c) = 0) \<and>
     (c_doing c \<noteq> Idle \<longrightarrow> c_stage c = Serving)"

text \<open>Whom an entry of the table names: a session that serves, under its own id.\<close>

definition named_session :: "my_server \<Rightarrow> nat \<Rightarrow> 32 word \<Rightarrow> bool" where
  "named_session s n conn \<longleftrightarrow>
     (\<exists>c. sv_conns s n = Some c \<and> c_stage c = Serving \<and> h_conn_id (c_handler c) = conn)"

definition my_server_inv :: "my_server \<Rightarrow> bool" where
  "my_server_inv s \<longleftrightarrow>
     finite (dom (sv_conns s)) \<and> card (dom (sv_conns s)) \<le> my_max_conns \<and>
     (\<forall>n c. sv_conns s n = Some c \<longrightarrow> n \<le> sv_seq s \<and> conn_ok (sv_read_only s) c) \<and>
     conns.names_all (named_session s) (sv_table s)"

lemma inv_conn: "my_server_inv s \<Longrightarrow> sv_conns s n = Some c \<Longrightarrow> n \<le> sv_seq s \<and> conn_ok (sv_read_only s) c"
  by (simp add: my_server_inv_def)

lemma inv_names: "my_server_inv s \<Longrightarrow> table_lookup conn (sv_table s) = Some n \<Longrightarrow> named_session s n conn"
  using conns.names_allD [of "named_session s" "sv_table s" conn n] by (simp add: my_server_inv_def)

text \<open>A session replaced by one of the same standing; the gate and the registry do not matter.\<close>

definition same_standing :: "my_conn \<Rightarrow> my_conn \<Rightarrow> bool" where
  "same_standing c c' \<longleftrightarrow> (c_stage c = Serving \<longrightarrow> c_stage c' = Serving \<and> h_conn_id (c_handler c') = h_conn_id (c_handler c))"

lemma put_conn_simps [simp]:
  "sv_conns (put_conn n c s) = (sv_conns s)(n \<mapsto> c)" "sv_table (put_conn n c s) = sv_table s"
  "sv_seq (put_conn n c s) = sv_seq s" "sv_read_only (put_conn n c s) = sv_read_only s"
  "sv_gate (put_conn n c s) = sv_gate s" "sv_registry (put_conn n c s) = sv_registry s"
  "sv_lib (put_conn n c s) = sv_lib s" "sv_user (put_conn n c s) = sv_user s" "sv_pass (put_conn n c s) = sv_pass s"
  by (simp_all add: put_conn_def)

lemma put_conn_inv:
  assumes "my_server_inv s" and "sv_conns s n = Some c" and "conn_ok (sv_read_only s) c'" and "same_standing c c'"
  shows "my_server_inv (put_conn n c' s)"
proof -
  have "dom ((sv_conns s)(n \<mapsto> c')) = dom (sv_conns s)" using assms(2) by auto
  moreover have "named_session (put_conn n c' s) m conn" if "named_session s m conn" for m conn
    using that assms(2,4) by (auto simp: named_session_def same_standing_def)
  then have "conns.names_all (named_session (put_conn n c' s)) (sv_table s)"
    using assms(1) unfolding my_server_inv_def by (blast intro: conns.names_all_mono)
  ultimately show ?thesis using assms inv_conn [OF assms(1)] by (auto simp: my_server_inv_def)
qed

lemma named_session_cong: "sv_conns s' = sv_conns s \<Longrightarrow> named_session s' = named_session s"
  by (simp add: named_session_def fun_eq_iff)

lemma gate_inv [simp]:
  "my_server_inv (s\<lparr>sv_gate := g\<rparr>) = my_server_inv s" "my_server_inv (s\<lparr>sv_registry := x\<rparr>) = my_server_inv s"
  by (simp_all add: my_server_inv_def named_session_cong [of "s\<lparr>sv_gate := g\<rparr>" s] named_session_cong [of "s\<lparr>sv_registry := x\<rparr>" s])

lemma after_method_inv:
  assumes "my_server_inv s" and "sv_conns s n = Some c"
    and "conn_ok (sv_read_only s) (c'\<lparr>c_handler := h, c_doing := d\<rparr>)" and "same_standing c (c'\<lparr>c_handler := h, c_doing := d\<rparr>)"
  shows "my_server_inv (after_method n c' h d s)"
  unfolding after_method_def using assms by (intro put_conn_inv [of _ _ c]) simp_all

lemma accept_conn_inv:
  assumes "my_server_inv s" and "card (dom (sv_conns s)) < my_max_conns"
  shows "my_server_inv (accept_conn s)"
proof -
  have fresh: "sv_conns s (sv_seq s + 1) = None"
    using inv_conn [OF assms(1), of "sv_seq s + 1"] by (cases "sv_conns s (sv_seq s + 1)") auto
  have "named_session (accept_conn s) m conn" if "named_session s m conn" for m conn
    using that fresh by (auto simp: named_session_def accept_conn_def Let_def)
  then have "conns.names_all (named_session (accept_conn s)) (sv_table s)"
    using assms(1) unfolding my_server_inv_def by (blast intro: conns.names_all_mono)
  then show ?thesis
    using assms fresh inv_conn [OF assms(1)]
    by (auto simp: my_server_inv_def accept_conn_def Let_def card_insert_if domIff le_Suc_eq conn_ok_def new_my_handler_def
        split: if_splits)
qed

lemma list_conn_inv:
  assumes "my_server_inv s" and "sv_conns s n = Some c" and "c_stage c = Logged_in"
  shows "my_server_inv (list_conn n c s)"
proof -
  let ?c = "c\<lparr>c_stage := Serving\<rparr>"
  have "conn_ok (sv_read_only s) ?c" "same_standing c ?c"
    using inv_conn [OF assms(1,2)] assms(3) by (auto simp: conn_ok_def same_standing_def)
  then have inv: "my_server_inv (put_conn n ?c s)" by (rule put_conn_inv [OF assms(1,2)])
  have "named_session (list_conn n c s) = named_session (put_conn n ?c s)"
    by (rule named_session_cong) (simp add: list_conn_def)
  moreover have "named_session (put_conn n ?c s) n (h_conn_id (c_handler c))" by (simp add: named_session_def)
  ultimately have "conns.names_all (named_session (list_conn n c s)) (sv_table (list_conn n c s))"
    using inv by (auto simp: list_conn_def my_server_inv_def intro: conns.names_all_enter)
  then show ?thesis using inv by (simp add: my_server_inv_def list_conn_def)
qed

lemma end_conn_inv:
  assumes "my_server_inv s" and "sv_conns s n = Some c"
  shows "my_server_inv (end_conn n c s)"
proof -
  have "card (dom (sv_conns s) - {n}) \<le> card (dom (sv_conns s))"
    using assms(1) by (intro card_mono) (auto simp: my_server_inv_def)
  moreover have "conns.names_all (named_session (end_conn n c s)) (sv_table (end_conn n c s))"
  proof (cases "c_stage c = Serving")
    case True
    have "conns.names_all (named_session (end_conn n c s)) (table_remove (h_conn_id (c_handler c)) (sv_table s))"
      using assms unfolding my_server_inv_def
      by (auto simp: named_session_def end_conn_def Let_def elim!: conns.names_all_leave)
    then show ?thesis using True by (simp add: end_conn_def)
  next
    case False
    with assms(2) have "named_session (end_conn n c s) m conn" if "named_session s m conn" for m conn
      using that by (auto simp: named_session_def end_conn_def)
    with assms(1) have "conns.names_all (named_session (end_conn n c s)) (sv_table s)"
      unfolding my_server_inv_def by (blast intro: conns.names_all_mono)
    with False show ?thesis by (simp add: end_conn_def)
  qed
  ultimately show ?thesis
    using assms by (auto simp: my_server_inv_def end_conn_def Let_def)
qed

lemma doing_inv:
  assumes "my_server_inv s" and "sv_conns s n = Some c" and "c_doing c \<noteq> Idle \<or> d = Idle"
  shows "my_server_inv (put_conn n (c\<lparr>c_doing := d\<rparr>) s)"
  using inv_conn [OF assms(1,2)] assms(3) by (intro put_conn_inv [OF assms(1,2)]) (auto simp: conn_ok_def same_standing_def)

lemma interrupt_conn_inv:
  assumes "my_server_inv s" and "sv_conns s m = Some cm"
  shows "my_server_inv (put_conn m (snd (interrupt cm)) s)"
proof (cases "c_doing cm")
  case (Awaiting sent k)
  then show ?thesis using doing_inv [OF assms] by (simp add: interrupt_def)
qed (use put_conn_inv [OF assms] inv_conn [OF assms] in \<open>simp_all add: interrupt_def same_standing_def\<close>)

lemma disconnect_inv: "my_server_inv s \<Longrightarrow> my_server_inv (disconnect_conn m s)"
  using put_conn_inv [of s m _] inv_conn [of s m]
  by (fastforce simp: disconnect_conn_def conn_ok_def same_standing_def split: option.split)

text \<open>The session that kills is still there, as it was, after the target's handler was called.\<close>

lemma interrupt_other:
  assumes "sv_conns s n = Some c" and "c_doing c = Interrupting m qo" and "sv_conns s m = Some cm"
  shows "sv_conns (put_conn m (snd (interrupt cm)) s) n = Some c"
  using assms by (auto simp: interrupt_def)

lemma kill_interrupt_inv:
  assumes "my_server_inv s" and "sv_conns s n = Some c" and "c_doing c = Interrupting m qo"
  shows "my_server_inv (kill_interrupt n c m qo s)"
  using assms interrupt_conn_inv [OF assms(1)] interrupt_other [OF assms(2,3)]
  by (auto simp: kill_interrupt_def Let_def intro!: doing_inv split: option.split)

lemma kill_disconnect_inv:
  assumes "my_server_inv s"
  shows "my_server_inv (kill_disconnect n m s)"
  using doing_inv [OF disconnect_inv [OF assms]] disconnect_inv [OF assms]
  by (auto simp: kill_disconnect_def Let_def split: option.split)

lemma shutdown_inv:
  assumes "my_server_inv s"
  shows "my_server_inv (s\<lparr>sv_conns := map_option (\<lambda>c. c\<lparr>c_over := True\<rparr>) \<circ> sv_conns s\<rparr>)" (is "my_server_inv ?s")
proof -
  have "dom (map_option (\<lambda>c. c\<lparr>c_over := True\<rparr>) \<circ> sv_conns s) = dom (sv_conns s)" by (auto simp: dom_def)
  moreover have "named_session s m conn \<Longrightarrow> named_session ?s m conn" for m conn by (auto simp: named_session_def)
  then have "conns.names_all (named_session ?s) (sv_table s)"
    using assms unfolding my_server_inv_def by (blast intro: conns.names_all_mono)
  ultimately show ?thesis
    using assms by (auto simp: my_server_inv_def conn_ok_def)
qed

lemma my_step_inv:
  assumes "my_step s e s'" and "my_server_inv s"
  shows "my_server_inv s'"
  using assms
proof (cases rule: my_step.cases)
  case conn_accepted
  with assms(2) show ?thesis by (simp add: accept_conn_inv)
next
  case (conn_shaken n c fits decoy conn asked db scramble r h)
  from handshake_keeps [OF conn_shaken(5)] inv_conn [OF assms(2) conn_shaken(3)] conn_shaken show ?thesis
    by (auto intro!: after_method_inv [OF assms(2) conn_shaken(3)]
        simp: conn_ok_def same_standing_def seen_by_def stage_of_def)
next
  case (conn_listed n c)
  with assms(2) show ?thesis by (simp add: list_conn_inv)
next
  case (query_asked n c api q a calls h)
  from dispatch_keeps [OF query_asked(6)] inv_conn [OF assms(2) query_asked(3)] query_asked show ?thesis
    by (auto intro!: after_method_inv [OF assms(2) query_asked(3)] simp: conn_ok_def same_standing_def seen_by_def)
next
  case (kill_looks n c target query_only e)
  with assms(2) show ?thesis
    by (auto simp: kill_lookup_def intro!: doing_inv split: option.splits)
next
  case (kill_interrupts n c m query_only)
  with assms(2) show ?thesis by (simp add: kill_interrupt_inv)
next
  case (kill_disconnects n c m)
  with assms(2) show ?thesis by (simp add: kill_disconnect_inv)
next
  case (query_answered n c sent killed res r h)
  from finish_keeps [OF query_answered(5)] inv_conn [OF assms(2) query_answered(3)] query_answered show ?thesis
    by (auto intro!: after_method_inv [OF assms(2) query_answered(3)] simp: conn_ok_def same_standing_def seen_by_def)
next
  case (conn_ended n c)
  with assms(2) show ?thesis by (simp add: end_conn_inv)
next
  case checker_moves
  with assms(2) show ?thesis by simp
next
  case server_shut
  with assms(2) show ?thesis by (simp add: shutdown_inv)
qed

lemma new_my_server_inv: "my_server_inv (new_my_server lib user pass ro g x)"
  by (simp add: my_server_inv_def new_my_server_def conns.names_all_blank)

lemma my_run_inv: "my_run (new_my_server lib user pass ro g x) es s \<Longrightarrow> my_server_inv s"
  by (induction rule: my_run.induct) (auto simp: new_my_server_inv dest: my_step_inv)

section \<open>What happened before\<close>

text \<open>A session that asked for the kill of an id, and one that was admitted under it.\<close>

definition kill_named :: "my_event set \<Rightarrow> nat \<Rightarrow> nat \<Rightarrow> bool" where
  "kill_named E i m \<longleftrightarrow>
     (\<exists>target q query_only calls. Asked i q (Kill_session target query_only) calls \<in> E \<and> Shaken m target Admitted \<in> E)"

definition conn_history :: "my_event set \<Rightarrow> nat \<Rightarrow> my_conn \<Rightarrow> bool" where
  "conn_history E n c \<longleftrightarrow>
     (c_stage c = Logged_in \<or> c_stage c = Serving \<longrightarrow> Shaken n (h_conn_id (c_handler c)) Admitted \<in> E) \<and>
     (case c_doing c of
        Awaiting sent k \<Rightarrow> k \<longrightarrow> (\<exists>i. Interrupted_by i n \<in> E)
      | Killing target qo \<Rightarrow> \<exists>q calls. Asked n q (Kill_session target qo) calls \<in> E
      | Interrupting m qo \<Rightarrow> kill_named E n m
      | _ \<Rightarrow> True)"

definition history_ok :: "my_event set \<Rightarrow> my_server \<Rightarrow> bool" where
  "history_ok E s \<longleftrightarrow>
     (\<forall>n c. sv_conns s n = Some c \<longrightarrow> conn_history E n c) \<and>
     (\<forall>i m. Interrupted_by i m \<in> E \<longrightarrow> kill_named E i m)"

lemma kill_named_mono: "kill_named E i m \<Longrightarrow> kill_named (insert e E) i m"
  by (auto simp: kill_named_def)

lemma conn_history_mono: "conn_history E n c \<Longrightarrow> conn_history (insert e E) n c"
  by (auto simp: conn_history_def intro: kill_named_mono split: doing.splits)

lemma history_put:
  assumes "history_ok E s" and "conn_history E n c" and "sv_conns s' = (sv_conns s)(n \<mapsto> c)"
  shows "history_ok E s'"
  using assms by (auto simp: history_ok_def)

lemma history_event:
  assumes "history_ok E s" and "\<And>i m. e = Interrupted_by i m \<Longrightarrow> kill_named E i m"
  shows "history_ok (insert e E) s"
  using assms by (auto simp: history_ok_def intro: conn_history_mono kill_named_mono)

lemma history_conn: "history_ok E s \<Longrightarrow> sv_conns s n = Some c \<Longrightarrow> conn_history E n c"
  by (simp add: history_ok_def)

lemma history_over: "history_ok E s \<Longrightarrow> sv_conns s m = Some cm \<Longrightarrow> conn_history E m (cm\<lparr>c_over := b\<rparr>)"
  by (drule (1) history_conn) (simp add: conn_history_def)

lemma history_idle: "history_ok E s \<Longrightarrow> sv_conns s n = Some c \<Longrightarrow> conn_history E n (c\<lparr>c_doing := Idle\<rparr>)"
  by (drule (1) history_conn) (simp add: conn_history_def)

lemma my_step_history:
  assumes "my_step s e s'" and "my_server_inv s" and "history_ok E s"
  shows "history_ok (insert e E) s'"
proof -
  let ?E = "insert e E"
  have old: "history_ok ?E s" if "\<And>i m. e \<noteq> Interrupted_by i m" using assms(3) that by (intro history_event) auto
  show ?thesis
    using assms(1)
  proof (cases rule: my_step.cases)
    case conn_accepted
    then show ?thesis
      by (intro history_put [OF old, of "sv_seq s + 1"]) (auto simp: accept_conn_def Let_def conn_history_def)
  next
    case (conn_shaken n c fits decoy conn asked db scramble r h)
    with handshake_keeps [OF conn_shaken(5)] show ?thesis
      by (intro history_put [OF old, of n]) (auto simp: after_method_def conn_history_def stage_of_def)
  next
    case (conn_listed n c)
    with history_conn [OF old] show ?thesis
      by (intro history_put [OF old, of n]) (auto simp: list_conn_def conn_history_def)
  next
    case (query_asked n c api q a calls h)
    with history_conn [OF old, of n c] dispatch_keeps [OF query_asked(6)] show ?thesis
      by (intro history_put [OF old, of n "c\<lparr>c_handler := h, c_doing := doing_of a\<rparr>"]; cases a)
        (auto simp: after_method_def conn_history_def seen_by_def)
  next
    case (kill_looks n c target query_only err)
    have h: "conn_history ?E n c" using kill_looks by (intro history_conn [OF old]) auto
    have h_idle: "conn_history ?E n (c\<lparr>c_doing := Idle\<rparr>)" using h by (simp add: conn_history_def)
    show ?thesis
    proof (cases "table_lookup target (sv_table s)")
      case None
      with kill_looks h_idle show ?thesis
        by (intro history_put [OF old, of n "c\<lparr>c_doing := Idle\<rparr>"]) (simp_all add: kill_lookup_def, auto)
    next
      case (Some m)
      from inv_names [OF assms(2) this] obtain cm where cm: "sv_conns s m = Some cm" "c_stage cm = Serving"
          "h_conn_id (c_handler cm) = target" by (auto simp: named_session_def)
      then have "Shaken m target Admitted \<in> E" using history_conn [OF assms(3)] by (auto simp: conn_history_def)
      then have "conn_history ?E n (c\<lparr>c_doing := Interrupting m query_only\<rparr>)"
        using h kill_looks by (auto simp: conn_history_def kill_named_def)
      with kill_looks Some show ?thesis by (intro history_put [OF old, of n]) (auto simp: kill_lookup_def)
    qed
  next
    case (kill_interrupts n c m query_only)
    have named: "kill_named E n m" using history_conn [OF assms(3) kill_interrupts(3)] kill_interrupts by (simp add: conn_history_def)
    with kill_interrupts have now: "history_ok ?E s" by (intro history_event [OF assms(3)]) simp
    define s1 where "s1 = (case sv_conns s m of None \<Rightarrow> s | Some cm \<Rightarrow> put_conn m (snd (interrupt cm)) s)"
    have "history_ok ?E s1"
    proof (cases "sv_conns s m")
      case (Some cm)
      with history_conn [OF now Some] kill_interrupts have "conn_history ?E m (snd (interrupt cm))"
        by (auto simp: interrupt_def conn_history_def split: doing.splits)
      then show ?thesis using Some by (intro history_put [OF now, of m]) (auto simp: s1_def)
    qed (simp add: s1_def now)
    moreover have "conn_history ?E n (c\<lparr>c_doing := (if query_only then Idle else Disconnecting m)\<rparr>)"
      using history_conn [OF now kill_interrupts(3)] by (simp add: conn_history_def)
    moreover have "sv_conns s' = (sv_conns s1)(n \<mapsto> c\<lparr>c_doing := (if query_only then Idle else Disconnecting m)\<rparr>)"
      unfolding kill_interrupts(2) kill_interrupt_def Let_def s1_def [symmetric] by (rule put_conn_simps)
    ultimately show ?thesis by (rule history_put)
  next
    case (kill_disconnects n c m)
    then have now: "history_ok ?E s" by (intro old) simp
    have s1: "history_ok ?E (disconnect_conn m s)"
    proof (cases "sv_conns s m")
      case (Some cm)
      then show ?thesis
        using history_over [OF now Some] by (intro history_put [OF now, of m]) (auto simp: disconnect_conn_def)
    qed (simp add: disconnect_conn_def now)
    show ?thesis
    proof (cases "sv_conns (disconnect_conn m s) n")
      case (Some c1)
      with kill_disconnects history_idle [OF s1 Some] show ?thesis
        by (intro history_put [OF s1, of n]) (auto simp: kill_disconnect_def Let_def)
    qed (use s1 kill_disconnects in \<open>simp add: kill_disconnect_def Let_def\<close>)
  next
    case (query_answered n c sent killed res r h)
    with history_conn [OF old, of n c] finish_keeps [OF query_answered(5)] show ?thesis
      by (intro history_put [OF old, of n]) (auto simp: after_method_def conn_history_def seen_by_def)
  next
    case (conn_ended n c)
    with old show ?thesis by (auto simp: end_conn_def Let_def history_ok_def split: if_splits)
  next
    case checker_moves
    with old show ?thesis by (auto simp: history_ok_def)
  next
    case server_shut
    with old history_over [OF old] show ?thesis by (auto simp: history_ok_def)
  qed
qed

lemma my_run_history:
  assumes "my_run (new_my_server lib user pass ro g x) es s"
  shows "history_ok (set es) s"
  using assms
proof (induction rule: my_run.induct)
  case (run_step es s e s')
  then show ?case using my_step_history [OF run_step(2) my_run_inv [OF run_step(1)]] by simp
qed (simp add: history_ok_def new_my_server_def)

section \<open>Properties\<close>


lemma asked_step:
  assumes "my_step s (Asked n q a calls) s'"
  obtains c api h where "sv_conns s n = Some c" and "c_stage c = Serving"
    and "dispatch (sv_lib s) api q (seen_by s c) = (a, calls, h)"
  using assms by (auto elim: my_step.cases)

lemma step_read_only: "my_step s e s' \<Longrightarrow> sv_read_only s' = sv_read_only s"
  by (cases rule: my_step.cases, assumption)
    (auto simp: accept_conn_def Let_def after_method_def list_conn_def kill_lookup_def kill_interrupt_def kill_disconnect_def
      disconnect_conn_def end_conn_def split: option.splits if_splits)

lemma run_read_only: "my_run s0 es s \<Longrightarrow> sv_read_only s = sv_read_only s0"
  by (induction rule: my_run.induct) (auto dest: step_read_only)


lemma interrupted_history:
  assumes "my_run (new_my_server lib user pass ro g x) es s"
    and "Answered n (Inl (Default_error ER_QUERY_INTERRUPTED [])) \<in> set es"
  shows "\<exists>i. Interrupted_by i n \<in> set es \<and> kill_named (set es) i n"
  using assms
proof (induction rule: my_run.induct)
  case (run_step es s e s')
  show ?case
  proof (cases "e = Answered n (Inl (Default_error ER_QUERY_INTERRUPTED []))")
    case True
    from run_step(2) obtain c sent killed res h where c: "sv_conns s n = Some c" "c_doing c = Awaiting sent killed"
        "finish_query (sv_lib s) sent killed (c_over c) res (seen_by s c) = (Inl (Default_error ER_QUERY_INTERRUPTED []), h)"
      unfolding True by (auto elim: answered_stepE)
    note hist = my_run_history [OF run_step(1)]
    from interrupted_was_killed [OF c(3)] history_conn [OF hist c(1)] c(2) obtain i where i: "Interrupted_by i n \<in> set es"
      by (auto simp: conn_history_def)
    with hist have "kill_named (set es) i n" by (auto simp: history_ok_def)
    with i show ?thesis by (auto intro: kill_named_mono)
  next
    case False
    with run_step show ?thesis by (auto intro: kill_named_mono)
  qed
qed simp

text \<open>
  Property C8: a client is told that its query was interrupted only if someone asked for that: a session that sent a \<open>KILL\<close>
  with the very connection id under which the interrupted client had been admitted, and none else is touched by it.
\<close>

theorem interrupted_only_by_kill:
  assumes "my_run (new_my_server lib user pass ro g x) es s"
    and "Answered n (Inl (Default_error ER_QUERY_INTERRUPTED [])) \<in> set es"
  shows "\<exists>i q target query_only calls.
    Asked i q (Kill_session target query_only) calls \<in> set es \<and> Shaken n target Admitted \<in> set es \<and> Interrupted_by i n \<in> set es"
  using interrupted_history [OF assms] unfolding kill_named_def by blast

section \<open>A kill takes effect\<close>

text \<open>
  Property C12: a \<open>KILL QUERY\<close> takes effect without waiting for anyone: in any state of the server a session that is free can send it
  and be done with it in three steps of its own, whatever the gate is; if the id is that of another session whose query
  Redash is working on, that query is marked, and any error Redash's call then returns is told to its client as
  the interruption; no other session and not the gate is changed.
\<close>

theorem kill_takes_effect:
  assumes "sv_conns s i = Some ci" and "c_stage ci = Serving" and "c_doing ci = Idle"
    and "table_lookup target (sv_table s) = Some m" and "sv_conns s m = Some cm"
    and "c_doing cm = Awaiting sent k" and "\<not> c_over cm"
  shows "\<exists>es s'. my_run s es s' \<and> length es = 3 \<and>
    map_option c_doing (sv_conns s' i) = Some Idle \<and> sv_conns s' m = Some (cm\<lparr>c_doing := Awaiting sent True\<rparr>) \<and>
    (\<forall>n. n \<noteq> i \<longrightarrow> n \<noteq> m \<longrightarrow> sv_conns s' n = sv_conns s n) \<and> sv_gate s' = sv_gate s \<and>
    (\<forall>s'' r. my_step s' (Answered m r) s'' \<longrightarrow> r = Inl (Default_error ER_QUERY_INTERRUPTED []) \<or> (\<exists>res. r = build_result (sv_lib s) sent res))"
proof -
  let ?h = "seen_by s ci"
  let ?c1 = "ci\<lparr>c_handler := ?h, c_doing := Killing target True\<rparr>"
  let ?c2 = "?c1\<lparr>c_doing := Interrupting m True\<rparr>"
  let ?s1 = "put_conn i ?c1 s" and ?s2 = "put_conn i ?c2 (put_conn i ?c1 s)"
  define s3 where "s3 = kill_interrupt i ?c2 m True ?s2"
  have im: "i \<noteq> m" using assms by auto
  have "my_step s (Asked i (kill_statement True target) (Kill_session target True) []) (after_method i ci ?h (doing_of (Kill_session target True)) s)"
    by (rule query_asked [OF assms(1-3)]) (rule kill_reads_body)
  moreover have "after_method i ci ?h (doing_of (Kill_session target True)) s = ?s1"
    by (simp add: after_method_def seen_by_def)
  ultimately have 1: "my_step s (Asked i (kill_statement True target) (Kill_session target True) []) ?s1" by simp
  have 2: "my_step ?s1 (Looked_up i target None) ?s2"
    by (rule kill_looks [of _ _ ?c1 _ True]) (simp_all add: kill_lookup_def assms(4))
  have 3: "my_step ?s2 (Interrupted_by i m) s3"
    unfolding s3_def by (rule kill_interrupts) simp_all
  have run: "my_run s [Interrupted_by i m, Looked_up i target None, Asked i (kill_statement True target) (Kill_session target True) []] s3"
    by (intro run_step [OF _ 3] run_step [OF _ 2] run_step [OF _ 1] run_start)
  have conns: "sv_conns s3 = (sv_conns s)(i \<mapsto> ?c2\<lparr>c_doing := Idle\<rparr>, m \<mapsto> cm\<lparr>c_doing := Awaiting sent True\<rparr>)"
    using assms(5,6) im by (simp add: s3_def kill_interrupt_def Let_def interrupt_def fun_eq_iff)
  have rest: "sv_gate s3 = sv_gate s" "sv_lib s3 = sv_lib s"
    using assms(5) im by (simp_all add: s3_def kill_interrupt_def Let_def)
  have "r = Inl (Default_error ER_QUERY_INTERRUPTED []) \<or> (\<exists>res. r = build_result (sv_lib s) sent res)"
    if "my_step s3 (Answered m r) s''" for r s''
  proof -
    from that obtain c sent' killed res h where c: "sv_conns s3 m = Some c" "c_doing c = Awaiting sent' killed"
        "finish_query (sv_lib s3) sent' killed (c_over c) res (seen_by s3 c) = (r, h)"
      by (rule answered_stepE) blast
    then have "c = cm\<lparr>c_doing := Awaiting sent True\<rparr>" by (simp add: conns)
    with c assms(7) have "finish_query (sv_lib s) sent True False res (seen_by s3 c) = (r, h)" by (simp add: rest)
    then show ?thesis by (rule finish_killed)
  qed
  with run conns rest im show ?thesis
    by (intro exI [of _ "[Interrupted_by i m, Looked_up i target None, Asked i (kill_statement True target) (Kill_session target True) []]"]
        exI [of _ s3]) auto
qed

section \<open>A run\<close>

text \<open>Two clients log in to the same database; the second kills the query of the first.\<close>

definition shop_server :: my_server where
  "shop_server = new_my_server sample_lib ''redash'' ''pw'' True new_gate shop_registry"

definition shop_conn :: "32 word \<Rightarrow> my_conn" where
  "shop_conn conn =
     \<lparr>c_handler = \<lparr>h_gate = new_gate, h_registry = shop_registry, h_read_only = True, h_ds_id = 3, h_db_name = ''shop'',
        h_authenticated = True, h_pending_db = [], h_conn_id = conn, h_cache = new_schema_cache\<rparr>,
      c_stage = Serving, c_doing = Idle, c_over = False\<rparr>"

definition with_conn :: "32 word \<Rightarrow> my_server \<Rightarrow> my_server" where
  "with_conn conn s =
     put_conn (sv_seq s + 1) (shop_conn conn)
       (s\<lparr>sv_seq := sv_seq s + 1, sv_table := table_add conn (sv_seq s + 1) (sv_table s)\<rparr>)"

lemma shop_lookup: "swappable_lookup shop_registry ''shop'' = Some \<lparr>ds_id = 3, ds_name = ''shop'', ds_type = ''mysql''\<rparr>"
  "is_mysql_compatible ''mysql''"
  by code_simp+

lemma login_run:
  assumes "my_run s0 es s" and "sv_gate s = new_gate" and "sv_registry s = shop_registry" and "sv_read_only s"
    and "sv_user s = ''redash''" and "sv_pass s = ''pw''" and "card (dom (sv_conns s)) < my_max_conns"
  shows "my_run s0 (Entered (sv_seq s + 1) conn # Shaken (sv_seq s + 1) conn Admitted # Accepted (sv_seq s + 1) # es) (with_conn conn s)"
proof -
  let ?n = "sv_seq s + 1"
  let ?c0 = "\<lparr>c_handler = new_my_handler new_gate shop_registry True, c_stage = Handshaking, c_doing = Idle, c_over = False\<rparr>"
  let ?c1 = "(shop_conn conn)\<lparr>c_stage := Logged_in\<rparr>"
  have s1: "accept_conn s = put_conn ?n ?c0 (s\<lparr>sv_seq := ?n\<rparr>)"
    using assms by (simp add: accept_conn_def)
  have up: "gate_up new_gate" by (simp add: gate_up_def new_gate_def)
  have shaken: "my_handshake (=) ''redash'' ''pw'' ''decoy'' conn ''redash'' ''shop'' ''pw'' (seen_by (accept_conn s) ?c0) =
      (Admitted, c_handler ?c1)"
    using assms by (simp add: my_handshake_def get_credential_def login_def use_db_def seen_by_def s1
        new_my_handler_def up shop_lookup shop_conn_def cache_reset_def new_schema_cache_def)
  have 1: "my_step s (Accepted ?n) (accept_conn s)" by (rule conn_accepted [OF assms(7)])
  have "my_step (accept_conn s) (Shaken ?n conn Admitted) (after_method ?n (?c0\<lparr>c_stage := stage_of Admitted\<rparr>) (c_handler ?c1) Idle (accept_conn s))"
    by (rule conn_shaken [where fits = "(=)" and decoy = "''decoy''" and asked = "''redash''" and db = "''shop''" and scramble = "''pw''"])
      (use shaken assms in \<open>simp_all add: s1\<close>)
  moreover have "after_method ?n (?c0\<lparr>c_stage := stage_of Admitted\<rparr>) (c_handler ?c1) Idle (accept_conn s) =
      put_conn ?n ?c1 (s\<lparr>sv_seq := ?n\<rparr>)"
    using assms by (simp add: after_method_def s1 stage_of_def shop_conn_def put_conn_def)
  ultimately have 2: "my_step (accept_conn s) (Shaken ?n conn Admitted) (put_conn ?n ?c1 (s\<lparr>sv_seq := ?n\<rparr>))" by simp
  have "my_step (put_conn ?n ?c1 (s\<lparr>sv_seq := ?n\<rparr>)) (Entered ?n (h_conn_id (c_handler ?c1)))
      (list_conn ?n ?c1 (put_conn ?n ?c1 (s\<lparr>sv_seq := ?n\<rparr>)))"
    by (rule conn_listed) simp_all
  moreover have "list_conn ?n ?c1 (put_conn ?n ?c1 (s\<lparr>sv_seq := ?n\<rparr>)) = with_conn conn s"
    by (simp add: list_conn_def with_conn_def put_conn_def shop_conn_def)
  ultimately have 3: "my_step (put_conn ?n ?c1 (s\<lparr>sv_seq := ?n\<rparr>)) (Entered ?n conn) (with_conn conn s)" by (simp add: shop_conn_def)
  show ?thesis by (intro run_step [OF _ 3] run_step [OF _ 2] run_step [OF _ 1] assms(1))
qed

definition two_clients :: my_server where
  "two_clients = with_conn 11 (with_conn 10 shop_server)"

definition two_logins :: "my_event list" where
  "two_logins = [Entered 2 11, Shaken 2 11 Admitted, Accepted 2, Entered 1 10, Shaken 1 10 Admitted, Accepted 1]"

lemma two_clients_run: "my_run shop_server two_logins two_clients"
proof -
  have 0: "my_run shop_server [] shop_server" by (rule run_start)
  have 1: "my_run shop_server [Entered 1 10, Shaken 1 10 Admitted, Accepted 1] (with_conn 10 shop_server)"
    using login_run [OF 0, of 10] by (simp add: shop_server_def new_my_server_def my_max_conns_def)
  have "card (dom (sv_conns (with_conn 10 shop_server))) < my_max_conns"
    by (simp add: with_conn_def shop_server_def new_my_server_def my_max_conns_def)
  with login_run [OF 1, of 11] show ?thesis
    by (simp add: two_clients_def two_logins_def with_conn_def shop_server_def new_my_server_def put_conn_def numeral_2_eq_2)
qed


text \<open>The first client's query is sent to Redash.\<close>

definition one_query :: my_server where
  "one_query = put_conn 1 ((shop_conn 10)\<lparr>c_doing := Awaiting ''SELECT a FROM db.t'' False\<rparr>) two_clients"

definition query_event :: my_event where
  "query_event = Asked 1 '' SELECT a FROM db.t'' (Send_query ''SELECT a FROM db.t'') [Execute_query ''SELECT a FROM db.t'' 3]"

lemma two_clients_conns:
  "sv_conns two_clients = [1 \<mapsto> shop_conn 10, 2 \<mapsto> shop_conn 11]" "sv_gate two_clients = new_gate"
  "sv_registry two_clients = shop_registry" "sv_lib two_clients = sample_lib"
  "table_lookup 10 (sv_table two_clients) = Some 1"
  by (simp_all add: two_clients_def with_conn_def shop_server_def new_my_server_def conns.look_enter put_conn_def numeral_2_eq_2)

lemma seen_shop [simp]: "sv_gate s = new_gate \<Longrightarrow> sv_registry s = shop_registry \<Longrightarrow> seen_by s (shop_conn conn) = c_handler (shop_conn conn)"
  by (simp add: seen_by_def shop_conn_def)

lemma one_query_run: "my_run shop_server (query_event # two_logins) one_query"
proof -
  have "strip_db_qualifier ''shop'' ''SELECT a FROM db.t'' = ''SELECT a FROM db.t''" by code_simp
  then have "dispatch sample_lib sample_api '' SELECT a FROM db.t'' (seen_by two_clients (shop_conn 10)) =
      (Send_query ''SELECT a FROM db.t'', [Execute_query ''SELECT a FROM db.t'' 3], c_handler (shop_conn 10))"
    by (simp add: dispatch_def sample_my_read Let_def two_clients_conns) (simp add: shop_conn_def gate_up_def new_gate_def)
  then have "my_step two_clients query_event
      (after_method 1 (shop_conn 10) (c_handler (shop_conn 10)) (doing_of (Send_query ''SELECT a FROM db.t'')) two_clients)"
    unfolding query_event_def
    by (intro query_asked [of _ _ _ sample_api]) (simp_all add: two_clients_conns, simp_all add: shop_conn_def)
  moreover have "after_method 1 (shop_conn 10) (c_handler (shop_conn 10)) (doing_of (Send_query ''SELECT a FROM db.t'')) two_clients = one_query"
    by (simp add: after_method_def one_query_def shop_conn_def put_conn_def two_clients_conns [symmetric])
  ultimately show ?thesis by (metis run_step two_clients_run)
qed


lemma one_query_conns:
  "sv_conns one_query 1 = Some ((shop_conn 10)\<lparr>c_doing := Awaiting ''SELECT a FROM db.t'' False\<rparr>)"
  "sv_conns one_query 2 = Some (shop_conn 11)" "table_lookup 10 (sv_table one_query) = Some 1"
  by (simp_all add: one_query_def two_clients_conns)

theorem kill_takes_effect_witness:
  "\<exists>es s'. my_run one_query es s' \<and> length es = 3 \<and>
     sv_conns s' 1 = Some ((shop_conn 10)\<lparr>c_doing := Awaiting ''SELECT a FROM db.t'' True\<rparr>)"
proof -
  have s: "c_stage (shop_conn 11) = Serving" "c_doing (shop_conn 11) = Idle" "\<not> c_over (shop_conn 10)"
    by (simp_all add: shop_conn_def)
  from kill_takes_effect [OF one_query_conns(2) s(1,2) one_query_conns(3,1), of "''SELECT a FROM db.t''" False] s(3)
  show ?thesis by auto
qed

text \<open>The second client kills it, and the first is told.\<close>

definition kill_events :: "my_event list" where
  "kill_events =
     [Answered 1 (Inl (Default_error ER_QUERY_INTERRUPTED [])), Interrupted_by 2 1, Looked_up 2 10 None,
      Asked 2 (kill_statement True 10) (Kill_session 10 True) []]"

lemma kill_run: "\<exists>s. my_run shop_server (kill_events @ query_event # two_logins) s"
proof -
  define c2 where "c2 = (shop_conn 11)\<lparr>c_doing := Killing 10 True\<rparr>"
  define s1 where "s1 = after_method 2 (shop_conn 11) (seen_by one_query (shop_conn 11)) (doing_of (Kill_session 10 True)) one_query"
  define c3 where "c3 = c2\<lparr>c_doing := Interrupting 1 True\<rparr>"
  define s3 where "s3 = kill_interrupt 2 c3 1 True (put_conn 2 c3 s1)"
  have g: "sv_gate one_query = new_gate" "sv_registry one_query = shop_registry"
    by (simp_all add: one_query_def two_clients_conns)
  have "my_step one_query (Asked 2 (kill_statement True 10) (Kill_session 10 True) []) s1"
    unfolding s1_def by (rule query_asked [OF one_query_conns(2) _ _ kill_reads_body]) (simp_all add: shop_conn_def)
  from run_step [OF one_query_run this] have r1: "my_run shop_server (Asked 2 (kill_statement True 10) (Kill_session 10 True) [] # query_event # two_logins) s1" .
  have s1: "sv_conns s1 2 = Some c2" "sv_conns s1 1 = sv_conns one_query 1" "sv_table s1 = sv_table one_query"
    using g by (simp_all add: s1_def after_method_def c2_def shop_conn_def seen_by_def)
  have "my_step s1 (Looked_up 2 10 None) (put_conn 2 c3 s1)"
    by (rule kill_looks [OF s1(1), of 10 True]) (simp_all add: c2_def c3_def kill_lookup_def s1 one_query_conns)
  from run_step [OF r1 this] have r2: "my_run shop_server (Looked_up 2 10 None # Asked 2 (kill_statement True 10) (Kill_session 10 True) [] # query_event # two_logins) (put_conn 2 c3 s1)" .
  have "my_step (put_conn 2 c3 s1) (Interrupted_by 2 1) s3"
    unfolding s3_def by (rule kill_interrupts) (simp_all add: c3_def)
  note r3 = run_step [OF r2 this]
  have c: "sv_conns s3 1 = Some ((shop_conn 10)\<lparr>c_doing := Awaiting ''SELECT a FROM db.t'' True\<rparr>)"
    by (simp add: s3_def kill_interrupt_def Let_def s1 one_query_conns interrupt_def del: One_nat_def)
  have "my_step s3 (Answered 1 (Inl (Default_error ER_QUERY_INTERRUPTED [])))
      (after_method 1 ((shop_conn 10)\<lparr>c_doing := Awaiting ''SELECT a FROM db.t'' True\<rparr>)
        (seen_by s3 ((shop_conn 10)\<lparr>c_doing := Awaiting ''SELECT a FROM db.t'' True\<rparr>)) Idle s3)"
    by (rule query_answered [OF c, where res = "Inl Canceled"])
      (simp_all add: finish_query_def execute_remote_def shop_conn_def)
  from run_step [OF r3 this] show ?thesis by (auto simp: kill_events_def)
qed

theorem interrupted_only_by_kill_witness:
  "\<exists>i q target query_only calls. Asked i q (Kill_session target query_only) calls \<in> set (kill_events @ query_event # two_logins) \<and>
     Shaken 1 target Admitted \<in> set (kill_events @ query_event # two_logins)"
proof -
  from kill_run obtain s where "my_run shop_server (kill_events @ query_event # two_logins) s" by blast
  moreover have "Answered 1 (Inl (Default_error ER_QUERY_INTERRUPTED [])) \<in> set (kill_events @ query_event # two_logins)"
    by (simp add: kill_events_def)
  ultimately show ?thesis
    using interrupted_only_by_kill [of sample_lib "''redash''" "''pw''" True new_gate shop_registry _ s 1]
    unfolding shop_server_def by blast
qed

end
