(* ===== verification/Accept_Loop.thy ===== *)
theory Accept_Loop
  imports Pg_Server My_Server
begin

text \<open>
  \<open>ListenAndServe\<close> and \<open>Serve\<close> of both servers, \<open>internal/proxy/server.go\<close> and
  \<open>internal/mysqlwire/server.go\<close>: the loop over what \<open>Accept\<close> returns, its backoff and its end. The two
  loops are the same code; what a connection does is the step relation of its server.
\<close>

text \<open>
  A connection, or an error with whether it says that the listener is closed and whether the context
  is done once the connections still open have ended (\<open>ctx.Err\<close> is asked again after \<open>wg.Wait\<close>).
\<close>

datatype accept_answer = Got_conn | Got_error string bool bool

datatype accept_action = Handle | Wait int

text \<open>
  Each answer comes with whether the context is done by then. The result is what the loop did, in
  order, and how it returned: not at all, without an error, or with one.
\<close>

fun accept_loop :: "int \<Rightarrow> (accept_answer \<times> bool) list \<Rightarrow> accept_action list \<times> string option option" where
  "accept_loop d [] = ([], None)"
| "accept_loop d ((Got_conn, over) # as) = (let (acts, r) = accept_loop 0 as in (Handle # acts, r))"
| "accept_loop d ((Got_error e closed over_later, over) # as) =
     (if over \<or> closed then ([], Some (if over \<or> over_later then None else Some (''accepting connection: '' @ e)))
      else
        let d' = next_accept_backoff d;
            (acts, r) = accept_loop d' as in
        (Wait d' # acts, r))"

definition pg_serve :: "(accept_answer \<times> bool) list \<Rightarrow> accept_action list \<times> string option option" where
  "pg_serve = accept_loop 0"

definition pg_listen_and_serve ::
  "string option \<Rightarrow> string \<Rightarrow> (accept_answer \<times> bool) list \<Rightarrow> accept_action list \<times> string option option" where
  "pg_listen_and_serve listen_error addr as =
     (case listen_error of
        Some e \<Rightarrow> ([], Some (Some (''listening on '' @ addr @ '': '' @ e)))
      | None \<Rightarrow> pg_serve as)"

definition my_serve :: "(accept_answer \<times> bool) list \<Rightarrow> accept_action list \<times> string option option" where
  "my_serve = accept_loop 0"

definition my_listen_and_serve ::
  "string option \<Rightarrow> string \<Rightarrow> (accept_answer \<times> bool) list \<Rightarrow> accept_action list \<times> string option option" where
  "my_listen_and_serve listen_error addr as =
     (case listen_error of
        Some e \<Rightarrow> ([], Some (Some (''listening on '' @ addr @ '': '' @ e)))
      | None \<Rightarrow> my_serve as)"

lemma next_accept_backoff_bounds:
  "d = 0 \<or> accept_backoff_min \<le> d \<Longrightarrow>
     accept_backoff_min \<le> next_accept_backoff d \<and> next_accept_backoff d \<le> accept_backoff_max"
  by (auto simp: next_accept_backoff_def accept_backoff_min_def accept_backoff_max_def)

lemma accept_loop_waits:
  "d = 0 \<or> accept_backoff_min \<le> d \<Longrightarrow> Wait t \<in> set (fst (accept_loop d as)) \<Longrightarrow>
     accept_backoff_min \<le> t \<and> t \<le> accept_backoff_max"
proof (induction d as rule: accept_loop.induct)
  case (2 d over as)
  then show ?case by (auto simp: case_prod_beta Let_def)
next
  case (3 d e closed over_later over as)
  then show ?case
    using next_accept_backoff_bounds [OF 3(2)]
    by (auto simp: case_prod_beta Let_def split: if_splits)
qed simp

text \<open>
  The loop ends on the first error that comes after the context is done or says that the listener is
  closed, and on no other; without an error exactly when the context is done by the end. Before that
  it handles every connection and waits between five milliseconds and a second after every other error.
\<close>

definition ends_loop :: "accept_answer \<times> bool \<Rightarrow> bool" where
  "ends_loop x = (case x of (Got_conn, over) \<Rightarrow> False | (Got_error e closed over_later, over) \<Rightarrow> over \<or> closed)"

definition loop_result :: "accept_answer \<times> bool \<Rightarrow> string option" where
  "loop_result x =
     (case x of
        (Got_conn, over) \<Rightarrow> None
      | (Got_error e closed over_later, over) \<Rightarrow>
          (if over \<or> over_later then None else Some (''accepting connection: '' @ e)))"

theorem accept_loop_ends:
  "snd (accept_loop d as) = map_option loop_result (find ends_loop as)"
  by (induction d as rule: accept_loop.induct) (auto simp: case_prod_beta Let_def ends_loop_def loop_result_def)

lemma accept_loop_handles:
  "snd (accept_loop d as) = None \<Longrightarrow>
     length (filter (\<lambda>a. a = Handle) (fst (accept_loop d as))) = length (filter (\<lambda>(a, over). a = Got_conn) as)"
  by (induction d as rule: accept_loop.induct) (auto simp: case_prod_beta Let_def split: if_splits)

end
