(* ===== verification/Spec2Isabelle.thy ===== *)
theory Spec2Isabelle
  imports Sqltext_Laws Write_Verb Redash_Registry Schema_Cache Health_Laws Redash_Client_Laws
    Pg_Result Pg_Rewrite Pg_Session_Laws Pg_Catalog_Laws Pg_Server Main_Laws My_Server_Laws
    Accept_Loop
begin

text \<open>
  A verification library for \<open>redash-wire\<close>, a proxy that speaks the PostgreSQL and MySQL wire
  protocols to SQL clients and executes their queries on a Redash server over HTTP.

  \<^bold>\<open>How the program works.\<close> \<open>cmd/redash-wire/main.go\<close> builds one Redash client, one registry of
  data sources, one health gate and one checker, and a server per protocol. A session authenticates
  its client, picks a data source by name in the registry and then answers each query: from the
  proxy's own knowledge (local and catalog queries), with a refusal (several statements, gate closed,
  no data source, a write in read-only mode), or by executing it on Redash, where a query is a job that
  is polled. The checker probes Redash on a timer and when a session suspects it, moves the gate,
  and swaps the registry.

  \<^bold>\<open>The theories.\<close>
  \<^item> \<open>Wire_Prelude\<close>: Go strings as lists of bytes and the functions of \<open>strings\<close> and \<open>strconv\<close> the
    program calls.
  \<^item> \<open>Sqltext\<close>, \<open>Sqltext_Laws\<close>, \<open>Write_Verb\<close>: \<open>internal/sqltext\<close>. The scan that tells code from
    literals and comments, batches, redaction, token search, and the read-only verdict. The locales
    \<open>lexer\<close> and \<open>blanking_lexer\<close> state what the consumers of the scan rely on.
  \<^item> \<open>Redash_Types\<close>, \<open>Redash_Registry\<close>, \<open>Schema_Cache\<close>, \<open>Redash_Client\<close>, \<open>Redash_Client_Laws\<close>:
    \<open>internal/redash\<close>. Errors as values, JSON decoding, name resolution (locale \<open>source_registry\<close>,
    interpreted on the fixed and the swappable registry), the memo of a schema (locale \<open>memo\<close>), and
    the polling loops as functions of the events their \<open>select\<close> meets.
  \<^item> \<open>Health_Gate\<close>, \<open>Health_Checker\<close>, \<open>Health_Laws\<close>: \<open>internal/health\<close>, with the interface of the gate
    (locale \<open>serving_gate\<close>), the checker as a record and its loop as a step relation whose invariant
    is proved by rule induction.
  \<^item> \<open>Pg_Messages\<close>, \<open>Pg_Datetime\<close>, \<open>Pg_Result\<close>, \<open>Pg_Local\<close>, \<open>Pg_Rewrite\<close>, \<open>Pg_Startup\<close>: \<open>internal/pgwire\<close>.
    A write to the connection is the list of backend messages in it; \<open>simple_reply\<close> is the shape of
    a complete answer to one simple query, and the lemmas \<open>reply_shape\<close> say which operations write one.
  \<^item> \<open>Go_Regexp\<close>, \<open>Pg_Select\<close>, \<open>Pg_Catalog\<close>, \<open>Pg_Catalog_Laws\<close>: \<open>internal/pgwire/catalog.go\<close>, the emulated
    system catalogs. The patterns of the file are terms of a syntax of regular expressions whose search
    is leftmost-first, as Go's; the functions of the select list are defined by recursion on the length
    of an expression, justified by congruence rules of their bodies.
  \<^item> \<open>Redash_Api\<close>: the interface \<open>RedashAPI\<close> the sessions of both protocols call, and the client behind it.
  \<^item> \<open>Pg_Session\<close>, \<open>Pg_Session_Laws\<close>, \<open>Pg_Server\<close>: \<open>internal/proxy\<close>. A session is a record, a message
    a function of it that returns what is written and which calls of Redash are made; the server is a
    step relation over the interleavings of its connections.
  \<^item> \<open>My_Lex\<close>, \<open>My_Lex_Laws\<close>, \<open>My_Values\<close>, \<open>My_Local\<close>, \<open>My_Local_Laws\<close>: \<open>internal/mysqlwire/query.go\<close>.
    The tokens of a statement, \<open>LIKE\<close> as a list of items with a declarative meaning, the typing of
    result columns, and the statements answered without Redash. The library that builds a result set
    is an argument; \<open>accepts_uniform\<close> states what it documents.
  \<^item> \<open>My_Strip\<close>, \<open>My_Handler\<close>, \<open>My_Handler_Laws\<close>: \<open>internal/mysqlwire/handler.go\<close> and \<open>auth.go\<close>. A query
    is dispatched to an answer, to a \<open>KILL\<close> or to Redash, and finished with what Redash said.
  \<^item> \<open>My_Server\<close>, \<open>My_Server_Laws\<close>: \<open>internal/mysqlwire/server.go\<close>. The sessions, their table (locale
    \<open>directory\<close>) and the steps of a \<open>KILL\<close> as a labelled step relation; runs carry their events.
  \<^item> \<open>Accept_Loop\<close>: \<open>ListenAndServe\<close> and \<open>Serve\<close> of both servers over what \<open>Accept\<close> returns: which
    connections are handled, how long each error is waited for and when the loop ends.
  \<^item> \<open>Config_File\<close>, \<open>Config_Laws\<close>, \<open>Config_Write\<close>: \<open>internal/config\<close>. Durations, expansion of the
    environment, the layers of a profile, validation, and the first-run setup that writes the file,
    with several setups racing for it.
  \<^item> \<open>Command_Line\<close>, \<open>Command_Laws\<close>: the commands of \<open>cmd/redash-wire\<close> up to what they decide and print.
  \<^item> \<open>Main_Serve\<close>, \<open>Main_Laws\<close>: the process. Its flags, the dispatch of the commands, the setup wizard of
    \<open>internal/setup\<close>, and \<open>serve\<close> from its arguments through the configuration and the first probe to the
    listeners, the banner and the exit status.

  \<^bold>\<open>What the properties say.\<close> Safety of the proxy: in read-only mode only reads reach Redash on either
  protocol, nothing reaches it while the gate is closed, a login precedes any disclosure, infrastructure
  errors are not shown, a query is cancelled only with its session's secret or by a \<open>KILL\<close> that names its
  connection, a job is cancelled exactly when nothing decided it, no report prints an API key.
  Start: the process binds only in a state fit to serve, and a first run ends in a configuration that loads.
  Catalogs: every value listed is a fact of its table or the client's own text, a listing has the rows its
  filters select, an object identifier names the same table when it comes back.
  Protocol: one complete answer per query, one error and one \<open>ReadyForQuery\<close> per pipeline, every result a
  MySQL client is sent can be encoded. Health: hysteresis, backoff and recovery of the gate. Data:
  resolution of names, the schema memo, the types and times of results, the layers of a profile, the
  configuration written once. Text: the scan, batches, patterns and the verdict, with the inputs on which the
  scan, the rewriting and the database servers disagree.

  \<^bold>\<open>Bounds.\<close> \<open>strings.ToLower\<close>, \<open>ToUpper\<close>, \<open>TrimSpace\<close>, \<open>Fields\<close> and \<open>EqualFold\<close> are modelled on ASCII.
  Durations are unbounded integers; the doubled delays stay below twice their limit
  (\<open>backoff_bounds\<close>), far inside 64 bits. Every loop is a terminating function; the polling loops
  consume one event per turn and return once a deadline is among them. JSON values are taken as
  parsed; the members of a struct are matched up to case, the last one counting. Times are modelled
  for the layouts the program uses. Process ids are 32 bit words; the directory of sessions is shown
  right before they wrap around.

  \<^bold>\<open>What is not modelled.\<close> The wire encodings of both protocols, HTTP and TLS belong to libraries
  outside the repository. A pattern that a client supplies in a catalog query is compiled by an argument of
  the session, which stands for \<open>regexp.Compile\<close>. The forms of the setup
  wizard, the parser of URLs, the delivery of signals, the styles of the banner and the layout of the log
  and of JSON reports are input and output around the components above.
\<close>

end
